(* ===== verification/Rust_Prelude.thy ===== *)
theory Rust_Prelude
  imports Main "HOL-Library.Word"
begin

unbundle bit_operations_syntax

text \<open>
  Shared vocabulary of the development: the machine integers of the crate, the
  result of a Rust function (a value, an error value, a panic, undefined behaviour),
  the arithmetic whose overflow behaviour depends on the build profile, slices and
  little-endian decoding, and raw read-only pointers.  Everything here models the
  Rust language or its standard library, so no definition of this theory maps to a
  line of the crate.

  Conventions.  \<open>u64\<close> and its narrower relatives are words, so \<open>+\<close> is
  \<open>wrapping_add\<close>; \<open>i64\<close> is the 64-bit word with the same bits, read by
  \<open>sint\<close>.  \<open>usize\<close> is 64 bits wide on both supported targets and is kept as a
  \<open>nat\<close> with its wrap-around written out, because it indexes lists everywhere.
  \<open>c_int\<close> and \<open>i32\<close> status codes are \<open>int\<close>.
\<close>

section \<open>Types\<close>

type_synonym u8 = "8 word"
type_synonym u16 = "16 word"
type_synonym u32 = "32 word"
type_synonym u64 = "64 word"
type_synonym i64 = "64 word"
type_synonym usize = nat
type_synonym i32 = int
type_synonym bytes = "u8 list"

named_theorems outcome_simps "equations that take an outcome apart"
named_theorems usize_simps "unfolding of the usize and u64 arithmetic"

section \<open>Results of Rust functions\<close>

text \<open>
  \<open>Panic\<close> is a Rust panic (an abort when it would cross an \<open>extern "C"\<close> frame);
  \<open>UB\<close> is undefined behaviour, which only the unsafe pointer reads of this
  development can produce.
\<close>

datatype ('a, 'e) outcome = Ok 'a | Err 'e | Panic | UB

primrec and_then :: "('a, 'e) outcome \<Rightarrow> ('a \<Rightarrow> ('b, 'e) outcome) \<Rightarrow> ('b, 'e) outcome" where
  "and_then (Ok x) f = f x"
| "and_then (Err e) f = Err e"
| "and_then Panic f = Panic"
| "and_then UB f = UB"

primrec map_err :: "('e \<Rightarrow> 'f) \<Rightarrow> ('a, 'e) outcome \<Rightarrow> ('a, 'f) outcome" where
  "map_err g (Ok x) = Ok x"
| "map_err g (Err e) = Err (g e)"
| "map_err g Panic = Panic"
| "map_err g UB = UB"

primrec ok_or :: "'a option \<Rightarrow> 'e \<Rightarrow> ('a, 'e) outcome" where
  "ok_or (Some x) e = Ok x"
| "ok_or None e = Err e"

text \<open>An outcome that is a Rust value: neither a panic nor undefined behaviour.\<close>

definition defined :: "('a, 'e) outcome \<Rightarrow> bool" where
  "defined r \<longleftrightarrow> (case r of Ok _ \<Rightarrow> True | Err _ \<Rightarrow> True | Panic \<Rightarrow> False | UB \<Rightarrow> False)"

text \<open>No undefined behaviour, and a panic only when \<open>b\<close> holds.\<close>

definition panic_only :: "bool \<Rightarrow> ('a, 'e) outcome \<Rightarrow> bool" where
  "panic_only b r \<longleftrightarrow> (case r of Ok _ \<Rightarrow> True | Err _ \<Rightarrow> True | Panic \<Rightarrow> b | UB \<Rightarrow> False)"

section \<open>Integers\<close>

abbreviation usize_limit :: nat where
  "usize_limit \<equiv> 18446744073709551616"

text \<open>
  \<open>oc\<close> is the \<open>overflow-checks\<close> setting of the build profile: with it (debug and
  test builds) an overflowing \<open>+\<close>, \<open>-\<close> or \<open>*\<close> panics, without it (release builds)
  the operation wraps.
\<close>

definition usize_add :: "bool \<Rightarrow> usize \<Rightarrow> usize \<Rightarrow> (usize, 'e) outcome" where
  "usize_add oc a b =
     (if a + b < usize_limit then Ok (a + b)
      else if oc then Panic else Ok ((a + b) mod usize_limit))"

definition usize_sub :: "bool \<Rightarrow> usize \<Rightarrow> usize \<Rightarrow> (usize, 'e) outcome" where
  "usize_sub oc a b =
     (if b \<le> a then Ok (a - b)
      else if oc then Panic else Ok ((usize_limit + a - b) mod usize_limit))"

definition usize_mul :: "bool \<Rightarrow> usize \<Rightarrow> usize \<Rightarrow> (usize, 'e) outcome" where
  "usize_mul oc a b =
     (if a * b < usize_limit then Ok (a * b)
      else if oc then Panic else Ok ((a * b) mod usize_limit))"

definition checked_add_usize :: "usize \<Rightarrow> usize \<Rightarrow> usize option" where
  "checked_add_usize a b = (if a + b < usize_limit then Some (a + b) else None)"

definition checked_sub_usize :: "usize \<Rightarrow> usize \<Rightarrow> usize option" where
  "checked_sub_usize a b = (if b \<le> a then Some (a - b) else None)"

definition saturating_add_usize :: "usize \<Rightarrow> usize \<Rightarrow> usize" where
  "saturating_add_usize a b = min (a + b) (usize_limit - 1)"

definition checked_add_u64 :: "u64 \<Rightarrow> u64 \<Rightarrow> u64 option" where
  "checked_add_u64 a b = (if unat a + unat b < usize_limit then Some (a + b) else None)"

definition checked_sub_u64 :: "u64 \<Rightarrow> u64 \<Rightarrow> u64 option" where
  "checked_sub_u64 a b = (if b \<le> a then Some (a - b) else None)"

definition saturating_add_u64 :: "u64 \<Rightarrow> u64 \<Rightarrow> u64" where
  "saturating_add_u64 a b = (if unat a + unat b < usize_limit then a + b else - 1)"

definition saturating_mul_u64 :: "u64 \<Rightarrow> u64 \<Rightarrow> u64" where
  "saturating_mul_u64 a b = (if unat a * unat b < usize_limit then a * b else - 1)"

section \<open>Slices and little-endian words\<close>

text \<open>No Rust slice is longer than \<open>isize::MAX\<close> bytes.\<close>

definition slice_ok :: "bytes \<Rightarrow> bool" where
  "slice_ok bs \<longleftrightarrow> length bs < 9223372036854775808"

definition slice_get :: "bytes \<Rightarrow> usize \<Rightarrow> u8 option" where
  "slice_get bs i = (if i < length bs then Some (bs ! i) else None)"

text \<open>\<open>bs.get(a..b)\<close>: \<open>None\<close> out of range.\<close>

definition slice_range :: "bytes \<Rightarrow> usize \<Rightarrow> usize \<Rightarrow> bytes option" where
  "slice_range bs a b =
     (if a \<le> b \<and> b \<le> length bs then Some (take (b - a) (drop a bs)) else None)"

text \<open>\<open>&bs[a..]\<close> and \<open>&bs[a..b]\<close>: a panic out of range.\<close>

definition slice_from :: "bytes \<Rightarrow> usize \<Rightarrow> (bytes, 'e) outcome" where
  "slice_from bs a = (if a \<le> length bs then Ok (drop a bs) else Panic)"

definition slice_index :: "bytes \<Rightarrow> usize \<Rightarrow> usize \<Rightarrow> (bytes, 'e) outcome" where
  "slice_index bs a b = (case slice_range bs a b of None \<Rightarrow> Panic | Some s \<Rightarrow> Ok s)"

text \<open>\<open>iter().position(p)\<close>.\<close>

fun position :: "('a \<Rightarrow> bool) \<Rightarrow> 'a list \<Rightarrow> nat option" where
  "position p [] = None"
| "position p (x # xs) = (if p x then Some 0 else map_option Suc (position p xs))"

primrec le_nat :: "bytes \<Rightarrow> nat" where
  "le_nat [] = 0"
| "le_nat (b # bs) = unat b + 256 * le_nat bs"

primrec to_le :: "nat \<Rightarrow> nat \<Rightarrow> bytes" where
  "to_le 0 n = []"
| "to_le (Suc k) n = word_of_nat (n mod 256) # to_le k (n div 256)"

definition u16_from_le :: "bytes \<Rightarrow> u16" where
  "u16_from_le bs = word_of_nat (le_nat bs)"

definition u32_from_le :: "bytes \<Rightarrow> u32" where
  "u32_from_le bs = word_of_nat (le_nat bs)"

definition u64_from_le :: "bytes \<Rightarrow> u64" where
  "u64_from_le bs = word_of_nat (le_nat bs)"

section \<open>Raw pointers\<close>

text \<open>
  A \<open>*const u8\<close> is null or points at an offset of an allocation; the allocation's
  bytes are what the owner keeps alive.  A read past its end is undefined behaviour.
\<close>

datatype ptr = Null | Ptr bytes usize

primrec is_null :: "ptr \<Rightarrow> bool" where
  "is_null Null = True"
| "is_null (Ptr a off) = False"

primrec ptr_add :: "ptr \<Rightarrow> usize \<Rightarrow> ptr" where
  "ptr_add Null n = Null"
| "ptr_add (Ptr a off) n = Ptr a (off + n)"

primrec from_raw_parts :: "ptr \<Rightarrow> usize \<Rightarrow> (bytes, 'e) outcome" where
  "from_raw_parts Null n = UB"
| "from_raw_parts (Ptr a off) n =
     (if off + n \<le> length a then Ok (take n (drop off a)) else UB)"

section \<open>Paths\<close>

text \<open>\<open>Path::join\<close> with a relative path.\<close>

definition path_join :: "string \<Rightarrow> string \<Rightarrow> string" where
  "path_join p x = (if p = [] \<or> last p = CHR ''/'' then p @ x else p @ ''/'' @ x)"

section \<open>Lemmas on outcomes\<close>

lemma and_then_cong [fundef_cong]:
  assumes "m = m'" and "\<And>x. m' = Ok x \<Longrightarrow> f x = g x"
  shows "and_then m f = and_then m' g"
  using assms by (cases m') auto

lemma and_then_Ok_iff [simp]:
  "and_then m f = Ok y \<longleftrightarrow> (\<exists>x. m = Ok x \<and> f x = Ok y)"
  by (cases m) auto

lemma and_then_Err_iff [outcome_simps]:
  "and_then m f = Err e \<longleftrightarrow> m = Err e \<or> (\<exists>x. m = Ok x \<and> f x = Err e)"
  by (cases m) auto

lemma and_then_Panic_iff [outcome_simps]:
  "and_then m f = Panic \<longleftrightarrow> m = Panic \<or> (\<exists>x. m = Ok x \<and> f x = Panic)"
  by (cases m) auto

lemma and_then_UB_iff [outcome_simps]:
  "and_then m f = UB \<longleftrightarrow> m = UB \<or> (\<exists>x. m = Ok x \<and> f x = UB)"
  by (cases m) auto

lemma map_err_iffs [simp]:
  "map_err g m = Ok x \<longleftrightarrow> m = Ok x"
  "map_err g m = Err e' \<longleftrightarrow> (\<exists>e. m = Err e \<and> e' = g e)"
  "map_err g m = Panic \<longleftrightarrow> m = Panic"
  "map_err g m = UB \<longleftrightarrow> m = UB"
  by (cases m; auto)+

lemma ok_or_iffs [simp]:
  "ok_or m e = Ok x \<longleftrightarrow> m = Some x"
  "ok_or m e = Err e' \<longleftrightarrow> m = None \<and> e' = e"
  "ok_or m e \<noteq> Panic"
  "ok_or m e \<noteq> UB"
  by (cases m; auto)+

lemma defined_simps [simp]:
  "defined (Ok x)" "defined (Err e)" "\<not> defined Panic" "\<not> defined UB"
  by (simp_all add: defined_def)

lemma defined_iff: "defined r \<longleftrightarrow> r \<noteq> Panic \<and> r \<noteq> UB"
  by (cases r) auto

lemma defined_and_then:
  "defined m \<Longrightarrow> (\<And>x. m = Ok x \<Longrightarrow> defined (f x)) \<Longrightarrow> defined (and_then m f)"
  by (cases m) auto

lemma defined_ok_or [simp]: "defined (ok_or m e)"
  by (cases m) auto

lemma defined_map_err [simp]: "defined (map_err g m) \<longleftrightarrow> defined m"
  by (cases m) auto

lemma panic_only_simps [simp]:
  "panic_only b (Ok x)" "panic_only b (Err e)" "panic_only b Panic \<longleftrightarrow> b" "\<not> panic_only b UB"
  by (simp_all add: panic_only_def)

lemma panic_only_False [simp]: "panic_only False r \<longleftrightarrow> defined r"
  by (cases r) auto

lemma panic_only_ok_or [simp]: "panic_only b (ok_or m e)"
  by (cases m) simp_all

lemma panic_only_defined: "defined r \<Longrightarrow> panic_only b r"
  by (cases r) auto

lemma panic_only_and_then:
  "panic_only b m \<Longrightarrow> (\<And>x. m = Ok x \<Longrightarrow> panic_only b (f x)) \<Longrightarrow> panic_only b (and_then m f)"
  by (cases m) auto

lemma panic_only_usize [simp]:
  "panic_only oc (usize_add oc x y)" "panic_only oc (usize_sub oc x y)"
  "panic_only oc (usize_mul oc x y)"
  by (simp_all add: usize_add_def usize_sub_def usize_mul_def)

section \<open>Lemmas on integers\<close>

lemma unat_u64_less [simp]: "unat (x :: u64) < usize_limit"
  using unsigned_less [of x] by simp

lemma unat_max_u64 [simp]: "unat (- 1 :: u64) = 18446744073709551615"
  by (simp add: unsigned_minus_1_eq_mask mask_eq_exp_minus_1)

lemma unat_of_nat_u64 [simp]: "n < usize_limit \<Longrightarrow> unat (word_of_nat n :: u64) = n"
  by (simp add: unat_of_nat)

lemma usize_add_small [simp]: "a + b < usize_limit \<Longrightarrow> usize_add oc a b = Ok (a + b)"
  by (simp add: usize_add_def)

lemma usize_sub_small [simp]: "b \<le> a \<Longrightarrow> usize_sub oc a b = Ok (a - b)"
  by (simp add: usize_sub_def)

lemma usize_mul_small [simp]: "a * b < usize_limit \<Longrightarrow> usize_mul oc a b = Ok (a * b)"
  by (simp add: usize_mul_def)

lemma usize_ops_not_UB [simp]:
  "usize_add oc a b \<noteq> UB" "usize_sub oc a b \<noteq> UB" "usize_mul oc a b \<noteq> UB"
  by (simp_all add: usize_add_def usize_sub_def usize_mul_def)

lemma usize_ops_not_Err [simp]:
  "usize_add oc a b \<noteq> Err e" "usize_sub oc a b \<noteq> Err e" "usize_mul oc a b \<noteq> Err e"
  by (simp_all add: usize_add_def usize_sub_def usize_mul_def)

lemma usize_sub_Panic_iff: "usize_sub oc a b = Panic \<longleftrightarrow> oc \<and> a < b"
  by (auto simp: usize_sub_def)

lemma checked_add_u64_Some:
  "checked_add_u64 a b = Some c \<longleftrightarrow> unat a + unat b < usize_limit \<and> c = a + b"
  by (auto simp: checked_add_u64_def)

lemma unat_add_no_overflow:
  "unat (a :: u64) + unat b < usize_limit \<Longrightarrow> unat (a + b) = unat a + unat b"
  by (simp add: unat_word_ariths)

lemma checked_add_u64_unat:
  "checked_add_u64 a b = Some c \<Longrightarrow> unat c = unat a + unat b"
  by (auto simp: checked_add_u64_Some unat_add_no_overflow)

lemma checked_add_u64_1: "checked_add_u64 x 1 = (if x = - 1 then None else Some (x + 1))"
  using unat_u64_less [of x] word_unat_eq_iff [of x "- 1"]
  by (auto simp: checked_add_u64_def simp del: unat_u64_less)

section \<open>Lemmas on slices\<close>

lemma slice_range_Some_iff:
  "slice_range bs a b = Some s \<longleftrightarrow> a \<le> b \<and> b \<le> length bs \<and> s = take (b - a) (drop a bs)"
  by (auto simp: slice_range_def)

lemma slice_index_Ok_iff:
  "slice_index bs a b = Ok s \<longleftrightarrow> slice_range bs a b = Some s"
  by (simp add: slice_index_def split: option.split)

lemma position_Some:
  "position p xs = Some i \<Longrightarrow> i < length xs \<and> p (xs ! i) \<and> (\<forall>j < i. \<not> p (xs ! j))"
proof (induction xs arbitrary: i)
  case Nil
  then show ?case by simp
next
  case (Cons x xs)
  show ?case
  proof (cases "p x")
    case True
    with Cons.prems show ?thesis by simp
  next
    case False
    with Cons.prems obtain k where k: "position p xs = Some k" and "i = Suc k" by auto
    with Cons.IH [OF k] False show ?thesis by (auto simp: less_Suc_eq_0_disj)
  qed
qed

lemma position_None: "position p xs = None \<longleftrightarrow> (\<forall>x \<in> set xs. \<not> p x)"
  by (induction xs) auto

lemma le_nat_bound: "le_nat bs < 256 ^ length bs"
proof (induction bs)
  case Nil
  then show ?case by simp
next
  case (Cons b bs)
  have "unat b < 256" using unsigned_less [of b] by simp
  with Cons show ?case by simp
qed

lemma length_to_le [simp]: "length (to_le k n) = k"
  by (induction k arbitrary: n) auto

lemma le_nat_to_le: "le_nat (to_le k n) = n mod 256 ^ k"
proof (induction k arbitrary: n)
  case 0
  then show ?case by simp
next
  case (Suc k)
  have "unat (word_of_nat (n mod 256) :: u8) = n mod 256"
    by (simp add: unat_of_nat)
  then show ?case
    by (simp add: Suc mod_mult2_eq)
qed

end
