(* ===== verification/Frame_Address.thy ===== *)
theory Frame_Address
  imports Rust_Prelude
begin

text \<open>
  \<open>frame_address.rs\<close>: the code address of a frame, which is an instruction pointer for
  the first frame and a return address for the frames recovered by unwinding.
\<close>

text \<open>\<open>ReturnAddress\<close> holds a \<open>NonZeroU64\<close>; \<open>frame_ok\<close> is that type's invariant.\<close>

datatype frame_address = InstructionPointer u64 | ReturnAddress u64

definition frame_ok :: "frame_address \<Rightarrow> bool" where
  "frame_ok f \<longleftrightarrow> (case f of InstructionPointer _ \<Rightarrow> True | ReturnAddress ra \<Rightarrow> ra \<noteq> 0)"

definition from_instruction_pointer :: "u64 \<Rightarrow> frame_address" where
  "from_instruction_pointer ip = InstructionPointer ip"

definition from_return_address :: "u64 \<Rightarrow> frame_address option" where
  "from_return_address ra = (if ra = 0 then None else Some (ReturnAddress ra))"

definition address_for_lookup :: "frame_address \<Rightarrow> u64" where
  "address_for_lookup f =
     (case f of InstructionPointer ip \<Rightarrow> ip | ReturnAddress ra \<Rightarrow> ra - 1)"

definition address :: "frame_address \<Rightarrow> u64" where
  "address f = (case f of InstructionPointer a \<Rightarrow> a | ReturnAddress a \<Rightarrow> a)"

definition is_return_address :: "frame_address \<Rightarrow> bool" where
  "is_return_address f = (case f of InstructionPointer _ \<Rightarrow> False | ReturnAddress _ \<Rightarrow> True)"

definition raw_address :: "frame_address \<Rightarrow> u64" where
  "raw_address f = address f"

lemma from_return_address_ok: "from_return_address ra = Some f \<Longrightarrow> frame_ok f \<and> address f = ra"
  by (auto simp: from_return_address_def frame_ok_def address_def split: if_splits)

lemma unat_pred: "(x :: u64) \<noteq> 0 \<Longrightarrow> unat (x - 1) = unat x - 1"
  by (simp add: unat_minus_one)

text \<open>The lookup address of a frame never underflows: for an instruction pointer it is
  the address itself, and for a return address it is exactly one below, inside the call
  instruction that precedes it.\<close>

theorem address_for_lookup_exact:
  assumes "frame_ok f"
  shows "unat (address_for_lookup f) =
    unat (address f) - (if is_return_address f then 1 else 0) \<and>
    (is_return_address f \<longrightarrow> address_for_lookup f < address f)"
  using assms
  by (cases f)
    (simp_all add: frame_ok_def address_for_lookup_def address_def is_return_address_def unat_pred
      word_less_nat_alt unat_gt_0)

theorem address_for_lookup_exact_witness:
  "address_for_lookup (ReturnAddress 0x401005) = 0x401004 \<and>
    unat (address_for_lookup (ReturnAddress 0x401005)) = 0x401005 - 1"
  using address_for_lookup_exact [of "ReturnAddress 0x401005"]
  by (simp add: frame_ok_def address_for_lookup_def)

end
