(* ===== verification/Ffi.thy ===== *)
theory Ffi
  imports Rust_Prelude
begin

text \<open>
  \<open>ffi/consts.rs\<close> and \<open>ffi/types.rs\<close>: the libunwind status codes and register
  numbers, the structs the crate shares with libunwind and their layout, next to the layout of
  the C structs of the vendored headers they stand for.  The C functions the
  crate links (\<open>unw_init_remote\<close>, \<open>unw_step\<close>, \<open>unw_get_reg\<close>) are third-party code;
  they are parameters of the theory \<open>Address_Space\<close>.
\<close>

section \<open>Status codes and formats\<close>

definition UNW_ESUCCESS :: i32 where "UNW_ESUCCESS = 0"
definition UNW_EUNSPEC :: i32 where "UNW_EUNSPEC = 1"
definition UNW_ENOMEM :: i32 where "UNW_ENOMEM = 2"
definition UNW_EBADREG :: i32 where "UNW_EBADREG = 3"
definition UNW_EREADONLYREG :: i32 where "UNW_EREADONLYREG = 4"
definition UNW_ESTOPUNWIND :: i32 where "UNW_ESTOPUNWIND = 5"
definition UNW_EINVALIDIP :: i32 where "UNW_EINVALIDIP = 6"
definition UNW_EBADFRAME :: i32 where "UNW_EBADFRAME = 7"
definition UNW_EINVAL :: i32 where "UNW_EINVAL = 8"
definition UNW_EBADVERSION :: i32 where "UNW_EBADVERSION = 9"
definition UNW_ENOINFO :: i32 where "UNW_ENOINFO = 10"

definition UNW_INFO_FORMAT_DYNAMIC :: i32 where "UNW_INFO_FORMAT_DYNAMIC = 0"
definition UNW_INFO_FORMAT_TABLE :: i32 where "UNW_INFO_FORMAT_TABLE = 1"
definition UNW_INFO_FORMAT_REMOTE_TABLE :: i32 where "UNW_INFO_FORMAT_REMOTE_TABLE = 2"
definition UNW_INFO_FORMAT_ARM_EXIDX :: i32 where "UNW_INFO_FORMAT_ARM_EXIDX = 3"
definition UNW_INFO_FORMAT_IP_OFFSET :: i32 where "UNW_INFO_FORMAT_IP_OFFSET = 4"

definition UNW_LITTLE_ENDIAN :: i32 where "UNW_LITTLE_ENDIAN = 1234"

lemmas unw_code_defs =
  UNW_ESUCCESS_def UNW_EUNSPEC_def UNW_ENOMEM_def UNW_EBADREG_def UNW_EREADONLYREG_def
  UNW_ESTOPUNWIND_def UNW_EINVALIDIP_def UNW_EBADFRAME_def UNW_EINVAL_def
  UNW_EBADVERSION_def UNW_ENOINFO_def

section \<open>Register numbers\<close>

definition UNW_X86_64_RAX :: i32 where "UNW_X86_64_RAX = 0"
definition UNW_X86_64_RDX :: i32 where "UNW_X86_64_RDX = 1"
definition UNW_X86_64_RCX :: i32 where "UNW_X86_64_RCX = 2"
definition UNW_X86_64_RBX :: i32 where "UNW_X86_64_RBX = 3"
definition UNW_X86_64_RSI :: i32 where "UNW_X86_64_RSI = 4"
definition UNW_X86_64_RDI :: i32 where "UNW_X86_64_RDI = 5"
definition UNW_X86_64_RBP :: i32 where "UNW_X86_64_RBP = 6"
definition UNW_X86_64_RSP :: i32 where "UNW_X86_64_RSP = 7"
definition UNW_X86_64_R8 :: i32 where "UNW_X86_64_R8 = 8"
definition UNW_X86_64_R9 :: i32 where "UNW_X86_64_R9 = 9"
definition UNW_X86_64_R10 :: i32 where "UNW_X86_64_R10 = 10"
definition UNW_X86_64_R11 :: i32 where "UNW_X86_64_R11 = 11"
definition UNW_X86_64_R12 :: i32 where "UNW_X86_64_R12 = 12"
definition UNW_X86_64_R13 :: i32 where "UNW_X86_64_R13 = 13"
definition UNW_X86_64_R14 :: i32 where "UNW_X86_64_R14 = 14"
definition UNW_X86_64_R15 :: i32 where "UNW_X86_64_R15 = 15"
definition UNW_X86_64_RIP :: i32 where "UNW_X86_64_RIP = 16"
definition UNW_AARCH64_X29 :: i32 where "UNW_AARCH64_X29 = 29"
definition UNW_AARCH64_X30 :: i32 where "UNW_AARCH64_X30 = 30"
definition UNW_AARCH64_SP :: i32 where "UNW_AARCH64_SP = 31"
definition UNW_AARCH64_PC :: i32 where "UNW_AARCH64_PC = 32"

text \<open>\<open>UNW_REG_IP\<close> is what \<open>reg_ip()\<close> returns on each architecture.\<close>

definition x86_64_reg_ip :: i32 where "x86_64_reg_ip = UNW_X86_64_RIP"
definition x86_64_UNW_REG_SP :: i32 where "x86_64_UNW_REG_SP = UNW_X86_64_RSP"
definition aarch64_reg_ip :: i32 where "aarch64_reg_ip = UNW_AARCH64_X30"
definition aarch64_UNW_REG_SP :: i32 where "aarch64_UNW_REG_SP = UNW_AARCH64_SP"

lemmas reg_number_defs =
  UNW_X86_64_RBP_def UNW_X86_64_RSP_def UNW_X86_64_RIP_def UNW_AARCH64_X29_def
  UNW_AARCH64_X30_def UNW_AARCH64_SP_def UNW_AARCH64_PC_def x86_64_reg_ip_def
  x86_64_UNW_REG_SP_def aarch64_reg_ip_def aarch64_UNW_REG_SP_def

section \<open>Structs handed to libunwind\<close>

record dwarf_cie_info =
  ci_cie_instr_start :: u64
  ci_cie_instr_end :: u64
  ci_fde_instr_start :: u64
  ci_fde_instr_end :: u64
  ci_code_align :: u64
  ci_data_align :: u64
  ci_ret_addr_column :: u64
  ci_handler :: u64
  ci_abi :: u16
  ci_tag :: u16
  ci_fde_encoding :: u8
  ci_lsda_encoding :: u8
  ci_flags :: u32

definition FLAG_SIZED_AUGMENTATION :: u32 where "FLAG_SIZED_AUGMENTATION = push_bit 0 1"
definition FLAG_SIGNAL_FRAME :: u32 where "FLAG_SIGNAL_FRAME = push_bit 2 1"

section \<open>The layout of a struct\<close>

text \<open>
  Structs are laid out in bits.  A plain field has a size and an alignment in bytes and starts
  at the next multiple of its alignment; this is also what \<open>repr(C)\<close> gives a Rust struct.  A
  bit-field of \<open>w\<close> bits of a type of \<open>n\<close> bytes starts at the next free bit when it does not
  cross a boundary of that type there, and at that boundary otherwise.
\<close>

datatype c_field = Plain nat nat | Bits nat nat

type_synonym c_struct = "(string \<times> c_field) list"

definition align_up :: "nat \<Rightarrow> nat \<Rightarrow> nat" where
  "align_up a n = (n + a - 1) div a * a"

fun field_start :: "nat \<Rightarrow> c_field \<Rightarrow> nat" where
  "field_start pos (Plain sz al) = align_up (8 * al) pos"
| "field_start pos (Bits w n) =
     (if pos div (8 * n) = (pos + w - 1) div (8 * n) then pos else align_up (8 * n) pos)"

fun field_width :: "c_field \<Rightarrow> nat" where
  "field_width (Plain sz al) = 8 * sz"
| "field_width (Bits w n) = w"

fun field_align :: "c_field \<Rightarrow> nat" where
  "field_align (Plain sz al) = 8 * al"
| "field_align (Bits w n) = 8 * n"

text \<open>Where the fields end that start at \<open>pos\<close>, and the size of a struct in bytes.\<close>

fun struct_end :: "nat \<Rightarrow> c_struct \<Rightarrow> nat" where
  "struct_end pos [] = pos"
| "struct_end pos ((n, f) # fs) = struct_end (field_start pos f + field_width f) fs"

definition struct_size :: "c_struct \<Rightarrow> nat" where
  "struct_size fs = align_up (fold max (map (field_align \<circ> snd) fs) 8) (struct_end 0 fs) div 8"

text \<open>
  Memory as bits.  A field is written and read at its place; what the reader of a struct gets
  for a name depends on its own description of the struct only.
\<close>

type_synonym bits = "nat \<Rightarrow> bool"

definition write_bits :: "nat \<Rightarrow> nat \<Rightarrow> nat \<Rightarrow> bits \<Rightarrow> bits" where
  "write_bits p w v m = (\<lambda>i. if p \<le> i \<and> i < p + w then bit v (i - p) else m i)"

definition read_bits :: "nat \<Rightarrow> nat \<Rightarrow> bits \<Rightarrow> nat" where
  "read_bits p w m = horner_sum of_bool 2 (map (\<lambda>i. m (p + i)) [0..<w])"

fun store_struct :: "nat \<Rightarrow> c_struct \<Rightarrow> (string \<Rightarrow> nat) \<Rightarrow> bits \<Rightarrow> bits" where
  "store_struct pos [] val m = m"
| "store_struct pos ((n, f) # fs) val m =
     (let p = field_start pos f in
      store_struct (p + field_width f) fs val (write_bits p (field_width f) (val n) m))"

fun load_field :: "nat \<Rightarrow> c_struct \<Rightarrow> string \<Rightarrow> bits \<Rightarrow> nat option" where
  "load_field pos [] name m = None"
| "load_field pos ((n, f) # fs) name m =
     (let p = field_start pos f in
      if n = name then Some (read_bits p (field_width f) m)
      else load_field (p + field_width f) fs name m)"

section \<open>The shared structs\<close>

text \<open>
  The fields of \<open>DwarfCieInfo\<close> in their order, what the crate stores in them, and libunwind's
  \<open>dwarf_cie_info_t\<close> (\<open>dwarf.h\<close>).
\<close>

definition dwarf_cie_info_fields :: c_struct where
  "dwarf_cie_info_fields =
     [(''cie_instr_start'', Plain 8 8), (''cie_instr_end'', Plain 8 8),
      (''fde_instr_start'', Plain 8 8), (''fde_instr_end'', Plain 8 8),
      (''code_align'', Plain 8 8), (''data_align'', Plain 8 8), (''ret_addr_column'', Plain 8 8),
      (''handler'', Plain 8 8), (''abi'', Plain 2 2), (''tag'', Plain 2 2),
      (''fde_encoding'', Plain 1 1), (''lsda_encoding'', Plain 1 1), (''flags'', Plain 4 4)]"

definition dwarf_cie_info_values :: "dwarf_cie_info \<Rightarrow> (string \<times> nat) list" where
  "dwarf_cie_info_values ci =
     [(''cie_instr_start'', unat (ci_cie_instr_start ci)), (''cie_instr_end'', unat (ci_cie_instr_end ci)),
      (''fde_instr_start'', unat (ci_fde_instr_start ci)), (''fde_instr_end'', unat (ci_fde_instr_end ci)),
      (''code_align'', unat (ci_code_align ci)), (''data_align'', unat (ci_data_align ci)),
      (''ret_addr_column'', unat (ci_ret_addr_column ci)), (''handler'', unat (ci_handler ci)),
      (''abi'', unat (ci_abi ci)), (''tag'', unat (ci_tag ci)),
      (''fde_encoding'', unat (ci_fde_encoding ci)), (''lsda_encoding'', unat (ci_lsda_encoding ci)),
      (''flags'', unat (ci_flags ci))]"

definition c_dwarf_cie_info_fields :: c_struct where
  "c_dwarf_cie_info_fields =
     [(''cie_instr_start'', Plain 8 8), (''cie_instr_end'', Plain 8 8),
      (''fde_instr_start'', Plain 8 8), (''fde_instr_end'', Plain 8 8),
      (''code_align'', Plain 8 8), (''data_align'', Plain 8 8), (''ret_addr_column'', Plain 8 8),
      (''handler'', Plain 8 8), (''abi'', Plain 2 2), (''tag'', Plain 2 2),
      (''fde_encoding'', Plain 1 1), (''lsda_encoding'', Plain 1 1),
      (''sized_augmentation'', Bits 1 4), (''have_abi_marker'', Bits 1 4), (''signal_frame'', Bits 1 4)]"

definition dwarf_cie_info_size :: i32 where
  "dwarf_cie_info_size = int (struct_size dwarf_cie_info_fields)"

text \<open>
  The fields of \<open>UnwProcInfo\<close> that the crate fills (\<open>extra\<close>, 16 bytes, follows and is not
  touched), and \<open>unw_proc_info_t\<close> (\<open>libunwind-common.h\<close>) on x86_64 and aarch64, whose
  target-dependent part is a struct with one byte.
\<close>

definition unw_proc_info_fields :: c_struct where
  "unw_proc_info_fields =
     [(''start_ip'', Plain 8 8), (''end_ip'', Plain 8 8), (''lsda'', Plain 8 8), (''handler'', Plain 8 8),
      (''gp'', Plain 8 8), (''flags'', Plain 8 8), (''format'', Plain 4 4),
      (''unwind_info_size'', Plain 4 4), (''unwind_info'', Plain 8 8)]"

definition c_unw_proc_info_fields :: c_struct where
  "c_unw_proc_info_fields =
     [(''start_ip'', Plain 8 8), (''end_ip'', Plain 8 8), (''lsda'', Plain 8 8), (''handler'', Plain 8 8),
      (''gp'', Plain 8 8), (''flags'', Plain 8 8), (''format'', Plain 4 4),
      (''unwind_info_size'', Plain 4 4), (''unwind_info'', Plain 8 8), (''extra'', Plain 1 1)]"

text \<open>\<open>UnwCursor\<close> is 512 words; libunwind's cursors (\<open>UNW_TDEP_CURSOR_LEN\<close>) must fit.\<close>

definition unw_cursor_zeroed :: "u64 list" where
  "unw_cursor_zeroed = replicate 512 0"

definition c_cursor_len :: "nat list" where
  "c_cursor_len = [127, 250]"

text \<open>
  \<open>UnwAccessors\<close>: a table of optional function pointers.  A pointer to a callback of the crate
  is the name of the callback; \<open>unw_accessors_t\<close> lists its slots in this order.
\<close>

record unw_accessors =
  ua_find_proc_info :: "string option"
  ua_put_unwind_info :: "string option"
  ua_get_dyn_info_list_addr :: "string option"
  ua_access_mem :: "string option"
  ua_access_reg :: "string option"
  ua_access_fpreg :: "string option"
  ua_resume :: "string option"
  ua_get_proc_name :: "string option"
  ua_get_elf_filename :: "string option"
  ua_get_proc_ip_range :: "string option"
  ua_ptrauth_insn_mask :: "string option"

definition unw_accessors_slots :: "unw_accessors \<Rightarrow> string option list" where
  "unw_accessors_slots a =
     [ua_find_proc_info a, ua_put_unwind_info a, ua_get_dyn_info_list_addr a, ua_access_mem a,
      ua_access_reg a, ua_access_fpreg a, ua_resume a, ua_get_proc_name a, ua_get_elf_filename a,
      ua_get_proc_ip_range a, ua_ptrauth_insn_mask a]"

definition c_unw_accessors :: "string list" where
  "c_unw_accessors =
     [''find_proc_info'', ''put_unwind_info'', ''get_dyn_info_list_addr'', ''access_mem'',
      ''access_reg'', ''access_fpreg'', ''resume'', ''get_proc_name'', ''get_elf_filename'',
      ''get_proc_ip_range'', ''ptrauth_insn_mask'']"

text \<open>The static \<open>ACCESSORS\<close> of \<open>address_space.rs\<close>.\<close>

definition ACCESSORS :: unw_accessors where
  "ACCESSORS = \<lparr>ua_find_proc_info = Some ''find_proc_info'',
     ua_put_unwind_info = Some ''put_unwind_info'',
     ua_get_dyn_info_list_addr = Some ''get_dyn_info_list_addr'',
     ua_access_mem = Some ''access_mem'', ua_access_reg = Some ''access_reg'',
     ua_access_fpreg = Some ''access_fpreg'', ua_resume = None, ua_get_proc_name = None,
     ua_get_elf_filename = None, ua_get_proc_ip_range = None, ua_ptrauth_insn_mask = None\<rparr>"

text \<open>
  \<open>unwind_info\<close> is a pointer to the cached \<open>DwarfCieInfo\<close>, kept alive by the
  function cache; the model stores what it points at.  The \<open>extra\<close> padding is not
  touched by the crate and is left out.
\<close>

record unw_proc_info =
  pi_start_ip :: u64
  pi_end_ip :: u64
  pi_lsda :: u64
  pi_handler :: u64
  pi_gp :: u64
  pi_flags :: u64
  pi_format :: i32
  pi_unwind_info_size :: i32
  pi_unwind_info :: "dwarf_cie_info option"

text \<open>The values in memory; \<open>p\<close> is the address of the \<open>DwarfCieInfo\<close> behind \<open>unwind_info\<close>.\<close>

definition unw_proc_info_values :: "u64 \<Rightarrow> unw_proc_info \<Rightarrow> (string \<times> nat) list" where
  "unw_proc_info_values p pinfo =
     [(''start_ip'', unat (pi_start_ip pinfo)), (''end_ip'', unat (pi_end_ip pinfo)),
      (''lsda'', unat (pi_lsda pinfo)), (''handler'', unat (pi_handler pinfo)), (''gp'', unat (pi_gp pinfo)),
      (''flags'', unat (pi_flags pinfo)), (''format'', unat (word_of_int (pi_format pinfo) :: u32)),
      (''unwind_info_size'', unat (word_of_int (pi_unwind_info_size pinfo) :: u32)),
      (''unwind_info'', unat p)]"

definition value_of :: "(string \<times> nat) list \<Rightarrow> string \<Rightarrow> nat" where
  "value_of vs name = (case map_of vs name of None \<Rightarrow> 0 | Some v \<Rightarrow> v)"

text \<open>
  The memory after the crate stored a struct at bit 0 of memory \<open>m\<close>: the fields of
  \<open>UnwProcInfo\<close> it assigns, and a whole \<open>DwarfCieInfo\<close>.
\<close>

definition unw_proc_info_in_memory :: "u64 \<Rightarrow> unw_proc_info \<Rightarrow> bits \<Rightarrow> bits" where
  "unw_proc_info_in_memory p pinfo m =
     store_struct 0 unw_proc_info_fields (value_of (unw_proc_info_values p pinfo)) m"

definition dwarf_cie_info_in_memory :: "dwarf_cie_info \<Rightarrow> bits \<Rightarrow> bits" where
  "dwarf_cie_info_in_memory ci m =
     store_struct 0 dwarf_cie_info_fields (value_of (dwarf_cie_info_values ci)) m"

section \<open>Writing and reading structs\<close>

lemma read_bits_cong: "(\<And>i. p \<le> i \<Longrightarrow> i < p + w \<Longrightarrow> m i = m' i) \<Longrightarrow> read_bits p w m = read_bits p w m'"
  unfolding read_bits_def by (rule arg_cong [where f = "horner_sum of_bool 2"], rule map_cong) simp_all

lemma read_write_bits: "v < 2 ^ w \<Longrightarrow> read_bits p w (write_bits p w v m) = v"
proof -
  assume v: "v < 2 ^ w"
  have "map (\<lambda>i. write_bits p w v m (p + i)) [0..<w] = map (bit v) [0..<w]"
    by (rule map_cong) (simp_all add: write_bits_def)
  then have "read_bits p w (write_bits p w v m) = take_bit w v"
    unfolding read_bits_def by (simp only: horner_sum_bit_eq_take_bit)
  then show ?thesis using v by (simp add: take_bit_nat_eq_self)
qed

definition field_ok :: "string \<times> c_field \<Rightarrow> bool" where
  "field_ok nf \<longleftrightarrow> 0 < field_align (snd nf)"

lemma align_up_ge: "0 < a \<Longrightarrow> n \<le> align_up a n"
proof -
  assume "0 < a"
  moreover have "(n + a - 1) div a * a + (n + a - 1) mod a = n + a - 1" by (rule div_mult_mod_eq)
  moreover have "(n + a - 1) mod a < a" using \<open>0 < a\<close> by simp
  ultimately show ?thesis unfolding align_up_def by linarith
qed

lemma field_start_ge: "field_ok (n, f) \<Longrightarrow> pos \<le> field_start pos f"
  by (cases f) (auto simp: field_ok_def align_up_ge)

lemma struct_end_ge: "list_all field_ok fs \<Longrightarrow> pos \<le> struct_end pos fs"
proof (induction pos fs rule: struct_end.induct)
  case (2 pos n f fs)
  then show ?case using field_start_ge [of n f pos] by simp
qed simp

text \<open>Storing a struct changes only the bits between its start and its end.\<close>

lemma store_struct_outside:
  "list_all field_ok fs \<Longrightarrow> i < pos \<or> struct_end pos fs \<le> i \<Longrightarrow> store_struct pos fs val m i = m i"
proof (induction pos fs val m rule: store_struct.induct)
  case (2 pos n f fs val m)
  let ?p = "field_start pos f"
  have p: "pos \<le> ?p" and e: "?p + field_width f \<le> struct_end (?p + field_width f) fs"
    using 2 field_start_ge [of n f pos] struct_end_ge [of fs "?p + field_width f"] by simp_all
  have "store_struct (?p + field_width f) fs val (write_bits ?p (field_width f) (val n) m) i =
      write_bits ?p (field_width f) (val n) m i"
    using 2 p by (intro "2.IH") auto
  with "2.prems" p e show ?case by (auto simp: write_bits_def Let_def)
qed simp

text \<open>
  The law of the interface: a reader whose description starts with the writer's fields reads
  every one of them back, whatever follows on either side.
\<close>

lemma load_store_struct:
  assumes "list_all field_ok (cs @ fs)" and "distinct (map fst cs)"
    and "list_all (\<lambda>(n, f). val n < 2 ^ field_width f) cs" and "name \<in> fst ` set cs"
  shows "load_field pos (cs @ rest) name (store_struct pos (cs @ fs) val m) = Some (val name)"
  using assms
proof (induction cs arbitrary: pos m)
  case (Cons nf cs)
  obtain n f where nf: "nf = (n, f)" by (cases nf)
  let ?p = "field_start pos f" and ?q = "field_start pos f + field_width f"
  let ?m = "write_bits ?p (field_width f) (val n) m"
  show ?case
  proof (cases "n = name")
    case True
    have "read_bits ?p (field_width f) (store_struct ?q (cs @ fs) val ?m) = read_bits ?p (field_width f) ?m"
      using Cons.prems(1) by (intro read_bits_cong store_struct_outside) (simp_all add: nf)
    also have "\<dots> = val n" using Cons.prems(3) by (intro read_write_bits) (simp add: nf)
    finally show ?thesis using True by (simp add: nf Let_def)
  next
    case False
    with Cons.prems Cons.IH [of ?q ?m] show ?thesis by (simp add: nf Let_def)
  qed
qed simp

lemma load_field_append:
  "name \<notin> fst ` set cs \<Longrightarrow> load_field pos (cs @ rest) name m = load_field (struct_end pos cs) rest name m"
  by (induction pos cs rule: struct_end.induct) (auto simp: Let_def)

lemma store_struct_append:
  "store_struct pos (cs @ fs) val m = store_struct (struct_end pos cs) fs val (store_struct pos cs val m)"
  by (induction pos cs val m rule: store_struct.induct) (auto simp: Let_def)

text \<open>The fields both sides agree on: the fields of \<open>DwarfCieInfo\<close> before \<open>flags\<close>.\<close>

definition plain_cie_fields :: c_struct where
  "plain_cie_fields = butlast dwarf_cie_info_fields"

lemmas ffi_field_defs =
  plain_cie_fields_def dwarf_cie_info_fields_def c_dwarf_cie_info_fields_def
  unw_proc_info_fields_def c_unw_proc_info_fields_def

lemma c_unw_proc_info_fields_split:
  "c_unw_proc_info_fields = unw_proc_info_fields @ [(''extra'', Plain 1 1)]"
  by (simp add: ffi_field_defs)

lemma dwarf_cie_info_fields_split:
  "dwarf_cie_info_fields = plain_cie_fields @ [(''flags'', Plain 4 4)]"
  "c_dwarf_cie_info_fields = plain_cie_fields @
     [(''sized_augmentation'', Bits 1 4), (''have_abi_marker'', Bits 1 4), (''signal_frame'', Bits 1 4)]"
  by (simp_all add: ffi_field_defs)

lemma unat_word_less: "unat (w :: u64) < 18446744073709551616" "unat (x :: u32) < 4294967296"
    "unat (y :: u16) < 65536" "unat (z :: u8) < 256"
  using unsigned_less [of w, where 'a = nat] unsigned_less [of x, where 'a = nat]
    unsigned_less [of y, where 'a = nat] unsigned_less [of z, where 'a = nat] by simp_all

lemma unw_proc_info_values_fit:
  "list_all (\<lambda>(n, f). value_of (unw_proc_info_values p pinfo) n < 2 ^ field_width f) unw_proc_info_fields"
  by (simp add: unw_proc_info_fields_def unw_proc_info_values_def value_of_def unat_word_less)

lemma dwarf_cie_info_values_fit:
  "list_all (\<lambda>(n, f). value_of (dwarf_cie_info_values ci) n < 2 ^ field_width f) plain_cie_fields"
  by (simp add: ffi_field_defs dwarf_cie_info_values_def value_of_def unat_word_less)

lemma struct_ends:
  "struct_end 0 unw_proc_info_fields = 512" "struct_end 0 plain_cie_fields = 560"
  by (simp_all add: ffi_field_defs align_up_def)

lemma unw_proc_info_read_back:
  assumes "(n, v) \<in> set (unw_proc_info_values p pinfo)"
  shows "load_field 0 c_unw_proc_info_fields n
           (store_struct 0 unw_proc_info_fields (value_of (unw_proc_info_values p pinfo)) m) = Some v"
proof -
  have "distinct (map fst (unw_proc_info_values p pinfo))" by (simp add: unw_proc_info_values_def)
  then have v: "value_of (unw_proc_info_values p pinfo) n = v"
    using assms by (simp add: value_of_def)
  have "n \<in> fst ` set unw_proc_info_fields"
    using assms by (auto simp: unw_proc_info_values_def unw_proc_info_fields_def)
  then show ?thesis
    using load_store_struct [of unw_proc_info_fields "[]" "value_of (unw_proc_info_values p pinfo)" n 0
        "[(''extra'', Plain 1 1)]" m] unw_proc_info_values_fit [of p pinfo]
    by (simp add: v c_unw_proc_info_fields_split) (simp add: unw_proc_info_fields_def field_ok_def)
qed

lemma dwarf_cie_info_read_back:
  assumes "(n, v) \<in> set (butlast (dwarf_cie_info_values ci))"
  shows "load_field 0 c_dwarf_cie_info_fields n
           (store_struct 0 dwarf_cie_info_fields (value_of (dwarf_cie_info_values ci)) m) = Some v"
proof -
  have "distinct (map fst (dwarf_cie_info_values ci))" by (simp add: dwarf_cie_info_values_def)
  then have v: "value_of (dwarf_cie_info_values ci) n = v"
    using in_set_butlastD [OF assms] by (simp add: value_of_def)
  have "n \<in> fst ` set plain_cie_fields"
    using assms by (auto simp: dwarf_cie_info_values_def ffi_field_defs)
  moreover have "list_all field_ok (plain_cie_fields @ [(''flags'', Plain 4 4)])"
    and "distinct (map fst plain_cie_fields)"
    by (simp_all add: ffi_field_defs field_ok_def)
  ultimately show ?thesis
    unfolding dwarf_cie_info_fields_split v [symmetric]
    using dwarf_cie_info_values_fit by (intro load_store_struct)
qed

text \<open>The bits between \<open>lsda_encoding\<close> and \<open>flags\<close> are padding: storing a \<open>DwarfCieInfo\<close> leaves them.\<close>

lemma dwarf_cie_info_padding:
  assumes "560 \<le> i" and "i < 576"
  shows "store_struct 0 dwarf_cie_info_fields val m i = m i"
proof -
  have "list_all field_ok plain_cie_fields" by (simp add: ffi_field_defs field_ok_def)
  then have "store_struct 0 plain_cie_fields val m i = m i"
    using assms by (intro store_struct_outside) (simp_all add: struct_ends)
  then show ?thesis
    using assms by (simp add: dwarf_cie_info_fields_split store_struct_append struct_ends align_up_def
        write_bits_def)
qed

section \<open>Properties\<close>

text \<open>C37: The structs shared with libunwind.  Whatever \<open>UnwProcInfo\<close> the crate fills in, libunwind
  reads every field back under its own name through \<open>unw_proc_info_t\<close>, its \<open>extra\<close> part and
  everything after the struct are left as they were.  Of any \<open>DwarfCieInfo\<close>, libunwind reads
  every field before \<open>flags\<close> back through \<open>dwarf_cie_info_t\<close>, but not the three flags: C puts
  the bit-fields into the two bytes after \<open>lsda_encoding\<close>, which are padding in the Rust
  struct (\<open>flags\<close> starts at the next multiple of four), so libunwind sees whatever the memory
  held there, and the Rust struct is eight bytes longer than libunwind's.\<close>

theorem ffi_structs_agree:
  "(\<forall>(n, v) \<in> set (unw_proc_info_values p pinfo). load_field 0 c_unw_proc_info_fields n
      (unw_proc_info_in_memory p pinfo m) = Some v) \<and>
   (load_field 0 c_unw_proc_info_fields ''extra'' (unw_proc_info_in_memory p pinfo m) =
      load_field 0 c_unw_proc_info_fields ''extra'' m) \<and>
   (\<forall>i \<ge> 8 * struct_size c_unw_proc_info_fields. unw_proc_info_in_memory p pinfo m i = m i) \<and>
   (\<forall>(n, v) \<in> set (butlast (dwarf_cie_info_values ci)). load_field 0 c_dwarf_cie_info_fields n
      (dwarf_cie_info_in_memory ci m) = Some v) \<and>
   (load_field 0 c_dwarf_cie_info_fields ''sized_augmentation'' (dwarf_cie_info_in_memory ci m) = Some (of_bool (m 560))) \<and>
   (load_field 0 c_dwarf_cie_info_fields ''have_abi_marker'' (dwarf_cie_info_in_memory ci m) = Some (of_bool (m 561))) \<and>
   (load_field 0 c_dwarf_cie_info_fields ''signal_frame'' (dwarf_cie_info_in_memory ci m) = Some (of_bool (m 562))) \<and>
   (dwarf_cie_info_size = int (struct_size c_dwarf_cie_info_fields) + 8)"
proof (intro conjI)
  have ok: "list_all field_ok unw_proc_info_fields" by (simp add: unw_proc_info_fields_def field_ok_def)
  have m1: "unw_proc_info_in_memory p pinfo m i = m i" if "512 \<le> i" for i
    unfolding unw_proc_info_in_memory_def using ok that by (intro store_struct_outside) (simp_all add: struct_ends)
  show "\<forall>(n, v) \<in> set (unw_proc_info_values p pinfo). load_field 0 c_unw_proc_info_fields n
          (unw_proc_info_in_memory p pinfo m) = Some v"
    unfolding unw_proc_info_in_memory_def using unw_proc_info_read_back by blast
  have "read_bits 512 8 (unw_proc_info_in_memory p pinfo m) = read_bits 512 8 m" by (rule read_bits_cong) (rule m1)
  then show "load_field 0 c_unw_proc_info_fields ''extra'' (unw_proc_info_in_memory p pinfo m) =
          load_field 0 c_unw_proc_info_fields ''extra'' m"
    by (simp add: c_unw_proc_info_fields_def align_up_def)
  show "\<forall>i \<ge> 8 * struct_size c_unw_proc_info_fields. unw_proc_info_in_memory p pinfo m i = m i"
    using m1 by (simp add: struct_size_def c_unw_proc_info_fields_def align_up_def)
  show "\<forall>(n, v) \<in> set (butlast (dwarf_cie_info_values ci)). load_field 0 c_dwarf_cie_info_fields n
          (dwarf_cie_info_in_memory ci m) = Some v"
    unfolding dwarf_cie_info_in_memory_def using dwarf_cie_info_read_back by blast
  show "load_field 0 c_dwarf_cie_info_fields ''sized_augmentation'' (dwarf_cie_info_in_memory ci m) = Some (of_bool (m 560))"
    "load_field 0 c_dwarf_cie_info_fields ''have_abi_marker'' (dwarf_cie_info_in_memory ci m) = Some (of_bool (m 561))"
    "load_field 0 c_dwarf_cie_info_fields ''signal_frame'' (dwarf_cie_info_in_memory ci m) = Some (of_bool (m 562))"
    by (simp_all add: dwarf_cie_info_in_memory_def c_dwarf_cie_info_fields_def align_up_def read_bits_def dwarf_cie_info_padding)
  show "dwarf_cie_info_size = int (struct_size c_dwarf_cie_info_fields) + 8"
    by (simp add: dwarf_cie_info_size_def struct_size_def ffi_field_defs align_up_def)
qed

theorem ffi_structs_agree_witness:
  "load_field 0 c_unw_proc_info_fields ''handler''
     (unw_proc_info_in_memory 0x7000 \<lparr>pi_start_ip = 1, pi_end_ip = 2, pi_lsda = 3, pi_handler = 4, pi_gp = 5,
        pi_flags = 6, pi_format = 1, pi_unwind_info_size = 80, pi_unwind_info = None\<rparr> (\<lambda>i. False)) = Some 4"
  using ffi_structs_agree [THEN conjunct1, of "0x7000" "\<lparr>pi_start_ip = 1, pi_end_ip = 2, pi_lsda = 3, pi_handler = 4, pi_gp = 5,
        pi_flags = 6, pi_format = 1, pi_unwind_info_size = 80, pi_unwind_info = None\<rparr>" "\<lambda>i. False"]
  by (simp add: unw_proc_info_values_def)

text \<open>Every cursor of libunwind fits, and the accessor table lists its slots in the order of C.\<close>

lemma unw_cursor_fits: "list_all (\<lambda>n. n \<le> length unw_cursor_zeroed) c_cursor_len"
  by (simp add: unw_cursor_zeroed_def c_cursor_len_def)

lemma accessors_match:
  "list_all2 (\<lambda>slot name. slot = None \<or> slot = Some name) (unw_accessors_slots ACCESSORS) c_unw_accessors"
  by (simp add: unw_accessors_slots_def ACCESSORS_def c_unw_accessors_def)

end
