(* ===== verification/Unwind_Error.thy ===== *)
theory Unwind_Error
  imports Ffi
begin

text \<open>
  \<open>error.rs\<close>, and the error type of \<open>eh_frame_table.rs\<close>: the error values of the
  crate with the source's variants, the decoding of libunwind status codes, the
  \<open>Display\<close> texts and the \<open>source()\<close> chains.
\<close>

section \<open>Error values\<close>

datatype eh_frame_hdr_error =
    FixedHeaderTruncated usize
  | UnsupportedVersion u8
  | UnsupportedEhFramePtrEncoding u8
  | EhFramePtrTruncated usize usize usize
  | UnsupportedFdeCountEncoding u8
  | FdeCountTruncated usize usize usize
  | UnsupportedTableEncoding u8
  | TableTruncated usize u64 usize

datatype dwarf_parse_error_kind =
    Truncated usize usize
  | Leb128Overflow
  | EntryLengthOverflow
  | OmittedPointerEncoding
  | UnsupportedPointerEncoding u8
  | IndirectPointerRequiresDereference u8
  | UnsupportedPointerApplication u8
  | BadCieId u64
  | UnsupportedCieVersion u8
  | UnsupportedCieAddressSize u8 u8
  | UnterminatedAugmentationString
  | UnsupportedAugmentation u8
  | UnsupportedNonZAugmentation
  | FdeCiePointerIsZero

record dwarf_parse_error =
  dpe_offset :: usize
  dpe_kind :: dwarf_parse_error_kind

definition dwarf_error :: "usize \<Rightarrow> dwarf_parse_error_kind \<Rightarrow> dwarf_parse_error" where
  "dwarf_error off k = \<lparr>dpe_offset = off, dpe_kind = k\<rparr>"

datatype unwind_info_error =
    ModuleNotFound u64
  | MissingLocalUnwindSections string u64
  | FunctionCachePoisoned string
  | EhFrameHeaderLookupMiss string u64
  | InvalidEhFrameHdr string eh_frame_hdr_error
  | FdeOffsetBeforeEhFrame string u64 u64
  | FdeOffsetOutOfRange string usize usize
  | FdeLengthPrefixTruncated string usize usize
  | CiePointerTruncated string usize usize
  | CiePointerUnderflow string usize u64
  | CieParse string usize dwarf_parse_error
  | FdeParse string usize dwarf_parse_error

datatype libunwind_phase =
    InitRemote
  | Step
  | GetInstructionPointer
  | GetRegister i32

datatype libunwind_error_code =
    Unspecified
  | NoMemory
  | BadRegister
  | ReadOnlyRegister
  | StopUnwind
  | InvalidInstructionPointer
  | BadFrame
  | InvalidOperation
  | BadVersion
  | NoInfo
  | Unknown i32

record libunwind_error =
  lue_phase :: libunwind_phase
  lue_code :: libunwind_error_code
  lue_raw_status :: i32

datatype error =
    CouldNotReadStack u64
  | FramepointerUnwindingMovedBackwards
  | DidNotAdvance
  | IntegerOverflow
  | ReturnAddressIsNull
  | Libunwind libunwind_error
  | UnwindInfo unwind_info_error

section \<open>Status decoding\<close>

text \<open>\<open>i32::abs\<close> overflows at the least \<open>i32\<close> only.\<close>

definition i32_abs :: "bool \<Rightarrow> i32 \<Rightarrow> (i32, 'e) outcome" where
  "i32_abs oc n = (if n = - 2147483648 then (if oc then Panic else Ok n) else Ok \<bar>n\<bar>)"

definition code_of_abs :: "i32 \<Rightarrow> libunwind_error_code" where
  "code_of_abs n =
     (if n = UNW_EUNSPEC then Unspecified
      else if n = UNW_ENOMEM then NoMemory
      else if n = UNW_EBADREG then BadRegister
      else if n = UNW_EREADONLYREG then ReadOnlyRegister
      else if n = UNW_ESTOPUNWIND then StopUnwind
      else if n = UNW_EINVALIDIP then InvalidInstructionPointer
      else if n = UNW_EBADFRAME then BadFrame
      else if n = UNW_EINVAL then InvalidOperation
      else if n = UNW_EBADVERSION then BadVersion
      else if n = UNW_ENOINFO then NoInfo
      else Unknown n)"

definition from_status :: "bool \<Rightarrow> i32 \<Rightarrow> (libunwind_error_code, 'e) outcome" where
  "from_status oc status = and_then (i32_abs oc status) (\<lambda>n. Ok (code_of_abs n))"

definition libunwind_error_new ::
    "bool \<Rightarrow> libunwind_phase \<Rightarrow> i32 \<Rightarrow> (libunwind_error, 'e) outcome" where
  "libunwind_error_new oc phase raw_status =
     and_then (from_status oc raw_status) (\<lambda>code.
       Ok \<lparr>lue_phase = phase, lue_code = code, lue_raw_status = raw_status\<rparr>)"

section \<open>Display\<close>

text \<open>\<open>{}\<close>, \<open>{:x}\<close> and \<open>{:02x}\<close> of the formatting machinery.\<close>

definition digit_char :: "nat \<Rightarrow> char" where
  "digit_char d = (if d < 10 then char_of (48 + d) else char_of (87 + d))"

fun radix_string :: "nat \<Rightarrow> nat \<Rightarrow> string" where
  "radix_string b n =
     (if n < b \<or> b < 2 then [digit_char n]
      else radix_string b (n div b) @ [digit_char (n mod b)])"

declare radix_string.simps [simp del]

definition fmt_dec :: "nat \<Rightarrow> string" where
  "fmt_dec n = radix_string 10 n"

definition fmt_hex :: "nat \<Rightarrow> string" where
  "fmt_hex n = radix_string 16 n"

definition fmt_hex02 :: "nat \<Rightarrow> string" where
  "fmt_hex02 n = (if n < 16 then ''0'' @ fmt_hex n else fmt_hex n)"

definition fmt_int :: "int \<Rightarrow> string" where
  "fmt_int i = (if i < 0 then ''-'' @ fmt_dec (nat (- i)) else fmt_dec (nat i))"

definition display_eh_frame_hdr_error :: "eh_frame_hdr_error \<Rightarrow> string" where
  "display_eh_frame_hdr_error e = (case e of
     FixedHeaderTruncated len \<Rightarrow>
       ''.eh_frame_hdr fixed header is truncated: len='' @ fmt_dec len @ '', need 4''
   | UnsupportedVersion version \<Rightarrow>
       ''unsupported .eh_frame_hdr version '' @ fmt_dec (unat version)
   | UnsupportedEhFramePtrEncoding encoding \<Rightarrow>
       ''unsupported .eh_frame_hdr eh_frame_ptr encoding 0x'' @ fmt_hex02 (unat encoding)
   | EhFramePtrTruncated offset sz len \<Rightarrow>
       ''.eh_frame_hdr eh_frame_ptr at offset 0x'' @ fmt_hex offset @ '' needs '' @
       fmt_dec sz @ '' bytes but len is '' @ fmt_dec len
   | UnsupportedFdeCountEncoding encoding \<Rightarrow>
       ''unsupported .eh_frame_hdr FDE count encoding 0x'' @ fmt_hex02 (unat encoding)
   | FdeCountTruncated offset sz len \<Rightarrow>
       ''.eh_frame_hdr FDE count at offset 0x'' @ fmt_hex offset @ '' needs '' @
       fmt_dec sz @ '' bytes but len is '' @ fmt_dec len
   | UnsupportedTableEncoding encoding \<Rightarrow>
       ''unsupported .eh_frame_hdr table encoding 0x'' @ fmt_hex02 (unat encoding) @
       ''; expected DW_EH_PE_datarel|DW_EH_PE_sdata4''
   | TableTruncated offset entry_count len \<Rightarrow>
       ''.eh_frame_hdr table at offset 0x'' @ fmt_hex offset @ '' has '' @
       fmt_dec (unat entry_count) @ '' entries but len is '' @ fmt_dec len)"

definition display_dwarf_parse_error :: "dwarf_parse_error \<Rightarrow> string" where
  "display_dwarf_parse_error e =
     ''DWARF parse error at .eh_frame offset 0x'' @ fmt_hex (dpe_offset e) @ '': '' @
     (case dpe_kind e of
        Truncated needed len \<Rightarrow>
          ''truncated read, needed byte offset '' @ fmt_dec needed @
          '' but buffer length is '' @ fmt_dec len
      | Leb128Overflow \<Rightarrow> ''LEB128 value overflowed u64/i64''
      | EntryLengthOverflow \<Rightarrow> ''entry length overflows the .eh_frame buffer''
      | OmittedPointerEncoding \<Rightarrow> ''DW_EH_PE_omit cannot be decoded as a value''
      | UnsupportedPointerEncoding encoding \<Rightarrow>
          ''unsupported pointer encoding 0x'' @ fmt_hex02 (unat encoding)
      | IndirectPointerRequiresDereference encoding \<Rightarrow>
          ''pointer encoding 0x'' @ fmt_hex02 (unat encoding) @
          '' is indirect and would require tracee memory dereference''
      | UnsupportedPointerApplication encoding \<Rightarrow>
          ''unsupported pointer application in encoding 0x'' @ fmt_hex02 (unat encoding)
      | BadCieId cie_id \<Rightarrow> ''expected CIE id 0, found '' @ fmt_dec (unat cie_id)
      | UnsupportedCieVersion version \<Rightarrow>
          ''unsupported CIE version '' @ fmt_dec (unat version)
      | UnsupportedCieAddressSize address_size segment_size \<Rightarrow>
          ''unsupported CIE address_size='' @ fmt_dec (unat address_size) @
          '', segment_size='' @ fmt_dec (unat segment_size)
      | UnterminatedAugmentationString \<Rightarrow> ''unterminated CIE augmentation string''
      | UnsupportedAugmentation byte \<Rightarrow>
          ''unsupported CIE augmentation byte 0x'' @ fmt_hex02 (unat byte)
      | UnsupportedNonZAugmentation \<Rightarrow> ''unsupported non-z CIE augmentation string''
      | FdeCiePointerIsZero \<Rightarrow> ''FDE CIE pointer is zero, so entry is not an FDE'')"

definition display_unwind_info_error :: "unwind_info_error \<Rightarrow> string" where
  "display_unwind_info_error e = (case e of
     ModuleNotFound ip \<Rightarrow> ''no registered module contains IP 0x'' @ fmt_hex (unat ip)
   | MissingLocalUnwindSections m ip \<Rightarrow>
       ''module '' @ m @ '' has no local .eh_frame/.eh_frame_hdr data for IP 0x'' @
       fmt_hex (unat ip)
   | FunctionCachePoisoned m \<Rightarrow>
       ''function-details cache for module '' @ m @ '' is poisoned''
   | EhFrameHeaderLookupMiss m ip \<Rightarrow>
       ''.eh_frame_hdr in module '' @ m @ '' has no FDE for IP 0x'' @ fmt_hex (unat ip)
   | InvalidEhFrameHdr m source \<Rightarrow>
       ''module '' @ m @ '' has malformed .eh_frame_hdr: '' @ display_eh_frame_hdr_error source
   | FdeOffsetBeforeEhFrame m fde_avma eh_frame_avma \<Rightarrow>
       ''module '' @ m @ '' FDE address 0x'' @ fmt_hex (unat fde_avma) @
       '' is before .eh_frame at 0x'' @ fmt_hex (unat eh_frame_avma)
   | FdeOffsetOutOfRange m fde_offset eh_frame_len \<Rightarrow>
       ''module '' @ m @ '' FDE offset 0x'' @ fmt_hex fde_offset @
       '' is outside .eh_frame length 0x'' @ fmt_hex eh_frame_len
   | FdeLengthPrefixTruncated m fde_offset eh_frame_len \<Rightarrow>
       ''module '' @ m @ '' FDE length prefix at 0x'' @ fmt_hex fde_offset @
       '' exceeds .eh_frame length 0x'' @ fmt_hex eh_frame_len
   | CiePointerTruncated m cie_ptr_offset eh_frame_len \<Rightarrow>
       ''module '' @ m @ '' CIE pointer at 0x'' @ fmt_hex cie_ptr_offset @
       '' exceeds .eh_frame length 0x'' @ fmt_hex eh_frame_len
   | CiePointerUnderflow m cie_ptr_offset cie_ptr \<Rightarrow>
       ''module '' @ m @ '' CIE pointer 0x'' @ fmt_hex (unat cie_ptr) @ '' at 0x'' @
       fmt_hex cie_ptr_offset @ '' points before .eh_frame''
   | CieParse m cie_offset source \<Rightarrow>
       ''failed to parse CIE at .eh_frame offset 0x'' @ fmt_hex cie_offset @
       '' in module '' @ m @ '': '' @ display_dwarf_parse_error source
   | FdeParse m fde_offset source \<Rightarrow>
       ''failed to parse FDE at .eh_frame offset 0x'' @ fmt_hex fde_offset @
       '' in module '' @ m @ '': '' @ display_dwarf_parse_error source)"

definition display_libunwind_phase :: "libunwind_phase \<Rightarrow> string" where
  "display_libunwind_phase p = (case p of
     InitRemote \<Rightarrow> ''unw_init_remote''
   | Step \<Rightarrow> ''unw_step''
   | GetInstructionPointer \<Rightarrow> ''unw_get_reg(IP)''
   | GetRegister reg \<Rightarrow> ''unw_get_reg('' @ fmt_int reg @ '')'')"

definition display_libunwind_error_code :: "libunwind_error_code \<Rightarrow> string" where
  "display_libunwind_error_code c = (case c of
     Unspecified \<Rightarrow> ''unspecified error''
   | NoMemory \<Rightarrow> ''out of memory''
   | BadRegister \<Rightarrow> ''bad register''
   | ReadOnlyRegister \<Rightarrow> ''read-only register''
   | StopUnwind \<Rightarrow> ''forced stop''
   | InvalidInstructionPointer \<Rightarrow> ''invalid instruction pointer''
   | BadFrame \<Rightarrow> ''bad frame''
   | InvalidOperation \<Rightarrow> ''invalid operation''
   | BadVersion \<Rightarrow> ''bad version''
   | NoInfo \<Rightarrow> ''no unwind info''
   | Unknown code \<Rightarrow> ''unknown libunwind error code '' @ fmt_int code)"

definition display_libunwind_error :: "libunwind_error \<Rightarrow> string" where
  "display_libunwind_error e =
     display_libunwind_phase (lue_phase e) @ '' failed: '' @
     display_libunwind_error_code (lue_code e) @ '' (raw status '' @
     fmt_int (lue_raw_status e) @ '')''"

definition display_error :: "error \<Rightarrow> string" where
  "display_error e = (case e of
     CouldNotReadStack addr \<Rightarrow> ''could not read stack memory at 0x'' @ fmt_hex (unat addr)
   | FramepointerUnwindingMovedBackwards \<Rightarrow> ''frame pointer unwinding moved backwards''
   | DidNotAdvance \<Rightarrow> ''neither the code address nor the stack pointer changed''
   | IntegerOverflow \<Rightarrow> ''unwinding caused integer overflow''
   | ReturnAddressIsNull \<Rightarrow> ''return address was null''
   | Libunwind err \<Rightarrow> display_libunwind_error err
   | UnwindInfo err \<Rightarrow> display_unwind_info_error err)"

section \<open>Source chains\<close>

text \<open>The error values behind a \<open>&dyn std::error::Error\<close> of the crate.\<close>

datatype dyn_error =
    DynError error
  | DynLibunwind libunwind_error
  | DynUnwindInfo unwind_info_error
  | DynEhFrameHdr eh_frame_hdr_error
  | DynDwarfParse dwarf_parse_error

definition error_source :: "error \<Rightarrow> dyn_error option" where
  "error_source e = (case e of
     Libunwind err \<Rightarrow> Some (DynLibunwind err)
   | UnwindInfo err \<Rightarrow> Some (DynUnwindInfo err)
   | _ \<Rightarrow> None)"

definition unwind_info_error_source :: "unwind_info_error \<Rightarrow> dyn_error option" where
  "unwind_info_error_source e = (case e of
     InvalidEhFrameHdr _ source \<Rightarrow> Some (DynEhFrameHdr source)
   | CieParse _ _ source \<Rightarrow> Some (DynDwarfParse source)
   | FdeParse _ _ source \<Rightarrow> Some (DynDwarfParse source)
   | _ \<Rightarrow> None)"

text \<open>\<open>source()\<close> of a trait object; the other error types keep the default, \<open>None\<close>.\<close>

definition dyn_source :: "dyn_error \<Rightarrow> dyn_error option" where
  "dyn_source d = (case d of
     DynError e \<Rightarrow> error_source e
   | DynUnwindInfo e \<Rightarrow> unwind_info_error_source e
   | _ \<Rightarrow> None)"

definition dyn_display :: "dyn_error \<Rightarrow> string" where
  "dyn_display d = (case d of
     DynError e \<Rightarrow> display_error e
   | DynLibunwind e \<Rightarrow> display_libunwind_error e
   | DynUnwindInfo e \<Rightarrow> display_unwind_info_error e
   | DynEhFrameHdr e \<Rightarrow> display_eh_frame_hdr_error e
   | DynDwarfParse e \<Rightarrow> display_dwarf_parse_error e)"

section \<open>Status decoding: lemmas\<close>

lemma from_status_sign:
  "\<bar>s\<bar> < 2147483648 \<Longrightarrow> from_status oc (- s) = from_status oc s"
  by (auto simp: from_status_def i32_abs_def)

lemma from_status_defined: "s \<noteq> - 2147483648 \<Longrightarrow> from_status oc s = Ok (code_of_abs \<bar>s\<bar>)"
  by (simp add: from_status_def i32_abs_def)

lemma code_of_abs_known: "1 \<le> n \<Longrightarrow> n \<le> 10 \<Longrightarrow> code_of_abs n \<noteq> Unknown m"
  by (simp add: code_of_abs_def unw_code_defs) presburger

lemma code_of_abs_inj: "code_of_abs m = code_of_abs n \<longleftrightarrow> m = n"
  by (simp add: code_of_abs_def unw_code_defs)

lemma libunwind_error_new_Ok:
  "libunwind_error_new oc p s = Ok e \<Longrightarrow> lue_phase e = p \<and> lue_raw_status e = s"
  by (auto simp: libunwind_error_new_def)

lemma libunwind_error_new_defined:
  "s \<noteq> - 2147483648 \<Longrightarrow> \<exists>e. libunwind_error_new oc p s = Ok e \<and>
     lue_phase e = p \<and> lue_code e = code_of_abs \<bar>s\<bar> \<and> lue_raw_status e = s"
  by (simp add: libunwind_error_new_def from_status_defined)

section \<open>Display: lemmas\<close>

definition digit_val :: "char \<Rightarrow> nat" where
  "digit_val c = (let n = of_char c in if n < 58 then n - 48 else n - 87)"

definition read_radix :: "nat \<Rightarrow> string \<Rightarrow> nat" where
  "read_radix b s = foldl (\<lambda>acc c. acc * b + digit_val c) 0 s"

lemma digit_val_digit_char: "d < 36 \<Longrightarrow> digit_val (digit_char d) = d"
  by (auto simp: digit_val_def digit_char_def Let_def)

lemma read_radix_radix_string:
  "2 \<le> b \<Longrightarrow> b \<le> 36 \<Longrightarrow> read_radix b (radix_string b n) = n"
proof (induction b n rule: radix_string.induct)
  case (1 b n)
  show ?case
  proof (cases "n < b")
    case True
    with 1 show ?thesis
      by (simp add: radix_string.simps [of b n] read_radix_def digit_val_digit_char)
  next
    case False
    with 1 have IH: "read_radix b (radix_string b (n div b)) = n div b" by simp
    from 1 have "n mod b < 36" by (meson mod_less_divisor order_less_le_trans not_numeral_le_zero le_less_trans not_less)
    then have "digit_val (digit_char (n mod b)) = n mod b" by (rule digit_val_digit_char)
    with False 1 IH show ?thesis
      by (simp add: radix_string.simps [of b n] read_radix_def)
  qed
qed

lemma read_fmt_hex: "read_radix 16 (fmt_hex n) = n"
  by (simp add: fmt_hex_def read_radix_radix_string)

lemma read_fmt_dec: "read_radix 10 (fmt_dec n) = n"
  by (simp add: fmt_dec_def read_radix_radix_string)

lemma fmt_hex_inj [simp]: "fmt_hex m = fmt_hex n \<longleftrightarrow> m = n"
  by (metis read_fmt_hex)

lemma display_source_suffix:
  assumes "unwind_info_error_source e = Some d"
  shows "\<exists>pre. display_unwind_info_error e = pre @ dyn_display d"
  using assms
  by (cases e) (auto simp: unwind_info_error_source_def display_unwind_info_error_def dyn_display_def)

end
