(* ===== verification/Dwarf_Cursor.thy ===== *)
theory Dwarf_Cursor
  imports Unwind_Error
begin

unbundle bit_operations_syntax

text \<open>
  \<open>dwarf.rs\<close>, first half: the \<open>DW_EH_PE_*\<close> constants and the byte cursor with its
  fixed-width, LEB128 and encoded-pointer reads.

  A method that takes \<open>&mut self\<close> returns the cursor it leaves behind.  When it
  returns an error the Rust cursor keeps its last position, but every caller drops
  the cursor then, so \<open>Err\<close> carries the error alone.  \<open>oc\<close> is the overflow-checks
  setting of the build (see \<open>Rust_Prelude\<close>).
\<close>

section \<open>Pointer encodings\<close>

definition DW_EH_PE_OMIT :: u8 where "DW_EH_PE_OMIT = 0xff"
definition DW_EH_PE_ABSPTR :: u8 where "DW_EH_PE_ABSPTR = 0x00"
definition DW_EH_PE_FORMAT_MASK :: u8 where "DW_EH_PE_FORMAT_MASK = 0x0f"
definition DW_EH_PE_APP_MASK :: u8 where "DW_EH_PE_APP_MASK = 0x70"
definition DW_EH_PE_INDIRECT :: u8 where "DW_EH_PE_INDIRECT = 0x80"
definition DW_EH_PE_UDATA2 :: u8 where "DW_EH_PE_UDATA2 = 0x02"
definition DW_EH_PE_UDATA4 :: u8 where "DW_EH_PE_UDATA4 = 0x03"
definition DW_EH_PE_UDATA8 :: u8 where "DW_EH_PE_UDATA8 = 0x04"
definition DW_EH_PE_SDATA2 :: u8 where "DW_EH_PE_SDATA2 = 0x0a"
definition DW_EH_PE_SDATA4 :: u8 where "DW_EH_PE_SDATA4 = 0x0b"
definition DW_EH_PE_SDATA8 :: u8 where "DW_EH_PE_SDATA8 = 0x0c"
definition DW_EH_PE_ULEB128 :: u8 where "DW_EH_PE_ULEB128 = 0x01"
definition DW_EH_PE_SLEB128 :: u8 where "DW_EH_PE_SLEB128 = 0x09"
definition DW_EH_PE_PCREL :: u8 where "DW_EH_PE_PCREL = 0x10"
definition DW_EH_PE_TEXTREL :: u8 where "DW_EH_PE_TEXTREL = 0x20"
definition DW_EH_PE_DATAREL :: u8 where "DW_EH_PE_DATAREL = 0x30"
definition DW_EH_PE_FUNCREL :: u8 where "DW_EH_PE_FUNCREL = 0x40"
definition DW_EH_PE_ALIGNED :: u8 where "DW_EH_PE_ALIGNED = 0x50"

lemmas eh_pe_defs =
  DW_EH_PE_OMIT_def DW_EH_PE_ABSPTR_def DW_EH_PE_FORMAT_MASK_def DW_EH_PE_APP_MASK_def
  DW_EH_PE_INDIRECT_def DW_EH_PE_UDATA2_def DW_EH_PE_UDATA4_def DW_EH_PE_UDATA8_def
  DW_EH_PE_SDATA2_def DW_EH_PE_SDATA4_def DW_EH_PE_SDATA8_def DW_EH_PE_ULEB128_def
  DW_EH_PE_SLEB128_def DW_EH_PE_PCREL_def DW_EH_PE_TEXTREL_def DW_EH_PE_DATAREL_def
  DW_EH_PE_FUNCREL_def DW_EH_PE_ALIGNED_def

section \<open>The cursor\<close>

record cursor =
  cur_bytes :: bytes
  cur_pos :: usize
  cur_avma_base :: u64

type_synonym 'a reader = "cursor \<Rightarrow> ('a \<times> cursor, dwarf_parse_error) outcome"

definition current_avma :: "cursor \<Rightarrow> u64" where
  "current_avma c = cur_avma_base c + word_of_nat (cur_pos c)"

definition read_u8 :: "bool \<Rightarrow> u8 reader" where
  "read_u8 oc c =
     (case slice_get (cur_bytes c) (cur_pos c) of
        None \<Rightarrow> and_then (usize_add oc (cur_pos c) 1) (\<lambda>needed.
          Err (dwarf_error (cur_pos c) (Truncated needed (length (cur_bytes c)))))
      | Some v \<Rightarrow> and_then (usize_add oc (cur_pos c) 1) (\<lambda>p. Ok (v, c\<lparr>cur_pos := p\<rparr>)))"

text \<open>The body \<open>read_u16\<close>, \<open>read_u32\<close> and \<open>read_u64\<close> share, for a width \<open>n\<close>.\<close>

definition read_slice :: "bool \<Rightarrow> usize \<Rightarrow> bytes reader" where
  "read_slice oc n c =
     and_then (usize_add oc (cur_pos c) n) (\<lambda>e.
     and_then (ok_or (slice_range (cur_bytes c) (cur_pos c) e)
        (dwarf_error (cur_pos c) (Truncated e (length (cur_bytes c))))) (\<lambda>slice.
     Ok (slice, c\<lparr>cur_pos := e\<rparr>)))"

definition read_u16 :: "bool \<Rightarrow> u16 reader" where
  "read_u16 oc c = and_then (read_slice oc 2 c) (\<lambda>(s, c). Ok (u16_from_le s, c))"

definition read_u32 :: "bool \<Rightarrow> u32 reader" where
  "read_u32 oc c = and_then (read_slice oc 4 c) (\<lambda>(s, c). Ok (u32_from_le s, c))"

definition read_u64 :: "bool \<Rightarrow> u64 reader" where
  "read_u64 oc c = and_then (read_slice oc 8 c) (\<lambda>(s, c). Ok (u64_from_le s, c))"

section \<open>LEB128\<close>

text \<open>
  The loops carry \<open>result\<close> and \<open>shift\<close>.  \<open>shift\<close> is below 64 whenever it is used
  to shift, so \<open><<\<close> is \<open>push_bit\<close>, which drops the bits that leave the word.
\<close>

function read_uleb128_loop :: "bool \<Rightarrow> u64 \<Rightarrow> nat \<Rightarrow> u64 reader" where
  "read_uleb128_loop oc result shift c =
     and_then (read_u8 oc c) (\<lambda>(byte, c).
       let result = result OR push_bit shift (ucast (byte AND 0x7f)) in
       if byte AND 0x80 = 0 then Ok (result, c)
       else if shift + 7 \<ge> 64 then Err (dwarf_error (cur_pos c) Leb128Overflow)
       else read_uleb128_loop oc result (shift + 7) c)"
  by pat_completeness auto
termination
  by (relation "measure (\<lambda>(oc, result, shift, c). 64 - shift)") auto

declare read_uleb128_loop.simps [simp del]

definition read_uleb128 :: "bool \<Rightarrow> u64 reader" where
  "read_uleb128 oc c = read_uleb128_loop oc 0 0 c"

function read_sleb128_loop :: "bool \<Rightarrow> i64 \<Rightarrow> nat \<Rightarrow> i64 reader" where
  "read_sleb128_loop oc result shift c =
     and_then (read_u8 oc c) (\<lambda>(byte, c).
       let result = result OR push_bit shift (ucast (byte AND 0x7f));
           shift' = shift + 7 in
       if byte AND 0x80 = 0 then
         Ok (if shift' < 64 \<and> byte AND 0x40 \<noteq> 0
             then result OR push_bit shift' (- 1) else result, c)
       else if shift' \<ge> 64 then Err (dwarf_error (cur_pos c) Leb128Overflow)
       else read_sleb128_loop oc result shift' c)"
  by pat_completeness auto
termination
  by (relation "measure (\<lambda>(oc, result, shift, c). 64 - shift)") auto

declare read_sleb128_loop.simps [simp del]

definition read_sleb128 :: "bool \<Rightarrow> i64 reader" where
  "read_sleb128 oc c = read_sleb128_loop oc 0 0 c"

section \<open>Encoded pointers\<close>

text \<open>The \<open>match\<close> on the format nibble: the raw value before any base is applied.\<close>

definition read_format :: "bool \<Rightarrow> u8 \<Rightarrow> u8 \<Rightarrow> u64 reader" where
  "read_format oc enc fmt c =
     (if fmt = DW_EH_PE_ABSPTR then read_u64 oc c
      else if fmt = DW_EH_PE_UDATA2 then
        and_then (read_u16 oc c) (\<lambda>(v, c). Ok (ucast v, c))
      else if fmt = DW_EH_PE_UDATA4 then
        and_then (read_u32 oc c) (\<lambda>(v, c). Ok (ucast v, c))
      else if fmt = DW_EH_PE_UDATA8 then read_u64 oc c
      else if fmt = DW_EH_PE_SDATA2 then
        and_then (read_u16 oc c) (\<lambda>(v, c). Ok (scast v, c))
      else if fmt = DW_EH_PE_SDATA4 then
        and_then (read_u32 oc c) (\<lambda>(v, c). Ok (scast v, c))
      else if fmt = DW_EH_PE_SDATA8 then read_u64 oc c
      else if fmt = DW_EH_PE_ULEB128 then read_uleb128 oc c
      else if fmt = DW_EH_PE_SLEB128 then read_sleb128 oc c
      else Err (dwarf_error (cur_pos c) (UnsupportedPointerEncoding enc)))"

definition read_encoded_impl ::
    "bool \<Rightarrow> u8 \<Rightarrow> u64 \<Rightarrow> u64 \<Rightarrow> u64 \<Rightarrow> bool \<Rightarrow> u64 reader" where
  "read_encoded_impl oc enc text_base data_base func_base allow_indirect_without_deref c =
     (if enc = DW_EH_PE_OMIT then Err (dwarf_error (cur_pos c) OmittedPointerEncoding)
      else
        let is_indirect = (enc AND DW_EH_PE_INDIRECT \<noteq> 0) in
        if is_indirect \<and> \<not> allow_indirect_without_deref then
          Err (dwarf_error (cur_pos c) (IndirectPointerRequiresDereference enc))
        else
          let direct_enc = enc AND NOT DW_EH_PE_INDIRECT;
              pcrel_base = current_avma c in
          and_then (read_format oc enc (direct_enc AND DW_EH_PE_FORMAT_MASK) c) (\<lambda>(raw, c).
            if is_indirect then Ok (0, c)
            else if raw = 0 then Ok (0, c)
            else
              let app = direct_enc AND DW_EH_PE_APP_MASK in
              if app = 0 then Ok (raw, c)
              else if app = DW_EH_PE_PCREL then Ok (raw + pcrel_base, c)
              else if app = DW_EH_PE_TEXTREL then Ok (raw + text_base, c)
              else if app = DW_EH_PE_DATAREL then Ok (raw + data_base, c)
              else if app = DW_EH_PE_FUNCREL then Ok (raw + func_base, c)
              else Err (dwarf_error (cur_pos c) (UnsupportedPointerApplication enc))))"

definition read_encoded :: "bool \<Rightarrow> u8 \<Rightarrow> u64 \<Rightarrow> u64 \<Rightarrow> u64 \<Rightarrow> u64 reader" where
  "read_encoded oc enc text_base data_base func_base c =
     read_encoded_impl oc enc text_base data_base func_base False c"

definition read_encoded_personality :: "bool \<Rightarrow> u8 \<Rightarrow> u64 \<Rightarrow> u64 \<Rightarrow> u64 \<Rightarrow> u64 reader" where
  "read_encoded_personality oc enc text_base data_base func_base c =
     read_encoded_impl oc enc text_base data_base func_base True c"

section \<open>What a reader keeps\<close>

text \<open>
  The contract every reader of a byte cursor keeps, as a locale: on a cursor inside a
  Rust slice it neither panics nor reads out of bounds, it behaves the same with and
  without overflow checks, it leaves the bytes and their address alone, and it moves the
  position forward and never past the end.
\<close>

definition cursor_ok :: "cursor \<Rightarrow> bool" where
  "cursor_ok c \<longleftrightarrow> slice_ok (cur_bytes c) \<and> cur_pos c \<le> length (cur_bytes c)"

definition cursor_advanced :: "cursor \<Rightarrow> cursor \<Rightarrow> bool" where
  "cursor_advanced c c' \<longleftrightarrow>
     cur_bytes c' = cur_bytes c \<and> cur_avma_base c' = cur_avma_base c \<and>
     cur_pos c \<le> cur_pos c' \<and> cur_pos c' \<le> length (cur_bytes c)"

text \<open>
  A result of the release build as the build with overflow checks gives it, for a value
  that carries an offset and a length: a range past the end of \<open>usize\<close> is a panic.
\<close>

definition checked_range ::
    "('a \<Rightarrow> usize) \<Rightarrow> ('a \<Rightarrow> usize) \<Rightarrow> ('a, 'e) outcome \<Rightarrow> ('a, 'e) outcome" where
  "checked_range off len r =
     (case r of Ok x \<Rightarrow> if off x + len x < usize_limit then Ok x else Panic
      | Err e \<Rightarrow> Err e | Panic \<Rightarrow> Panic | UB \<Rightarrow> UB)"

lemma cursor_advanced_ok: "cursor_ok c \<Longrightarrow> cursor_advanced c c' \<Longrightarrow> cursor_ok c'"
  by (simp add: cursor_ok_def cursor_advanced_def)

lemma cursor_advanced_refl: "cursor_ok c \<Longrightarrow> cursor_advanced c c"
  by (simp add: cursor_ok_def cursor_advanced_def)

lemma cursor_advanced_trans:
  "cursor_advanced a b \<Longrightarrow> cursor_advanced b c \<Longrightarrow> cursor_advanced a c"
  by (simp add: cursor_advanced_def)

locale safe_reader =
  fixes rd :: "bool \<Rightarrow> 'a reader"
  assumes reader_defined: "cursor_ok c \<Longrightarrow> defined (rd oc c)"
    and reader_advances: "cursor_ok c \<Longrightarrow> rd oc c = Ok (v, c') \<Longrightarrow> cursor_advanced c c'"
    and reader_profile: "cursor_ok c \<Longrightarrow> rd True c = rd False c"
begin

lemma reader_ok: "cursor_ok c \<Longrightarrow> rd oc c = Ok (v, c') \<Longrightarrow> cursor_ok c'"
  using reader_advances cursor_advanced_ok by blast

lemma reader_then_defined:
  assumes "cursor_ok c" and "\<And>v c'. cursor_ok c' \<Longrightarrow> defined (f v c')"
  shows "defined (and_then (rd oc c) (\<lambda>(v, c'). f v c'))"
  using assms reader_ok by (auto intro!: defined_and_then reader_defined)

lemma reader_then_panic_only:
  assumes "cursor_ok c"
    and "\<And>v c'. cursor_advanced c c' \<Longrightarrow> cursor_ok c' \<Longrightarrow> panic_only b (f v c')"
  shows "panic_only b (and_then (rd oc c) (\<lambda>(v, c'). f v c'))"
proof (rule panic_only_and_then)
  show "panic_only b (rd oc c)" using assms(1) by (intro panic_only_defined reader_defined)
  fix x assume "rd oc c = Ok x"
  then show "panic_only b (case x of (v, c') \<Rightarrow> f v c')"
    using assms(2) reader_ok [OF assms(1)] reader_advances [OF assms(1)] by (cases x) simp
qed

lemma reader_thenE:
  assumes "and_then (rd oc c) (\<lambda>(v, c'). f v c') = Ok y" and "cursor_ok c"
    and "cursor_advanced c0 c"
  obtains v c' where "rd oc c = Ok (v, c')" and "cursor_ok c'" and "cursor_advanced c0 c'"
    and "f v c' = Ok y"
  using assms reader_ok reader_advances cursor_advanced_trans by auto

text \<open>Two builds in lockstep: what follows the read decides.\<close>

lemma reader_then_eq:
  assumes "cursor_ok c" and "\<And>v c'. cursor_ok c' \<Longrightarrow> f v c' = g v c'"
  shows "and_then (rd True c) (\<lambda>(v, c'). f v c') = and_then (rd False c) (\<lambda>(v, c'). g v c')"
  using assms reader_ok [OF assms(1), of False] unfolding reader_profile [OF assms(1)]
  by (auto intro: and_then_cong)

lemma reader_then_checked:
  assumes "cursor_ok c" and "\<And>v c'. cursor_ok c' \<Longrightarrow> f v c' = checked_range off len (g v c')"
  shows "and_then (rd True c) (\<lambda>(v, c'). f v c') =
    checked_range off len (and_then (rd False c) (\<lambda>(v, c'). g v c'))"
  using assms(2) reader_ok [OF assms(1), of False] unfolding reader_profile [OF assms(1)]
  by (cases "rd False c") (auto simp: checked_range_def split: prod.split)

end

lemma safe_reader_bind:
  assumes "safe_reader f" and "\<And>v. safe_reader (g v)"
  shows "safe_reader (\<lambda>oc c. and_then (f oc c) (\<lambda>(v, c). g v oc c))"
proof
  fix c oc assume ok: "cursor_ok c"
  show "defined (and_then (f oc c) (\<lambda>(v, c). g v oc c))"
    using ok safe_reader.reader_defined [OF assms(2)]
    by (auto intro!: safe_reader.reader_then_defined [OF assms(1)])
  show "and_then (f True c) (\<lambda>(v, c). g v True c) = and_then (f False c) (\<lambda>(v, c). g v False c)"
    by (rule safe_reader.reader_then_eq [OF assms(1) ok])
      (rule safe_reader.reader_profile [OF assms(2)])
  fix v c'
  assume "and_then (f oc c) (\<lambda>(v, c). g v oc c) = Ok (v, c')"
  then obtain u d where "f oc c = Ok (u, d)" and "g u oc d = Ok (v, c')" by auto
  with ok show "cursor_advanced c c'"
    using safe_reader.reader_advances [OF assms(1)] safe_reader.reader_ok [OF assms(1)]
      safe_reader.reader_advances [OF assms(2)] cursor_advanced_trans by blast
qed

lemma safe_reader_Ok: "safe_reader (\<lambda>oc c. Ok (v, c))"
  by unfold_locales (auto simp: cursor_advanced_refl)

lemma safe_reader_Err: "safe_reader (\<lambda>oc c. Err (e c))"
  by unfold_locales simp_all

lemma safe_reader_if:
  "safe_reader f \<Longrightarrow> safe_reader g \<Longrightarrow> safe_reader (\<lambda>oc c. if b then f oc c else g oc c)"
  by (cases b) simp_all

lemma safe_reader_ok_or:
  assumes "\<And>v. safe_reader (g v)"
  shows "safe_reader (\<lambda>oc c. and_then (ok_or (f c) (e c)) (\<lambda>v. g v oc c))"
proof
  fix c oc assume ok: "cursor_ok c"
  then show "defined (and_then (ok_or (f c) (e c)) (\<lambda>v. g v oc c))"
    using safe_reader.reader_defined [OF assms] by (auto intro!: defined_and_then)
  from ok show "and_then (ok_or (f c) (e c)) (\<lambda>v. g v True c) =
      and_then (ok_or (f c) (e c)) (\<lambda>v. g v False c)"
    using safe_reader.reader_profile [OF assms] by simp
  fix v c'
  assume "and_then (ok_or (f c) (e c)) (\<lambda>v. g v oc c) = Ok (v, c')"
  with ok show "cursor_advanced c c'" using safe_reader.reader_advances [OF assms] by auto
qed

lemmas safe_reader_intros =
  safe_reader_bind safe_reader_if safe_reader_ok_or safe_reader_Ok safe_reader_Err

section \<open>Fixed-width reads\<close>

lemma read_u8_eq:
  assumes "cursor_ok c"
  shows "read_u8 oc c =
    (if cur_pos c < length (cur_bytes c)
     then Ok (cur_bytes c ! cur_pos c, c\<lparr>cur_pos := cur_pos c + 1\<rparr>)
     else Err (dwarf_error (cur_pos c) (Truncated (cur_pos c + 1) (length (cur_bytes c)))))"
proof -
  from assms have "cur_pos c + 1 < usize_limit" by (simp add: cursor_ok_def slice_ok_def)
  then show ?thesis by (simp add: read_u8_def slice_get_def)
qed

lemma read_slice_eq:
  assumes "cursor_ok c" and "n \<le> 8"
  shows "read_slice oc n c =
    (if cur_pos c + n \<le> length (cur_bytes c)
     then Ok (take n (drop (cur_pos c) (cur_bytes c)), c\<lparr>cur_pos := cur_pos c + n\<rparr>)
     else Err (dwarf_error (cur_pos c) (Truncated (cur_pos c + n) (length (cur_bytes c)))))"
proof -
  from assms have "cur_pos c + n < usize_limit" by (simp add: cursor_ok_def slice_ok_def)
  then show ?thesis by (simp add: read_slice_def slice_range_def)
qed

interpretation rd8: safe_reader read_u8
  by unfold_locales (auto simp: read_u8_eq cursor_advanced_def split: if_splits)

lemma safe_read_slice: "n \<le> 8 \<Longrightarrow> safe_reader (\<lambda>oc. read_slice oc n)"
  by unfold_locales (auto simp: read_slice_eq cursor_advanced_def split: if_splits)

interpretation rd16: safe_reader read_u16
  unfolding read_u16_def [abs_def] by (intro safe_reader_intros safe_read_slice) simp

interpretation rd32: safe_reader read_u32
  unfolding read_u32_def [abs_def] by (intro safe_reader_intros safe_read_slice) simp

interpretation rd64: safe_reader read_u64
  unfolding read_u64_def [abs_def] by (intro safe_reader_intros safe_read_slice) simp

section \<open>LEB128 reads are safe\<close>

lemma uleb128_loop_safe:
  "cursor_ok c \<Longrightarrow> defined (read_uleb128_loop oc r s c) \<and>
     (\<forall>v c'. read_uleb128_loop oc r s c = Ok (v, c') \<longrightarrow> cursor_advanced c c') \<and>
     read_uleb128_loop oc r s c = read_uleb128_loop False r s c"
proof (induction oc r s c rule: read_uleb128_loop.induct)
  case (1 oc r s c)
  have prof: "read_u8 oc c = read_u8 False c"
    using rd8.reader_profile [OF "1.prems"] by (cases oc) simp_all
  show ?case
  proof (cases "read_u8 oc c")
    case (Ok bc)
    obtain b c1 where bc: "bc = (b, c1)" by (cases bc)
    note adv = rd8.reader_advances [OF "1.prems" Ok [unfolded bc]]
    note IH = "1.IH" [OF Ok bc [symmetric] refl _ _ cursor_advanced_ok [OF "1.prems" adv]]
    from adv Ok bc prof IH show ?thesis
      by (auto simp: read_uleb128_loop.simps [of oc r s c] read_uleb128_loop.simps [of False r s c]
          Let_def intro: cursor_advanced_trans)
  qed (use rd8.reader_defined [OF "1.prems", of oc] prof in
      \<open>auto simp: read_uleb128_loop.simps [of oc r s c] read_uleb128_loop.simps [of False r s c]\<close>)
qed

lemma sleb128_loop_safe:
  "cursor_ok c \<Longrightarrow> defined (read_sleb128_loop oc r s c) \<and>
     (\<forall>v c'. read_sleb128_loop oc r s c = Ok (v, c') \<longrightarrow> cursor_advanced c c') \<and>
     read_sleb128_loop oc r s c = read_sleb128_loop False r s c"
proof (induction oc r s c rule: read_sleb128_loop.induct)
  case (1 oc r s c)
  have prof: "read_u8 oc c = read_u8 False c"
    using rd8.reader_profile [OF "1.prems"] by (cases oc) simp_all
  show ?case
  proof (cases "read_u8 oc c")
    case (Ok bc)
    obtain b c1 where bc: "bc = (b, c1)" by (cases bc)
    note adv = rd8.reader_advances [OF "1.prems" Ok [unfolded bc]]
    note IH = "1.IH" [OF Ok bc [symmetric] refl refl _ _ cursor_advanced_ok [OF "1.prems" adv]]
    from adv Ok bc prof IH show ?thesis
      by (auto simp: read_sleb128_loop.simps [of oc r s c] read_sleb128_loop.simps [of False r s c]
          Let_def intro: cursor_advanced_trans)
  qed (use rd8.reader_defined [OF "1.prems", of oc] prof in
      \<open>auto simp: read_sleb128_loop.simps [of oc r s c] read_sleb128_loop.simps [of False r s c]\<close>)
qed

interpretation rduleb: safe_reader read_uleb128
proof
  fix c :: cursor and oc assume ok: "cursor_ok c"
  note safe = uleb128_loop_safe [OF ok]
  show "defined (read_uleb128 oc c)" using safe by (simp add: read_uleb128_def)
  show "read_uleb128 True c = read_uleb128 False c"
    using safe [of True] unfolding read_uleb128_def by blast
  show "cursor_advanced c c'" if "read_uleb128 oc c = Ok (v, c')" for v c'
    using safe that unfolding read_uleb128_def by blast
qed

interpretation rdsleb: safe_reader read_sleb128
proof
  fix c :: cursor and oc assume ok: "cursor_ok c"
  note safe = sleb128_loop_safe [OF ok]
  show "defined (read_sleb128 oc c)" using safe by (simp add: read_sleb128_def)
  show "read_sleb128 True c = read_sleb128 False c"
    using safe [of True] unfolding read_sleb128_def by blast
  show "cursor_advanced c c'" if "read_sleb128 oc c = Ok (v, c')" for v c'
    using safe that unfolding read_sleb128_def by blast
qed

section \<open>Encoded reads are safe\<close>

lemmas safe_readers =
  rd8.safe_reader_axioms rd16.safe_reader_axioms rd32.safe_reader_axioms
  rd64.safe_reader_axioms rduleb.safe_reader_axioms rdsleb.safe_reader_axioms

interpretation rdfmt: safe_reader "\<lambda>oc. read_format oc enc fmt" for enc fmt
  unfolding read_format_def [abs_def] by (intro safe_reader_intros safe_readers)

lemma safe_read_encoded_impl:
  "safe_reader (\<lambda>oc. read_encoded_impl oc enc text_base data_base func_base allow)"
proof
  fix c oc assume ok: "cursor_ok c"
  show "defined (read_encoded_impl oc enc text_base data_base func_base allow c)"
    using ok by (auto simp: read_encoded_impl_def Let_def intro!: rdfmt.reader_then_defined)
  show "read_encoded_impl True enc text_base data_base func_base allow c =
      read_encoded_impl False enc text_base data_base func_base allow c"
    by (simp add: read_encoded_impl_def Let_def rdfmt.reader_profile [OF ok])
  fix v c'
  assume "read_encoded_impl oc enc text_base data_base func_base allow c = Ok (v, c')"
  then show "cursor_advanced c c'"
    using rdfmt.reader_advances [OF ok]
    by (fastforce simp: read_encoded_impl_def Let_def split: if_splits)
qed

interpretation rdenc: safe_reader "\<lambda>oc. read_encoded oc enc tb db fb" for enc tb db fb
  unfolding read_encoded_def [abs_def] by (rule safe_read_encoded_impl)

interpretation rdpers: safe_reader "\<lambda>oc. read_encoded_personality oc enc tb db fb" for enc tb db fb
  unfolding read_encoded_personality_def [abs_def] by (rule safe_read_encoded_impl)

end
