(* ===== verification/Eh_Frame_Table.thy ===== *)
theory Eh_Frame_Table
  imports Dwarf_Cursor
begin

unbundle bit_operations_syntax

text \<open>
  \<open>eh_frame_table.rs\<close>: the parser of the \<open>.eh_frame_hdr\<close> header and the binary
  search of its table, with the reference definition of the search (the last entry that
  does not start behind the instruction pointer).
\<close>

section \<open>The header\<close>

record eh_frame_table =
  tbl_table_data_offset :: u64
  tbl_entry_count :: u64
  tbl_eh_frame_hdr_avma :: u64

definition eh_frame_table_empty :: "u64 \<Rightarrow> eh_frame_table" where
  "eh_frame_table_empty eh_frame_hdr_avma =
     \<lparr>tbl_table_data_offset = 0, tbl_entry_count = 0,
      tbl_eh_frame_hdr_avma = eh_frame_hdr_avma\<rparr>"

definition enc_size :: "u8 \<Rightarrow> usize option" where
  "enc_size enc =
     (if enc = DW_EH_PE_OMIT then None
      else let fmt = enc AND 0x0f in
        if fmt = DW_EH_PE_UDATA4 \<or> fmt = DW_EH_PE_SDATA4 then Some 4
        else if fmt = 0x04 \<or> fmt = 0x0c then Some 8
        else if fmt = 0x02 \<or> fmt = 0x0a then Some 2
        else None)"

text \<open>The value and the number of bytes it takes; an \<open>sdata4\<close> value is sign-extended.\<close>

definition read_unsigned :: "bytes \<Rightarrow> u8 \<Rightarrow> (u64 \<times> usize) option" where
  "read_unsigned bs enc =
     (if enc = DW_EH_PE_OMIT then None
      else let fmt = enc AND 0x0f in
        if fmt = DW_EH_PE_UDATA4 then
          (if length bs < 4 then None else Some (ucast (u32_from_le (take 4 bs)), 4))
        else if fmt = DW_EH_PE_SDATA4 then
          (if length bs < 4 then None else Some (scast (u32_from_le (take 4 bs)), 4))
        else if fmt = 0x04 then
          (if length bs < 8 then None else Some (u64_from_le (take 8 bs), 8))
        else None)"

text \<open>
  The unused parameters of the Rust function (static addresses, the text address) are
  left out.
\<close>

definition eh_frame_table_parse ::
    "bool \<Rightarrow> bytes \<Rightarrow> u64 \<Rightarrow> (eh_frame_table, eh_frame_hdr_error) outcome" where
  "eh_frame_table_parse oc hdr eh_frame_hdr_avma =
     (if length hdr < 4 then Err (FixedHeaderTruncated (length hdr))
      else if hdr ! 0 \<noteq> 1 then Err (UnsupportedVersion (hdr ! 0))
      else
        let eh_frame_ptr_enc = hdr ! 1; fde_count_enc = hdr ! 2; table_enc = hdr ! 3;
            cursor = 4 in
        case enc_size eh_frame_ptr_enc of
          None \<Rightarrow> Err (UnsupportedEhFramePtrEncoding eh_frame_ptr_enc)
        | Some eh_frame_ptr_size \<Rightarrow>
          if saturating_add_usize cursor eh_frame_ptr_size > length hdr then
            Err (EhFramePtrTruncated cursor eh_frame_ptr_size (length hdr))
          else
            and_then (usize_add oc cursor eh_frame_ptr_size) (\<lambda>cursor.
            and_then (slice_from hdr cursor) (\<lambda>rest.
            and_then
              (case read_unsigned rest fde_count_enc of
                 Some (val, n) \<Rightarrow> and_then (usize_add oc cursor n) (\<lambda>cursor. Ok (val, cursor))
               | None \<Rightarrow>
                   (case enc_size fde_count_enc of
                      Some n \<Rightarrow> Err (FdeCountTruncated cursor n (length hdr))
                    | None \<Rightarrow> Err (UnsupportedFdeCountEncoding fde_count_enc)))
              (\<lambda>(fde_count, cursor).
            if table_enc \<noteq> DW_EH_PE_DATAREL OR DW_EH_PE_SDATA4 then
              Err (UnsupportedTableEncoding table_enc)
            else
              let need = unat (saturating_mul_u64 8 fde_count) in
              if saturating_add_usize cursor need > length hdr then
                Err (TableTruncated cursor fde_count (length hdr))
              else Ok \<lparr>tbl_table_data_offset = word_of_nat cursor, tbl_entry_count = fde_count,
                       tbl_eh_frame_hdr_avma = eh_frame_hdr_avma\<rparr>))))"

section \<open>The search\<close>

text \<open>
  Nothing here returns an error; the error type is the one of the callers.
  The word at byte \<open>i * 8 + d\<close> of the table; indexing outside the table panics.
  \<open>entry_pc\<close> reads it at \<open>d = 0\<close>, \<open>entry_fde\<close> at \<open>d = 4\<close>.
\<close>

definition entry_i32 :: "bool \<Rightarrow> bytes \<Rightarrow> usize \<Rightarrow> usize \<Rightarrow> (u32, unwind_info_error) outcome" where
  "entry_i32 oc entries i d =
     and_then (usize_mul oc i 8) (\<lambda>off.
     and_then (usize_add oc off d) (\<lambda>off.
     and_then (slice_index entries off (off + 4)) (\<lambda>s.
     Ok (u32_from_le s))))"

definition entry_pc :: "bool \<Rightarrow> u64 \<Rightarrow> bytes \<Rightarrow> usize \<Rightarrow> (u64, unwind_info_error) outcome" where
  "entry_pc oc segbase entries i =
     and_then (entry_i32 oc entries i 0) (\<lambda>pc_off. Ok (segbase + scast pc_off))"

definition entry_fde :: "bool \<Rightarrow> u64 \<Rightarrow> bytes \<Rightarrow> usize \<Rightarrow> (u64, unwind_info_error) outcome" where
  "entry_fde oc segbase entries i =
     and_then (entry_i32 oc entries i 4) (\<lambda>fde_off. Ok (segbase + scast fde_off))"

text \<open>
  The \<open>while lo + 1 < hi\<close> loop; \<open>lo < hi\<close> throughout, so its own arithmetic does not
  overflow.
\<close>

function search_loop ::
    "bool \<Rightarrow> u64 \<Rightarrow> bytes \<Rightarrow> u64 \<Rightarrow> usize \<Rightarrow> usize \<Rightarrow> (usize, unwind_info_error) outcome" where
  "search_loop oc segbase entries ip lo hi =
     (if lo + 1 < hi then
        let mid = lo + (hi - lo) div 2 in
        and_then (entry_pc oc segbase entries mid) (\<lambda>pc.
          if pc \<le> ip then search_loop oc segbase entries ip mid hi
          else search_loop oc segbase entries ip lo mid)
      else Ok lo)"
  by pat_completeness auto
termination
  by (relation "measure (\<lambda>(oc, segbase, entries, ip, lo, hi). hi - lo)") auto

declare search_loop.simps [simp del]

definition eh_frame_table_lookup ::
    "bool \<Rightarrow> eh_frame_table \<Rightarrow> bytes \<Rightarrow> u64 \<Rightarrow> ((u64 \<times> u64) option, unwind_info_error) outcome" where
  "eh_frame_table_lookup oc t eh_frame_hdr_bytes ip =
     (if tbl_entry_count t = 0 then Ok None
      else
        let table_off = unat (tbl_table_data_offset t); n = unat (tbl_entry_count t) in
        and_then (usize_mul oc n 8) (\<lambda>n8.
        and_then (usize_add oc table_off n8) (\<lambda>table_end.
        case slice_range eh_frame_hdr_bytes table_off table_end of
          None \<Rightarrow> Ok None
        | Some entries \<Rightarrow>
          let segbase = tbl_eh_frame_hdr_avma t in
          and_then (search_loop oc segbase entries ip 0 n) (\<lambda>lo.
          and_then (entry_pc oc segbase entries lo) (\<lambda>pc.
          if pc > ip then Ok None
          else and_then (entry_fde oc segbase entries lo) (\<lambda>fde.
            Ok (Some (pc, fde))))))))"

section \<open>The table as a list\<close>

text \<open>The entries the table holds, as \<open>(initial pc, FDE address)\<close> pairs.\<close>

definition table_word :: "bytes \<Rightarrow> usize \<Rightarrow> u32" where
  "table_word bs p = u32_from_le (take 4 (drop p bs))"

definition table_entry :: "eh_frame_table \<Rightarrow> bytes \<Rightarrow> nat \<Rightarrow> u64 \<times> u64" where
  "table_entry t hdr i =
     (tbl_eh_frame_hdr_avma t + scast (table_word hdr (unat (tbl_table_data_offset t) + 8 * i)),
      tbl_eh_frame_hdr_avma t + scast (table_word hdr (unat (tbl_table_data_offset t) + 8 * i + 4)))"

definition table_entries :: "eh_frame_table \<Rightarrow> bytes \<Rightarrow> (u64 \<times> u64) list" where
  "table_entries t hdr = map (table_entry t hdr) [0..<unat (tbl_entry_count t)]"

text \<open>The invariant a parsed table has over its header bytes.\<close>

definition table_fits :: "eh_frame_table \<Rightarrow> bytes \<Rightarrow> bool" where
  "table_fits t hdr \<longleftrightarrow>
     unat (tbl_table_data_offset t) + 8 * unat (tbl_entry_count t) \<le> length hdr"

text \<open>The reference search: the last entry that starts at or below the address.\<close>

definition last_not_above :: "u64 \<Rightarrow> (u64 \<times> u64) list \<Rightarrow> (u64 \<times> u64) option" where
  "last_not_above ip es =
     (let below = filter (\<lambda>e. fst e \<le> ip) es in
      if below = [] then None else Some (last below))"

lemma eh_frame_table_parse_Ok:
  assumes "eh_frame_table_parse oc hdr avma = Ok t" and "slice_ok hdr"
  shows "table_fits t hdr" and "tbl_eh_frame_hdr_avma t = avma" and "hdr ! 0 = 1" and "hdr ! 3 = 0x3b"
proof -
  have fits: "cur + 8 * unat n \<le> length hdr \<and> cur < usize_limit"
    if "saturating_add_usize cur (unat (saturating_mul_u64 8 n)) \<le> length hdr" for cur n
    using that assms(2)
    by (auto simp: saturating_add_usize_def saturating_mul_u64_def slice_ok_def unat_word_ariths
        min_def split: if_splits)
  show "table_fits t hdr" "tbl_eh_frame_hdr_avma t = avma" "hdr ! 0 = 1" "hdr ! 3 = 0x3b"
    using assms(1)
    by (auto simp: eh_frame_table_parse_def Let_def table_fits_def eh_pe_defs not_less dest!: fits
        split: if_splits option.splits)
qed

lemma entry_i32_in_table:
  assumes "off + 8 * n \<le> length hdr" and "slice_ok hdr" and "i < n" and "d \<le> 4"
  shows "entry_i32 oc (take (8 * n) (drop off hdr)) i d = Ok (table_word hdr (off + 8 * i + d))"
proof -
  define p where "p = i * 8 + d"
  have p: "p + 4 \<le> 8 * n" using assms(3,4) unfolding p_def by linarith
  with assms(1,2) have small: "p < usize_limit" by (simp add: slice_ok_def)
  have "(slice_index (take (8 * n) (drop off hdr)) p (p + 4) ::
      (bytes, unwind_info_error) outcome) = Ok (take 4 (drop (off + p) hdr))"
  proof -
    have "4 \<le> 8 * n - p" and "p + 4 \<le> length hdr - off" using p assms(1) by linarith+
    with p show ?thesis
      by (simp add: slice_index_def slice_range_def drop_take min_def add.commute)
  qed
  moreover have "i * 8 < usize_limit" and "i * 8 + d < usize_limit"
    using small by (simp_all add: p_def)
  ultimately show ?thesis
    by (simp add: entry_i32_def table_word_def p_def [symmetric])
      (simp add: p_def mult.commute add.assoc)
qed

text \<open>What the loop guarantees on any table, sorted or not.\<close>

lemma search_loop_bounds:
  assumes "\<And>i. i < n \<Longrightarrow> entry_pc oc segbase entries i = Ok (pc i)" and "lo < hi" and "hi \<le> n"
  shows "\<exists>r. search_loop oc segbase entries ip lo hi = Ok r \<and> lo \<le> r \<and> r < hi \<and>
    (r \<noteq> lo \<longrightarrow> pc r \<le> ip) \<and> (r + 1 \<noteq> hi \<longrightarrow> ip < pc (r + 1))"
  using assms(2,3)
proof (induction "hi - lo" arbitrary: lo hi rule: less_induct)
  case less
  show ?case
  proof (cases "lo + 1 < hi")
    case False
    with less.prems show ?thesis by (auto simp: search_loop.simps)
  next
    case True
    define mid where "mid = lo + (hi - lo) div 2"
    from True have mid: "lo < mid" "mid < hi" unfolding mid_def by linarith+
    have pc: "entry_pc oc segbase entries mid = Ok (pc mid)"
      using mid less.prems by (intro assms(1)) simp
    show ?thesis
    proof (cases "pc mid \<le> ip")
      case le: True
      then have "search_loop oc segbase entries ip lo hi = search_loop oc segbase entries ip mid hi"
        using True pc by (simp add: search_loop.simps [of oc segbase entries ip lo hi] mid_def Let_def)
      moreover have "\<exists>r. search_loop oc segbase entries ip mid hi = Ok r \<and> mid \<le> r \<and> r < hi \<and>
          (r \<noteq> mid \<longrightarrow> pc r \<le> ip) \<and> (r + 1 \<noteq> hi \<longrightarrow> ip < pc (r + 1))"
        using less.hyps [of hi mid] mid less.prems by simp
      ultimately show ?thesis using mid le by force
    next
      case gt: False
      then have "search_loop oc segbase entries ip lo hi = search_loop oc segbase entries ip lo mid"
        using True pc by (simp add: search_loop.simps [of oc segbase entries ip lo hi] mid_def Let_def)
      moreover have "\<exists>r. search_loop oc segbase entries ip lo mid = Ok r \<and> lo \<le> r \<and> r < mid \<and>
          (r \<noteq> lo \<longrightarrow> pc r \<le> ip) \<and> (r + 1 \<noteq> mid \<longrightarrow> ip < pc (r + 1))"
        using less.hyps [of mid lo] mid less.prems by simp
      ultimately show ?thesis using mid gt by force
    qed
  qed
qed

text \<open>
  The result of a lookup on a table that fits its header: an index the search stopped at,
  and the tests it passed on the way.
\<close>

lemma lookup_index:
  assumes "table_fits t hdr" and "slice_ok hdr" and "tbl_entry_count t \<noteq> 0"
  obtains r where "r < unat (tbl_entry_count t)"
    and "eh_frame_table_lookup oc t hdr ip =
      Ok (if fst (table_entry t hdr r) \<le> ip then Some (table_entry t hdr r) else None)"
    and "r \<noteq> 0 \<Longrightarrow> fst (table_entry t hdr r) \<le> ip"
    and "Suc r \<noteq> unat (tbl_entry_count t) \<Longrightarrow> ip < fst (table_entry t hdr (Suc r))"
proof -
  define off where "off = unat (tbl_table_data_offset t)"
  define n where "n = unat (tbl_entry_count t)"
  define ents where "ents = take (8 * n) (drop off hdr)"
  note defs = off_def [symmetric] n_def [symmetric] ents_def [symmetric]
  have fit: "off + 8 * n \<le> length hdr" using assms(1) by (simp add: table_fits_def defs)
  then have small: "n * 8 < usize_limit" "off + n * 8 < usize_limit"
    using assms(2) by (simp_all add: slice_ok_def)
  have "0 < n" using assms(3) by (simp add: n_def unat_gt_0)
  have pc: "entry_pc oc (tbl_eh_frame_hdr_avma t) ents i = Ok (fst (table_entry t hdr i))"
    and fde: "entry_fde oc (tbl_eh_frame_hdr_avma t) ents i = Ok (snd (table_entry t hdr i))"
    if "i < n" for i
    using entry_i32_in_table [OF fit assms(2) that, of 0 oc]
      entry_i32_in_table [OF fit assms(2) that, of 4 oc]
    by (simp_all add: entry_pc_def entry_fde_def table_entry_def defs)
  obtain r where r: "search_loop oc (tbl_eh_frame_hdr_avma t) ents ip 0 n = Ok r" "r < n"
    "r \<noteq> 0 \<longrightarrow> fst (table_entry t hdr r) \<le> ip"
    "r + 1 \<noteq> n \<longrightarrow> ip < fst (table_entry t hdr (r + 1))"
    using search_loop_bounds [OF pc \<open>0 < n\<close> order_refl] by blast
  have "slice_range hdr off (off + n * 8) = Some ents"
    using fit by (simp add: slice_range_def ents_def mult.commute)
  then have "eh_frame_table_lookup oc t hdr ip =
      Ok (if fst (table_entry t hdr r) \<le> ip then Some (table_entry t hdr r) else None)"
    using small assms(3) r(1) pc [OF r(2)] fde [OF r(2)]
    by (auto simp: eh_frame_table_lookup_def defs Let_def not_less)
  with r that show ?thesis by (simp add: defs)
qed

lemma length_table_entries [simp]: "length (table_entries t hdr) = unat (tbl_entry_count t)"
  by (simp add: table_entries_def)

lemma nth_table_entries [simp]:
  "i < unat (tbl_entry_count t) \<Longrightarrow> table_entries t hdr ! i = table_entry t hdr i"
  by (simp add: table_entries_def)

text \<open>The filter of a sorted list is its prefix, so the stopping index is the last match.\<close>

lemma last_not_above_sorted:
  assumes "sorted (map fst es)" and "r < length es" and "fst (es ! r) \<le> ip"
    and "Suc r < length es \<Longrightarrow> ip < fst (es ! Suc r)"
  shows "last_not_above ip es = Some (es ! r)"
proof -
  have mono: "fst (es ! i) \<le> fst (es ! j)" if "i \<le> j" "j < length es" for i j
    using sorted_nth_mono [OF assms(1), of i j] that by simp
  have le: "fst (es ! i) \<le> ip" if "i \<le> r" for i
    using mono [OF that assms(2)] assms(3) by (rule order_trans)
  have gt: "ip < fst (es ! i)" if "r < i" "i < length es" for i
    using mono [of "Suc r" i] that assms(4) by force
  have "\<forall>e \<in> set (take (Suc r) es). fst e \<le> ip"
    using le assms(2) by (simp add: all_set_conv_all_nth less_Suc_eq_le)
  moreover have "\<forall>e \<in> set (drop (Suc r) es). \<not> fst e \<le> ip"
    using gt assms(2) by (simp add: all_set_conv_all_nth not_le)
  moreover have "es = take (Suc r) es @ drop (Suc r) es" by simp
  ultimately have "filter (\<lambda>e. fst e \<le> ip) es = take (Suc r) es"
    by (metis (mono_tags, lifting) append_Nil2 filter_False filter_True filter_append)
  then show ?thesis
    using assms(2) by (simp add: last_not_above_def take_Suc_conv_app_nth Let_def)
qed

lemma lookup_sorted:
  assumes "table_fits t hdr" and "slice_ok hdr" and "sorted (map fst (table_entries t hdr))"
  shows "eh_frame_table_lookup oc t hdr ip = Ok (last_not_above ip (table_entries t hdr))"
proof (cases "tbl_entry_count t = 0")
  case True
  then show ?thesis by (simp add: eh_frame_table_lookup_def last_not_above_def table_entries_def)
next
  case False
  obtain r where r: "r < unat (tbl_entry_count t)"
    "eh_frame_table_lookup oc t hdr ip =
      Ok (if fst (table_entry t hdr r) \<le> ip then Some (table_entry t hdr r) else None)"
    "r \<noteq> 0 \<Longrightarrow> fst (table_entry t hdr r) \<le> ip"
    "Suc r \<noteq> unat (tbl_entry_count t) \<Longrightarrow> ip < fst (table_entry t hdr (Suc r))"
    using lookup_index [OF assms(1,2) False] by metis
  show ?thesis
  proof (cases "fst (table_entry t hdr r) \<le> ip")
    case True
    with r last_not_above_sorted [OF assms(3), of r ip] show ?thesis by simp
  next
    case above: False
    with r(3) have "r = 0" by blast
    with above r(1) have "\<not> fst (table_entries t hdr ! i) \<le> ip"
      if "i < unat (tbl_entry_count t)" for i
      using sorted_nth_mono [OF assms(3), of 0 i] that by (auto simp: not_le)
    then have "\<forall>e \<in> set (table_entries t hdr). \<not> fst e \<le> ip"
      by (simp add: all_set_conv_all_nth)
    with above r(2) show ?thesis by (simp add: last_not_above_def filter_empty_conv Let_def)
  qed
qed

lemma lookup_total:
  assumes "table_fits t hdr" and "slice_ok hdr"
  shows "\<exists>r. eh_frame_table_lookup oc t hdr ip = Ok r \<and>
    (\<forall>e. r = Some e \<longrightarrow> e \<in> set (table_entries t hdr) \<and> fst e \<le> ip)"
proof (cases "tbl_entry_count t = 0")
  case True
  then show ?thesis by (simp add: eh_frame_table_lookup_def)
next
  case False
  show ?thesis
    by (rule lookup_index [OF assms False, of oc ip]) (auto simp: in_set_conv_nth)
qed

section \<open>Headers as a linker writes them\<close>

text \<open>
  A version 1 header with a \<open>pcrel|sdata4\<close> section pointer, a \<open>udata4\<close> count and a
  \<open>datarel|sdata4\<close> table, the only layout the parser accepts in practice.
\<close>

primrec encode_rows :: "(u32 \<times> u32) list \<Rightarrow> bytes" where
  "encode_rows [] = []"
| "encode_rows (row # rows) = to_le 4 (unat (fst row)) @ to_le 4 (unat (snd row)) @ encode_rows rows"

definition encode_hdr :: "u32 \<Rightarrow> (u32 \<times> u32) list \<Rightarrow> bytes" where
  "encode_hdr eh_frame_ptr rows =
     [1, 0x1b, 0x03, 0x3b] @ to_le 4 (unat eh_frame_ptr) @ to_le 4 (length rows) @ encode_rows rows"

lemma length_encode_rows [simp]: "length (encode_rows rows) = 8 * length rows"
  by (induction rows) simp_all

lemma u32_from_to_le [simp]: "u32_from_le (to_le 4 (unat (w :: u32))) = w"
proof -
  have "unat w < 4294967296" using unsigned_less [of w] by simp
  then show ?thesis by (simp add: u32_from_le_def le_nat_to_le)
qed

lemma table_word_skip:
  "length bs = p \<Longrightarrow> table_word (bs @ cs) (p + q) = table_word cs q"
  by (simp add: table_word_def)

lemma table_word_encode_rows:
  assumes "i < length rows"
  shows "table_word (encode_rows rows @ post) (8 * i) = fst (rows ! i) \<and>
    table_word (encode_rows rows @ post) (8 * i + 4) = snd (rows ! i)"
  using assms
proof (induction rows arbitrary: i)
  case Nil
  then show ?case by simp
next
  case (Cons row rows)
  show ?case
  proof (cases i)
    case 0
    then show ?thesis by (simp add: table_word_def)
  next
    case (Suc j)
    have split: "encode_rows (row # rows) @ post =
        (to_le 4 (unat (fst row)) @ to_le 4 (unat (snd row))) @ encode_rows rows @ post" by simp
    have skip: "table_word (encode_rows (row # rows) @ post) (8 + q) =
        table_word (encode_rows rows @ post) q" for q
      unfolding split by (rule table_word_skip) simp
    have "8 * i = 8 + 8 * j" and "8 * i + 4 = 8 + (8 * j + 4)" using Suc by simp_all
    with Suc Cons skip show ?thesis by (simp only: nth_Cons_Suc length_Cons Suc_less_eq)
  qed
qed

text \<open>The header parses to its own rows, whatever follows them in the section.\<close>

lemma parse_encode_hdr:
  assumes "length rows < 4294967296" and "slice_ok (encode_hdr ptr rows @ post)"
  shows "eh_frame_table_parse oc (encode_hdr ptr rows @ post) avma =
    Ok \<lparr>tbl_table_data_offset = 12, tbl_entry_count = word_of_nat (length rows),
        tbl_eh_frame_hdr_avma = avma\<rparr>"
proof -
  define hdr where "hdr = encode_hdr ptr rows @ post"
  have hdr: "hdr = [1, 0x1b, 0x03, 0x3b] @ to_le 4 (unat ptr) @ to_le 4 (length rows) @
      encode_rows rows @ post"
    by (simp add: hdr_def encode_hdr_def)
  have len: "length hdr = 12 + 8 * length rows + length post" by (simp add: hdr)
  have nths: "hdr ! 0 = 1" "hdr ! Suc 0 = 0x1b" "hdr ! 2 = 0x03" "hdr ! 3 = 0x3b"
    by (simp_all add: hdr nth_Cons')
  have rest: "drop 8 hdr = to_le 4 (length rows) @ encode_rows rows @ post"
    by (simp add: hdr)
  have count: "read_unsigned (drop 8 hdr) 3 = Some (word_of_nat (length rows), 4)"
  proof -
    have "unat (word_of_nat (length rows) :: u32) = length rows"
      using assms(1) by (simp add: unat_of_nat)
    then have "(ucast (word_of_nat (length rows) :: u32) :: u64) = word_of_nat (length rows)"
      by (metis of_nat_unat)
    then show ?thesis
      using assms(1) by (simp add: read_unsigned_def rest eh_pe_defs u32_from_le_def le_nat_to_le)
  qed
  have need: "unat (saturating_mul_u64 8 (word_of_nat (length rows))) = 8 * length rows"
    using assms(1) by (simp add: saturating_mul_u64_def unat_word_ariths)
  show ?thesis
    unfolding hdr_def [symmetric]
    using count need assms(2) [unfolded slice_ok_def, folded hdr_def]
    by (simp add: eh_frame_table_parse_def len nths enc_size_def eh_pe_defs slice_from_def
        saturating_add_usize_def Let_def del: drop_drop)
qed

lemma table_entries_encode_hdr:
  assumes "length rows < 4294967296"
    and "t = \<lparr>tbl_table_data_offset = 12, tbl_entry_count = word_of_nat (length rows),
        tbl_eh_frame_hdr_avma = avma\<rparr>"
  shows "table_entries t (encode_hdr ptr rows @ post) =
    map (\<lambda>(pc, fde). (avma + scast pc, avma + scast fde)) rows"
proof (rule nth_equalityI)
  show "length (table_entries t (encode_hdr ptr rows @ post)) =
      length (map (\<lambda>(pc, fde). (avma + scast pc, avma + scast fde)) rows)"
    using assms by simp
  fix i
  assume "i < length (table_entries t (encode_hdr ptr rows @ post))"
  then have i: "i < length rows" using assms by simp
  have split: "encode_hdr ptr rows @ post = ([1, 0x1b, 0x03, 0x3b] @ to_le 4 (unat ptr) @
      to_le 4 (length rows)) @ encode_rows rows @ post" by (simp add: encode_hdr_def)
  have "table_word (encode_hdr ptr rows @ post) (12 + q) = table_word (encode_rows rows @ post) q" for q
    unfolding split by (rule table_word_skip) simp
  from this [of "8 * i"] this [of "8 * i + 4"] table_word_encode_rows [OF i, of post] i assms
  show "table_entries t (encode_hdr ptr rows @ post) ! i =
      map (\<lambda>(pc, fde). (avma + scast pc, avma + scast fde)) rows ! i"
    by (simp add: table_entry_def split_beta)
qed

text \<open>A negative \<open>sdata4\<close> count, sign-extended, asks for more than any slice holds.\<close>

lemma scast_negative:
  assumes "sint (w :: u32) < 0"
  shows "9223372036854775808 \<le> unat (scast w :: u64)"
proof -
  have low: "- 2147483648 \<le> sint w" using sint_greater_eq [of w] by simp
  have "uint (scast w :: u64) = sint w mod 18446744073709551616"
  proof -
    have "(scast w :: u64) = word_of_int (sint w)" by simp
    then show ?thesis by (simp only: uint_word_of_int) simp
  qed
  also have "\<dots> = (sint w + 18446744073709551616) mod 18446744073709551616"
    by (rule mod_add_self2 [symmetric])
  also have "\<dots> = sint w + 18446744073709551616"
    using low assms by (intro mod_pos_pos_trivial) linarith+
  finally have "9223372036854775808 \<le> uint (scast w :: u64)" using low by linarith
  then have "nat 9223372036854775808 \<le> nat (uint (scast w :: u64))" by (rule nat_mono)
  then show ?thesis by (simp only: unat_eq_nat_uint nat_numeral)
qed

lemma parse_negative_count:
  assumes "slice_ok hdr" and "hdr ! 0 = 1" and "hdr ! 2 = 0x0b" and "hdr ! 3 = 0x3b"
    and "enc_size (hdr ! 1) = Some n" and "n + 8 \<le> length hdr"
    and "sint (table_word hdr (4 + n)) < 0"
  shows "eh_frame_table_parse oc hdr avma =
    Err (TableTruncated (n + 8) (scast (table_word hdr (4 + n))) (length hdr))"
proof -
  define k :: u64 where "k = scast (table_word hdr (4 + n))"
  have big: "unat (saturating_mul_u64 8 k) = 18446744073709551615"
    using scast_negative [OF assms(7)] by (simp add: saturating_mul_u64_def k_def)
  have rest: "read_unsigned (drop (4 + n) hdr) 0x0b = Some (k, 4)"
    using assms(6) by (simp add: read_unsigned_def eh_pe_defs k_def table_word_def)
  have "n + 8 < usize_limit" "4 \<le> length hdr" using assms(1,6) by (simp_all add: slice_ok_def)
  with assms(1-6) big rest show ?thesis
    unfolding k_def [symmetric]
    by (simp add: eh_frame_table_parse_def saturating_add_usize_def slice_from_def eh_pe_defs
        slice_ok_def Let_def add.commute)
qed

section \<open>Properties\<close>

text \<open>C6: The binary search is correct.  On a parsed header whose table is sorted by initial
  pc (as the linker writes it), \<open>lookup\<close> terminates without a panic in both build profiles
  and returns the last entry whose initial pc is not above the instruction pointer, and
  \<open>None\<close> exactly when the pointer is below every entry.\<close>

theorem eh_frame_table_lookup_correct:
  assumes "slice_ok hdr" and "eh_frame_table_parse oc hdr avma = Ok t"
    and "sorted (map fst (table_entries t hdr))"
  shows "eh_frame_table_lookup oc' t hdr ip = Ok (last_not_above ip (table_entries t hdr))"
  using lookup_sorted [OF eh_frame_table_parse_Ok(1) [OF assms(2,1)] assms(1,3)] .

theorem eh_frame_table_lookup_correct_witness:
  "eh_frame_table_lookup True
      \<lparr>tbl_table_data_offset = 12, tbl_entry_count = 2, tbl_eh_frame_hdr_avma = 0x2000\<rparr>
      (encode_hdr 0 [(0x10, 0x100), (0x40, 0x120)] @ []) 0x2030 = Ok (Some (0x2010, 0x2100))"
proof -
  let ?t = "\<lparr>tbl_table_data_offset = 12, tbl_entry_count = 2, tbl_eh_frame_hdr_avma = 0x2000\<rparr>"
  let ?hdr = "encode_hdr 0 [(0x10, 0x100), (0x40, 0x120)] @ []"
  have ok: "slice_ok ?hdr" by (simp add: slice_ok_def encode_hdr_def)
  have parse: "eh_frame_table_parse True ?hdr 0x2000 = Ok ?t"
    using parse_encode_hdr [of "[(0x10, 0x100), (0x40, 0x120)]" 0 "[]" True "0x2000"] ok by simp
  have ents: "table_entries ?t ?hdr = [(0x2010, 0x2100), (0x2040, 0x2120)]"
    using table_entries_encode_hdr [of "[(0x10, 0x100), (0x40, 0x120)]" ?t "0x2000" 0 "[]"] by simp
  show ?thesis
    using eh_frame_table_lookup_correct [OF ok parse, of True "0x2030"]
    unfolding ents by (simp add: last_not_above_def)
qed

text \<open>The search is safe on every table.  For any header the parser accepts, sorted or
  not, \<open>lookup\<close> never panics and never reads outside the header; an entry it returns is an
  entry of the table and does not start behind the instruction pointer.\<close>

theorem eh_frame_table_lookup_safe:
  assumes "slice_ok hdr" and "eh_frame_table_parse oc hdr avma = Ok t"
  shows "\<exists>r. eh_frame_table_lookup oc' t hdr ip = Ok r \<and>
    (\<forall>e. r = Some e \<longrightarrow> e \<in> set (table_entries t hdr) \<and> fst e \<le> ip)"
  by (rule lookup_total [OF eh_frame_table_parse_Ok(1) [OF assms(2,1)] assms(1)])

theorem eh_frame_table_lookup_safe_witness:
  "\<exists>r. eh_frame_table_lookup True
      \<lparr>tbl_table_data_offset = 12, tbl_entry_count = 2, tbl_eh_frame_hdr_avma = 0x2000\<rparr>
      (encode_hdr 0 [(0x40, 0x100), (0x10, 0x120)] @ []) 0x2030 = Ok r \<and>
    (\<forall>e. r = Some e \<longrightarrow> e \<in> set (table_entries
      \<lparr>tbl_table_data_offset = 12, tbl_entry_count = 2, tbl_eh_frame_hdr_avma = 0x2000\<rparr>
      (encode_hdr 0 [(0x40, 0x100), (0x10, 0x120)] @ [])) \<and> fst e \<le> 0x2030)"
proof (rule eh_frame_table_lookup_safe)
  show ok: "slice_ok (encode_hdr 0 [(0x40, 0x100), (0x10, 0x120)] @ [])"
    by (simp add: slice_ok_def encode_hdr_def)
  show "eh_frame_table_parse True (encode_hdr 0 [(0x40, 0x100), (0x10, 0x120)] @ []) 0x2000 =
      Ok \<lparr>tbl_table_data_offset = 12, tbl_entry_count = 2, tbl_eh_frame_hdr_avma = 0x2000\<rparr>"
    using parse_encode_hdr [of "[(0x40, 0x100), (0x10, 0x120)]" 0 "[]" True "0x2000"] ok by simp
qed

text \<open>Round trip through the header.  A header a linker writes for a list of rows,
  whatever follows it in the section, is accepted, and the table of the result is exactly
  that list of rows, each relative to the header's address in the tracee.\<close>

theorem eh_frame_hdr_roundtrip:
  assumes "length rows < 4294967296" and "slice_ok (encode_hdr ptr rows @ post)"
  shows "\<exists>t. eh_frame_table_parse oc (encode_hdr ptr rows @ post) avma = Ok t \<and>
    table_entries t (encode_hdr ptr rows @ post) =
      map (\<lambda>(pc, fde). (avma + scast pc, avma + scast fde)) rows"
  using parse_encode_hdr [OF assms] table_entries_encode_hdr [OF assms(1) refl] by blast

theorem eh_frame_hdr_roundtrip_witness:
  "\<exists>t. eh_frame_table_parse True (encode_hdr 7 [(0xfffff000, 0x100)] @ [9]) 0x2000 = Ok t \<and>
    table_entries t (encode_hdr 7 [(0xfffff000, 0x100)] @ [9]) = [(0x1000, 0x2100)]"
  using eh_frame_hdr_roundtrip [of "[(0xfffff000, 0x100)]" 7 "[9]" True "0x2000"]
  by (simp add: slice_ok_def encode_hdr_def)

text \<open>The header's own count is not trusted.  An \<open>sdata4\<close> count that is negative is
  sign-extended to a count of more than \<open>2 ^ 63\<close> entries, and is rejected as
  \<open>TableTruncated\<close>: the saturating arithmetic cannot wrap it into the header.\<close>

theorem eh_frame_hdr_negative_count:
  assumes "slice_ok hdr" and "hdr ! 0 = 1" and "hdr ! 2 = 0x0b" and "hdr ! 3 = 0x3b"
    and "enc_size (hdr ! 1) = Some n" and "n + 8 \<le> length hdr"
    and "sint (table_word hdr (4 + n)) < 0"
  shows "eh_frame_table_parse oc hdr avma =
    Err (TableTruncated (n + 8) (scast (table_word hdr (4 + n))) (length hdr))"
  by (rule parse_negative_count [OF assms])

theorem eh_frame_hdr_negative_count_witness:
  "eh_frame_table_parse True [1, 0x1b, 0x0b, 0x3b, 0, 0, 0, 0, 0xff, 0xff, 0xff, 0xff] 0 =
    Err (TableTruncated 12 (- 1) 12)"
  by (subst eh_frame_hdr_negative_count [where n = 4])
    (simp_all add: slice_ok_def enc_size_def eh_pe_defs table_word_def u32_from_le_def)

text \<open>Any header whose FDE count is encoded as \<open>udata2\<close>, \<open>sdata2\<close> or \<open>sdata8\<close> is reported as
  truncated, however long it is: \<open>read_unsigned\<close> does not read these encodings but \<open>enc_size\<close>
  knows them, so the error is \<open>FdeCountTruncated\<close> and not \<open>UnsupportedFdeCountEncoding\<close>.\<close>

theorem eh_frame_hdr_count_misreported:
  assumes "slice_ok hdr" and "hdr ! 0 = 1" and "hdr ! 2 AND 0x0f \<in> {0x02, 0x0a, 0x0c}"
    and "enc_size (hdr ! 1) = Some n" and "n + 4 \<le> length hdr"
  shows "\<exists>m. enc_size (hdr ! 2) = Some m \<and>
    eh_frame_table_parse oc hdr avma = Err (FdeCountTruncated (n + 4) m (length hdr))"
proof -
  have "hdr ! 2 \<noteq> DW_EH_PE_OMIT" using assms(3) by (auto simp: eh_pe_defs)
  with assms(3) obtain m where m: "enc_size (hdr ! 2) = Some m" and "\<And>bs. read_unsigned bs (hdr ! 2) = None"
    by (fastforce simp: enc_size_def read_unsigned_def eh_pe_defs)
  moreover have "n + 4 < usize_limit" "4 \<le> length hdr" using assms(1,5) by (simp_all add: slice_ok_def)
  ultimately show ?thesis
    using assms by (simp add: eh_frame_table_parse_def saturating_add_usize_def slice_from_def slice_ok_def
        Let_def add.commute)
qed

end
