(* ===== verification/Module_Sections.thy ===== *)
theory Module_Sections
  imports Eh_Frame_Table
begin

text \<open>
  \<open>module.rs\<close>, first part: the \<open>ModuleSectionInfo\<close> interface through which a loader
  hands over section ranges and bytes, its three implementors, and the byte range of a
  shared memory map.

  The Rust trait is a record of its methods over the implementor's state; a method that
  takes \<open>&mut self\<close> returns the state it leaves (\<open>Option::take\<close> empties the field).
  \<open>Range<u64>\<close> is a pair, byte-string section names are \<open>string\<close>s.  The \<open>object\<close>
  crate is not part of the repository: an object file is a record of the four answers the
  code asks it for.
\<close>

section \<open>The interface\<close>

type_synonym range_u64 = "u64 \<times> u64"

record ('i, 's) section_info =
  si_base_svma :: "'i \<Rightarrow> u64"
  si_section_svma_range :: "'i \<Rightarrow> string \<Rightarrow> range_u64 option \<times> 'i"
  si_section_data :: "'i \<Rightarrow> string \<Rightarrow> 's option \<times> 'i"
  si_segment_svma_range :: "'i \<Rightarrow> string \<Rightarrow> range_u64 option \<times> 'i"
  si_segment_data :: "'i \<Rightarrow> string \<Rightarrow> 's option \<times> 'i"

text \<open>The trait's default methods.\<close>

definition default_segment :: "'i \<Rightarrow> string \<Rightarrow> 'a option \<times> 'i" where
  "default_segment s name = (None, s)"

section \<open>Typed DWARF sections\<close>

record 's dwarf_module_sections =
  dms_base_svma :: u64
  dms_text_svma :: "range_u64 option"
  dms_text :: "'s option"
  dms_eh_frame_svma :: "range_u64 option"
  dms_eh_frame :: "'s option"
  dms_eh_frame_hdr_svma :: "range_u64 option"
  dms_eh_frame_hdr :: "'s option"

definition dwarf_section_svma_range ::
    "'s dwarf_module_sections \<Rightarrow> string \<Rightarrow> range_u64 option \<times> 's dwarf_module_sections" where
  "dwarf_section_svma_range s name =
     (if name = ''__text'' \<or> name = ''.text'' then (dms_text_svma s, s)
      else if name = ''__eh_frame'' \<or> name = ''.eh_frame'' then (dms_eh_frame_svma s, s)
      else if name = ''__eh_frame_hdr'' \<or> name = ''.eh_frame_hdr'' then
        (dms_eh_frame_hdr_svma s, s)
      else (None, s))"

definition dwarf_section_data ::
    "'s dwarf_module_sections \<Rightarrow> string \<Rightarrow> 's option \<times> 's dwarf_module_sections" where
  "dwarf_section_data s name =
     (if name = ''__text'' \<or> name = ''.text'' then (dms_text s, s\<lparr>dms_text := None\<rparr>)
      else if name = ''__eh_frame'' \<or> name = ''.eh_frame'' then
        (dms_eh_frame s, s\<lparr>dms_eh_frame := None\<rparr>)
      else if name = ''__eh_frame_hdr'' \<or> name = ''.eh_frame_hdr'' then
        (dms_eh_frame_hdr s, s\<lparr>dms_eh_frame_hdr := None\<rparr>)
      else (None, s))"

definition dwarf_section_info :: "('s dwarf_module_sections, 's) section_info" where
  "dwarf_section_info = \<lparr>si_base_svma = dms_base_svma,
     si_section_svma_range = dwarf_section_svma_range, si_section_data = dwarf_section_data,
     si_segment_svma_range = default_segment, si_segment_data = default_segment\<rparr>"

section \<open>Explicit sections\<close>

record 's explicit_module_section_info =
  ems_base_svma :: u64
  ems_text_svma :: "range_u64 option"
  ems_text :: "'s option"
  ems_stubs_svma :: "range_u64 option"
  ems_stub_helper_svma :: "range_u64 option"
  ems_got_svma :: "range_u64 option"
  ems_unwind_info :: "'s option"
  ems_eh_frame_svma :: "range_u64 option"
  ems_eh_frame :: "'s option"
  ems_eh_frame_hdr_svma :: "range_u64 option"
  ems_eh_frame_hdr :: "'s option"
  ems_debug_frame :: "'s option"
  ems_text_segment_svma :: "range_u64 option"
  ems_text_segment :: "'s option"

definition explicit_section_svma_range ::
    "'s explicit_module_section_info \<Rightarrow> string \<Rightarrow>
     range_u64 option \<times> 's explicit_module_section_info" where
  "explicit_section_svma_range s name =
     (if name = ''__text'' \<or> name = ''.text'' then (ems_text_svma s, s)
      else if name = ''__stubs'' then (ems_stubs_svma s, s)
      else if name = ''__stub_helper'' then (ems_stub_helper_svma s, s)
      else if name = ''__got'' \<or> name = ''.got'' then (ems_got_svma s, s)
      else if name = ''__eh_frame'' \<or> name = ''.eh_frame'' then (ems_eh_frame_svma s, s)
      else if name = ''__eh_frame_hdr'' \<or> name = ''.eh_frame_hdr'' then
        (ems_eh_frame_hdr_svma s, s)
      else (None, s))"

definition explicit_section_data ::
    "'s explicit_module_section_info \<Rightarrow> string \<Rightarrow> 's option \<times> 's explicit_module_section_info" where
  "explicit_section_data s name =
     (if name = ''__text'' \<or> name = ''.text'' then (ems_text s, s\<lparr>ems_text := None\<rparr>)
      else if name = ''__unwind_info'' then (ems_unwind_info s, s\<lparr>ems_unwind_info := None\<rparr>)
      else if name = ''__eh_frame'' \<or> name = ''.eh_frame'' then
        (ems_eh_frame s, s\<lparr>ems_eh_frame := None\<rparr>)
      else if name = ''__eh_frame_hdr'' \<or> name = ''.eh_frame_hdr'' then
        (ems_eh_frame_hdr s, s\<lparr>ems_eh_frame_hdr := None\<rparr>)
      else if name = ''__debug_frame'' \<or> name = ''.debug_frame'' then
        (ems_debug_frame s, s\<lparr>ems_debug_frame := None\<rparr>)
      else (None, s))"

definition explicit_segment_svma_range ::
    "'s explicit_module_section_info \<Rightarrow> string \<Rightarrow>
     range_u64 option \<times> 's explicit_module_section_info" where
  "explicit_segment_svma_range s name =
     (if name = ''__TEXT'' then (ems_text_segment_svma s, s) else (None, s))"

definition explicit_segment_data ::
    "'s explicit_module_section_info \<Rightarrow> string \<Rightarrow> 's option \<times> 's explicit_module_section_info" where
  "explicit_segment_data s name =
     (if name = ''__TEXT'' then (ems_text_segment s, s\<lparr>ems_text_segment := None\<rparr>) else (None, s))"

definition explicit_section_info :: "('s explicit_module_section_info, 's) section_info" where
  "explicit_section_info = \<lparr>si_base_svma = ems_base_svma,
     si_section_svma_range = explicit_section_svma_range, si_section_data = explicit_section_data,
     si_segment_svma_range = explicit_segment_svma_range, si_segment_data = explicit_segment_data\<rparr>"

section \<open>Memory-mapped object files\<close>

record mmap_bytes =
  mb_mmap :: bytes
  mb_start :: usize
  mb_end :: usize

definition mmap_bytes_new :: "bytes \<Rightarrow> usize \<Rightarrow> usize \<Rightarrow> mmap_bytes option" where
  "mmap_bytes_new mmap start stop =
     (if start \<le> stop \<and> stop \<le> length mmap
      then Some \<lparr>mb_mmap = mmap, mb_start = start, mb_end = stop\<rparr> else None)"

text \<open>\<open>usize::try_from\<close> of a \<open>u64\<close> does not fail on a 64-bit target.\<close>

definition from_file_range :: "bytes \<Rightarrow> u64 \<Rightarrow> u64 \<Rightarrow> mmap_bytes option" where
  "from_file_range mmap offset sz =
     (let start = unat offset; len = unat sz in
      case checked_add_usize start len of
        None \<Rightarrow> None
      | Some stop \<Rightarrow> mmap_bytes_new mmap start stop)"

definition mmap_bytes_deref :: "mmap_bytes \<Rightarrow> (bytes, 'e) outcome" where
  "mmap_bytes_deref b = slice_index (mb_mmap b) (mb_start b) (mb_end b)"

record object_section =
  os_address :: u64
  os_size :: u64
  os_file_range :: "(u64 \<times> u64) option"

record object_file =
  of_relative_address_base :: u64
  of_section_by_name_bytes :: "string \<Rightarrow> object_section option"

record mmap_object_sections =
  mos_file :: object_file
  mos_mmap :: bytes

definition mmap_section_svma_range ::
    "mmap_object_sections \<Rightarrow> string \<Rightarrow> range_u64 option \<times> mmap_object_sections" where
  "mmap_section_svma_range s name =
     (case of_section_by_name_bytes (mos_file s) name of
        None \<Rightarrow> (None, s)
      | Some sec \<Rightarrow> (Some (os_address sec, saturating_add_u64 (os_address sec) (os_size sec)), s))"

definition mmap_section_data ::
    "mmap_object_sections \<Rightarrow> string \<Rightarrow> mmap_bytes option \<times> mmap_object_sections" where
  "mmap_section_data s name =
     (case of_section_by_name_bytes (mos_file s) name of
        None \<Rightarrow> (None, s)
      | Some sec \<Rightarrow>
          (case os_file_range sec of
             None \<Rightarrow> (None, s)
           | Some (offset, sz) \<Rightarrow> (from_file_range (mos_mmap s) offset sz, s)))"

definition mmap_section_info :: "(mmap_object_sections, mmap_bytes) section_info" where
  "mmap_section_info = \<lparr>si_base_svma = (\<lambda>s. of_relative_address_base (mos_file s)),
     si_section_svma_range = mmap_section_svma_range, si_section_data = mmap_section_data,
     si_segment_svma_range = default_segment, si_segment_data = default_segment\<rparr>"

section \<open>Reading the sections out\<close>

definition section_range ::
    "('i, 's) section_info \<Rightarrow> 'i \<Rightarrow> string \<Rightarrow> string \<Rightarrow> range_u64 option \<times> 'i" where
  "section_range ops s primary alternate =
     (case si_section_svma_range ops s primary of
        (Some r, s) \<Rightarrow> (Some r, s)
      | (None, s) \<Rightarrow> si_section_svma_range ops s alternate)"

definition section_data ::
    "('i, 's) section_info \<Rightarrow> 'i \<Rightarrow> string \<Rightarrow> string \<Rightarrow> 's option \<times> 'i" where
  "section_data ops s primary alternate =
     (case si_section_data ops s primary of
        (Some d, s) \<Rightarrow> (Some d, s)
      | (None, s) \<Rightarrow> si_section_data ops s alternate)"

record 's module_parts =
  mp_name :: string
  mp_avma_range :: range_u64
  mp_base_avma :: u64
  mp_base_svma :: u64
  mp_text_svma :: "range_u64 option"
  mp_eh_frame_svma :: "range_u64 option"
  mp_eh_frame :: "'s option"
  mp_eh_frame_hdr_svma :: "range_u64 option"
  mp_eh_frame_hdr :: "'s option"

definition module_parts_from_section_info ::
    "('i, 's) section_info \<Rightarrow> string \<Rightarrow> range_u64 \<Rightarrow> u64 \<Rightarrow> 'i \<Rightarrow> 's module_parts" where
  "module_parts_from_section_info ops name avma_range base_avma s =
     (let base_svma = si_base_svma ops s;
          (text_svma, s) = section_range ops s ''.text'' ''__text'';
          (eh_frame_svma, s) = section_range ops s ''.eh_frame'' ''__eh_frame'';
          (eh_frame, s) = section_data ops s ''.eh_frame'' ''__eh_frame'';
          (eh_frame_hdr_svma, s) = section_range ops s ''.eh_frame_hdr'' ''__eh_frame_hdr'';
          (eh_frame_hdr, s) = section_data ops s ''.eh_frame_hdr'' ''__eh_frame_hdr''
      in \<lparr>mp_name = name, mp_avma_range = avma_range, mp_base_avma = base_avma,
          mp_base_svma = base_svma, mp_text_svma = text_svma, mp_eh_frame_svma = eh_frame_svma,
          mp_eh_frame = eh_frame, mp_eh_frame_hdr_svma = eh_frame_hdr_svma,
          mp_eh_frame_hdr = eh_frame_hdr\<rparr>)"

section \<open>The contract of an implementor\<close>

text \<open>\<open>.text\<close> and \<open>__text\<close> name the same section.\<close>

definition section_alias :: "string \<Rightarrow> string" where
  "section_alias name =
     (if take 2 name = ''__'' then drop 2 name
      else if take 1 name = ''.'' then drop 1 name else name)"

definition or_else :: "'a option \<Rightarrow> 'a option \<Rightarrow> 'a option" where
  "or_else a b = (case a of Some x \<Rightarrow> Some x | None \<Rightarrow> b)"

text \<open>
  What the module constructors rely on: asking for a range changes nothing, handing out
  bytes changes no range, a section that is not there stays not there, and handing out the
  bytes of one section does not touch another.
\<close>

locale section_source =
  fixes ops :: "('i, 's) section_info"
  assumes range_pure: "snd (si_section_svma_range ops s n) = s"
    and data_keeps_range:
      "fst (si_section_svma_range ops (snd (si_section_data ops s n)) m) =
       fst (si_section_svma_range ops s m)"
    and data_none: "fst (si_section_data ops s n) = None \<Longrightarrow> snd (si_section_data ops s n) = s"
    and data_other: "section_alias n \<noteq> section_alias m \<Longrightarrow>
      fst (si_section_data ops (snd (si_section_data ops s n)) m) = fst (si_section_data ops s m)"
begin

lemma section_range_eq:
  "section_range ops s p a =
     (or_else (fst (si_section_svma_range ops s p)) (fst (si_section_svma_range ops s a)), s)"
  using range_pure [of s p] range_pure [of s a]
  by (cases "si_section_svma_range ops s p"; cases "si_section_svma_range ops s a")
    (auto simp: section_range_def or_else_def split: option.split)

lemma section_data_eq:
  "fst (section_data ops s p a) =
     or_else (fst (si_section_data ops s p)) (fst (si_section_data ops s a))"
  using data_none [of s p]
  by (auto simp: section_data_def or_else_def split: prod.split option.split)

lemma section_data_keeps_range:
  "fst (si_section_svma_range ops (snd (section_data ops s p a)) m) =
   fst (si_section_svma_range ops s m)"
  using data_keeps_range [of s p m] data_none [of s p] data_keeps_range [of s a m]
  by (auto simp: section_data_def split: prod.split option.split)

lemma section_data_other:
  assumes "section_alias p \<noteq> section_alias m" and "section_alias a \<noteq> section_alias m"
  shows "fst (si_section_data ops (snd (section_data ops s p a)) m) = fst (si_section_data ops s m)"
  using data_other [OF assms(1), of s] data_other [OF assms(2), of s] data_none [of s p]
  by (auto simp: section_data_def split: prod.split option.split)

text \<open>The order of the queries does not matter: every part is that of the state handed in.\<close>

lemma module_parts_eq:
  "module_parts_from_section_info ops name r b s =
     \<lparr>mp_name = name, mp_avma_range = r, mp_base_avma = b, mp_base_svma = si_base_svma ops s,
      mp_text_svma = or_else (fst (si_section_svma_range ops s ''.text''))
        (fst (si_section_svma_range ops s ''__text'')),
      mp_eh_frame_svma = or_else (fst (si_section_svma_range ops s ''.eh_frame''))
        (fst (si_section_svma_range ops s ''__eh_frame'')),
      mp_eh_frame = or_else (fst (si_section_data ops s ''.eh_frame''))
        (fst (si_section_data ops s ''__eh_frame'')),
      mp_eh_frame_hdr_svma = or_else (fst (si_section_svma_range ops s ''.eh_frame_hdr''))
        (fst (si_section_svma_range ops s ''__eh_frame_hdr'')),
      mp_eh_frame_hdr = or_else (fst (si_section_data ops s ''.eh_frame_hdr''))
        (fst (si_section_data ops s ''__eh_frame_hdr''))\<rparr>"
proof -
  have other: "fst (si_section_data ops (snd (section_data ops s ''.eh_frame'' ''__eh_frame'')) m) =
      fst (si_section_data ops s m)" if "section_alias m = ''eh_frame_hdr''" for m
    using that by (intro section_data_other) (simp_all add: section_alias_def)
  have names: "section_alias ''.eh_frame_hdr'' = ''eh_frame_hdr''"
    "section_alias ''__eh_frame_hdr'' = ''eh_frame_hdr''"
    by (simp_all add: section_alias_def)
  show ?thesis
    by (simp add: module_parts_from_section_info_def section_range_eq section_data_eq
        section_data_keeps_range other names split_beta)
qed

end

text \<open>The sections the implementors tell apart, by number; 0 is any other name.\<close>

definition section_kind :: "string \<Rightarrow> nat" where
  "section_kind name =
     (if name = ''__text'' \<or> name = ''.text'' then 1
      else if name = ''__unwind_info'' then 2
      else if name = ''__eh_frame'' \<or> name = ''.eh_frame'' then 3
      else if name = ''__eh_frame_hdr'' \<or> name = ''.eh_frame_hdr'' then 4
      else if name = ''__debug_frame'' \<or> name = ''.debug_frame'' then 5
      else 0)"

lemma section_kind_alias:
  assumes "section_alias n \<noteq> section_alias m"
  shows "section_kind n = 0 \<or> section_kind n \<noteq> section_kind m"
proof -
  have names: "section_alias k = [''text'', ''unwind_info'', ''eh_frame'', ''eh_frame_hdr'',
      ''debug_frame''] ! (section_kind k - 1)" if "section_kind k \<noteq> 0" for k
    using that by (auto simp: section_kind_def section_alias_def split: if_splits)
  from assms names [of n] names [of m] show ?thesis by metis
qed

lemma dwarf_section_data_kind:
  "dwarf_section_data s n =
     (if section_kind n = 1 then (dms_text s, s\<lparr>dms_text := None\<rparr>)
      else if section_kind n = 3 then (dms_eh_frame s, s\<lparr>dms_eh_frame := None\<rparr>)
      else if section_kind n = 4 then (dms_eh_frame_hdr s, s\<lparr>dms_eh_frame_hdr := None\<rparr>)
      else (None, s))"
  by (simp add: dwarf_section_data_def section_kind_def)

lemma explicit_section_data_kind:
  "explicit_section_data s n =
     (if section_kind n = 1 then (ems_text s, s\<lparr>ems_text := None\<rparr>)
      else if section_kind n = 2 then (ems_unwind_info s, s\<lparr>ems_unwind_info := None\<rparr>)
      else if section_kind n = 3 then (ems_eh_frame s, s\<lparr>ems_eh_frame := None\<rparr>)
      else if section_kind n = 4 then (ems_eh_frame_hdr s, s\<lparr>ems_eh_frame_hdr := None\<rparr>)
      else if section_kind n = 5 then (ems_debug_frame s, s\<lparr>ems_debug_frame := None\<rparr>)
      else (None, s))"
  by (simp add: explicit_section_data_def section_kind_def)

interpretation dwarf_src: section_source dwarf_section_info
proof
  fix s :: "'s dwarf_module_sections" and n m
  show "snd (si_section_svma_range dwarf_section_info s n) = s"
    by (simp add: dwarf_section_info_def dwarf_section_svma_range_def)
  show "fst (si_section_svma_range dwarf_section_info
      (snd (si_section_data dwarf_section_info s n)) m) =
      fst (si_section_svma_range dwarf_section_info s m)"
    by (simp add: dwarf_section_info_def dwarf_section_svma_range_def dwarf_section_data_kind)
  show "snd (si_section_data dwarf_section_info s n) = s"
    if "fst (si_section_data dwarf_section_info s n) = None"
    using that by (auto simp: dwarf_section_info_def dwarf_section_data_kind split: if_splits)
  show "fst (si_section_data dwarf_section_info (snd (si_section_data dwarf_section_info s n)) m) =
      fst (si_section_data dwarf_section_info s m)"
    if "section_alias n \<noteq> section_alias m"
    using section_kind_alias [OF that] by (auto simp: dwarf_section_info_def dwarf_section_data_kind)
qed

lemma explicit_range_update:
  "fst (explicit_section_svma_range (s\<lparr>ems_text := d\<rparr>) m) = fst (explicit_section_svma_range s m)"
  "fst (explicit_section_svma_range (s\<lparr>ems_unwind_info := d\<rparr>) m) =
     fst (explicit_section_svma_range s m)"
  "fst (explicit_section_svma_range (s\<lparr>ems_eh_frame := d\<rparr>) m) = fst (explicit_section_svma_range s m)"
  "fst (explicit_section_svma_range (s\<lparr>ems_eh_frame_hdr := d\<rparr>) m) =
     fst (explicit_section_svma_range s m)"
  "fst (explicit_section_svma_range (s\<lparr>ems_debug_frame := d\<rparr>) m) =
     fst (explicit_section_svma_range s m)"
  by (simp_all add: explicit_section_svma_range_def)

lemma explicit_take_None:
  "ems_text s = None \<Longrightarrow> s\<lparr>ems_text := None\<rparr> = s"
  "ems_unwind_info s = None \<Longrightarrow> s\<lparr>ems_unwind_info := None\<rparr> = s"
  "ems_eh_frame s = None \<Longrightarrow> s\<lparr>ems_eh_frame := None\<rparr> = s"
  "ems_eh_frame_hdr s = None \<Longrightarrow> s\<lparr>ems_eh_frame_hdr := None\<rparr> = s"
  "ems_debug_frame s = None \<Longrightarrow> s\<lparr>ems_debug_frame := None\<rparr> = s"
  by (cases s, simp)+

lemma explicit_data_none:
  assumes "fst (explicit_section_data s n) = None"
  shows "snd (explicit_section_data s n) = s"
proof -
  consider "section_kind n = 1" | "section_kind n = 2" | "section_kind n = 3" | "section_kind n = 4"
    | "section_kind n = 5" | "section_kind n \<notin> {1, 2, 3, 4, 5}" by auto
  then show ?thesis
    by cases (use assms in \<open>simp_all only: explicit_section_data_kind explicit_take_None
        fst_conv snd_conv if_True if_False refl, simp_all\<close>)
qed

interpretation explicit_src: section_source explicit_section_info
proof
  fix s :: "'s explicit_module_section_info" and n m
  show "snd (si_section_svma_range explicit_section_info s n) = s"
    by (simp add: explicit_section_info_def explicit_section_svma_range_def)
  show "fst (si_section_svma_range explicit_section_info
      (snd (si_section_data explicit_section_info s n)) m) =
      fst (si_section_svma_range explicit_section_info s m)"
    by (simp add: explicit_section_info_def explicit_section_data_kind explicit_range_update)
  show "snd (si_section_data explicit_section_info s n) = s"
    if "fst (si_section_data explicit_section_info s n) = None"
    using that explicit_data_none [of s n] by (simp add: explicit_section_info_def)
  show "fst (si_section_data explicit_section_info (snd (si_section_data explicit_section_info s n)) m) =
      fst (si_section_data explicit_section_info s m)"
    if "section_alias n \<noteq> section_alias m"
    using section_kind_alias [OF that]
    by (auto simp: explicit_section_info_def explicit_section_data_kind)
qed

interpretation mmap_src: section_source mmap_section_info
  by unfold_locales
    (auto simp: mmap_section_info_def mmap_section_svma_range_def mmap_section_data_def
      split: option.splits)

text \<open>An explicit section bag with the sections of a typed one.\<close>

definition explicit_of_dwarf :: "'s dwarf_module_sections \<Rightarrow> 's explicit_module_section_info" where
  "explicit_of_dwarf d =
     \<lparr>ems_base_svma = dms_base_svma d, ems_text_svma = dms_text_svma d, ems_text = dms_text d,
      ems_stubs_svma = None, ems_stub_helper_svma = None, ems_got_svma = None,
      ems_unwind_info = None, ems_eh_frame_svma = dms_eh_frame_svma d,
      ems_eh_frame = dms_eh_frame d, ems_eh_frame_hdr_svma = dms_eh_frame_hdr_svma d,
      ems_eh_frame_hdr = dms_eh_frame_hdr d, ems_debug_frame = None,
      ems_text_segment_svma = None, ems_text_segment = None\<rparr>"

lemma or_else_same [simp]: "or_else a a = a"
  by (cases a) (simp_all add: or_else_def)

lemma dwarf_parts:
  "module_parts_from_section_info dwarf_section_info name r b d =
     \<lparr>mp_name = name, mp_avma_range = r, mp_base_avma = b, mp_base_svma = dms_base_svma d,
      mp_text_svma = dms_text_svma d, mp_eh_frame_svma = dms_eh_frame_svma d,
      mp_eh_frame = dms_eh_frame d, mp_eh_frame_hdr_svma = dms_eh_frame_hdr_svma d,
      mp_eh_frame_hdr = dms_eh_frame_hdr d\<rparr>"
  unfolding dwarf_src.module_parts_eq
  by (simp add: dwarf_section_info_def dwarf_section_svma_range_def dwarf_section_data_def)

lemma explicit_parts:
  "module_parts_from_section_info explicit_section_info name r b e =
     \<lparr>mp_name = name, mp_avma_range = r, mp_base_avma = b, mp_base_svma = ems_base_svma e,
      mp_text_svma = ems_text_svma e, mp_eh_frame_svma = ems_eh_frame_svma e,
      mp_eh_frame = ems_eh_frame e, mp_eh_frame_hdr_svma = ems_eh_frame_hdr_svma e,
      mp_eh_frame_hdr = ems_eh_frame_hdr e\<rparr>"
  unfolding explicit_src.module_parts_eq
  by (simp add: explicit_section_info_def explicit_section_svma_range_def explicit_section_data_def)

section \<open>Mapped byte ranges\<close>

definition mmap_bytes_ok :: "mmap_bytes \<Rightarrow> bool" where
  "mmap_bytes_ok b \<longleftrightarrow> mb_start b \<le> mb_end b \<and> mb_end b \<le> length (mb_mmap b)"

lemma mmap_bytes_new_ok: "mmap_bytes_new m a e = Some b \<Longrightarrow> mmap_bytes_ok b"
  by (auto simp: mmap_bytes_new_def mmap_bytes_ok_def split: if_splits)

lemma mmap_bytes_deref_ok:
  "mmap_bytes_ok b \<Longrightarrow>
     mmap_bytes_deref b = Ok (take (mb_end b - mb_start b) (drop (mb_start b) (mb_mmap b)))"
  by (simp add: mmap_bytes_deref_def slice_index_def slice_range_def mmap_bytes_ok_def)

lemma from_file_range_iff:
  assumes "slice_ok mmap"
  shows "from_file_range mmap off sz =
    (if unat off + unat sz \<le> length mmap
     then Some \<lparr>mb_mmap = mmap, mb_start = unat off, mb_end = unat off + unat sz\<rparr> else None)"
  using assms
  by (auto simp: from_file_range_def checked_add_usize_def mmap_bytes_new_def slice_ok_def
      Let_def)

text \<open>A section of a mapped object file is handed out exactly when its file range lies
  inside the file, whatever offset and size the (possibly hostile) section header claims;
  dereferencing it then never panics and gives exactly those bytes of the file.\<close>

theorem mmap_section_data_spec:
  assumes "slice_ok (mos_mmap s)"
    and "of_section_by_name_bytes (mos_file s) name = Some sec"
    and "os_file_range sec = Some (offset, sz)"
  shows "(if unat offset + unat sz \<le> length (mos_mmap s)
     then \<exists>b. mmap_section_data s name = (Some b, s) \<and>
       mmap_bytes_deref b = Ok (take (unat sz) (drop (unat offset) (mos_mmap s)))
     else mmap_section_data s name = (None, s))"
  using assms
  by (simp add: mmap_section_data_def from_file_range_iff mmap_bytes_deref_def slice_index_def
      slice_range_def)

theorem mmap_section_data_spec_witness:
  "\<exists>b. mmap_section_data \<lparr>mos_file = \<lparr>of_relative_address_base = 0,
         of_section_by_name_bytes = (\<lambda>n. Some \<lparr>os_address = 0x100, os_size = 2,
           os_file_range = Some (1, 2)\<rparr>)\<rparr>, mos_mmap = [7, 8, 9]\<rparr> ''.eh_frame'' =
       (Some b, \<lparr>mos_file = \<lparr>of_relative_address_base = 0,
         of_section_by_name_bytes = (\<lambda>n. Some \<lparr>os_address = 0x100, os_size = 2,
           os_file_range = Some (1, 2)\<rparr>)\<rparr>, mos_mmap = [7, 8, 9]\<rparr>) \<and>
     mmap_bytes_deref b = Ok [8, 9]"
  using mmap_section_data_spec [of "\<lparr>mos_file = \<lparr>of_relative_address_base = 0,
         of_section_by_name_bytes = (\<lambda>n. Some \<lparr>os_address = 0x100, os_size = 2,
           os_file_range = Some (1, 2)\<rparr>)\<rparr>, mos_mmap = [7, 8, 9]\<rparr>" "''.eh_frame''"
       "\<lparr>os_address = 0x100, os_size = 2, os_file_range = Some (1, 2)\<rparr>" 1 2]
  by (simp add: slice_ok_def)

end
