(* ===== verification/Dwarf_Leb128.thy ===== *)
theory Dwarf_Leb128
  imports Dwarf_Cursor
begin

unbundle bit_operations_syntax

text \<open>
  The LEB128 reads of \<open>dwarf.rs\<close> against the number the DWARF standard assigns to a
  byte block: a reference value for unsigned and for signed blocks, what the two loops
  return for every block that ends and for every block that does not, and the round
  trip with a reference encoder.
\<close>

section \<open>Reference values and encoders\<close>

text \<open>Seven bits per byte, least significant group first.\<close>

primrec uleb_val :: "bytes \<Rightarrow> nat" where
  "uleb_val [] = 0"
| "uleb_val (b # bs) = unat b mod 128 + 128 * uleb_val bs"

text \<open>The two's complement reading: bit 6 of the last byte is the sign.\<close>

definition sleb_val :: "bytes \<Rightarrow> int" where
  "sleb_val bs =
     int (uleb_val bs) - (if 64 \<le> unat (last bs) mod 128 then 128 ^ length bs else 0)"

text \<open>The continuation bit is set on every byte but the last.\<close>

fun leb_block :: "bytes \<Rightarrow> bool" where
  "leb_block [] = False"
| "leb_block [b] = (unat b < 128)"
| "leb_block (b # bs) = (128 \<le> unat b \<and> leb_block bs)"

fun uleb_encode :: "nat \<Rightarrow> bytes" where
  "uleb_encode n =
     (if n < 128 then [word_of_nat n]
      else word_of_nat (n mod 128 + 128) # uleb_encode (n div 128))"

declare uleb_encode.simps [simp del]

function sleb_encode :: "int \<Rightarrow> bytes" where
  "sleb_encode n =
     (if - 64 \<le> n \<and> n < 64 then [word_of_int (n mod 128)]
      else word_of_int (n mod 128 + 128) # sleb_encode (n div 128))"
  by pat_completeness auto
termination
  by (relation "measure (\<lambda>n. nat \<bar>n\<bar>)") auto

declare sleb_encode.simps [simp del]

section \<open>Bytes and bit groups\<close>

lemma byte_low7: "b AND 0x7f = (take_bit 7 b :: u8)"
  by (simp add: take_bit_eq_mask mask_eq_exp_minus_1)

lemma unat_low7: "unat (b AND 0x7f :: u8) = unat b mod 128"
  by (simp add: byte_low7 take_bit_eq_mod unat_mod_distrib)

lemma ucast_low7: "(ucast (b AND 0x7f :: u8) :: u64) = word_of_nat (unat b mod 128)"
  by (simp only: unat_low7 [symmetric] of_nat_unat)

lemma unat_u8_less: "unat (b :: u8) < 256"
  using unsigned_less [of b] by simp

lemma bit_u8_unat: "bit (b :: u8) n \<longleftrightarrow> odd (unat b div 2 ^ n)"
  by (simp add: bit_unsigned_iff bit_iff_odd [of "unat b", symmetric])

lemma byte_continues: "(b AND 0x80 = (0 :: u8)) \<longleftrightarrow> unat b < 128"
proof -
  have "(b AND 0x80 = (0 :: u8)) \<longleftrightarrow> \<not> bit b 7"
    using and_exp_eq_0_iff_not_bit [of b 7] by simp
  also have "\<dots> \<longleftrightarrow> even (unat b div 128)" by (simp add: bit_u8_unat)
  also have "\<dots> \<longleftrightarrow> unat b < 128"
  proof (cases "unat b < 128")
    case False
    then have "unat b div 128 = 1" using unat_u8_less [of b] by (intro div_nat_eqI) simp_all
    with False show ?thesis by simp
  qed simp
  finally show ?thesis .
qed

lemma byte_sign: "(b AND 0x40 \<noteq> (0 :: u8)) \<longleftrightarrow> 64 \<le> unat b mod 128"
proof -
  have "(b AND 0x40 = (0 :: u8)) \<longleftrightarrow> \<not> bit b 6"
    using and_exp_eq_0_iff_not_bit [of b 6] by simp
  also have "\<dots> \<longleftrightarrow> even (unat b div 64)" by (simp add: bit_u8_unat)
  also have "\<dots> \<longleftrightarrow> unat b mod 128 < 64"
    using mod_mult2_eq [of "unat b" 64 2] by (cases "even (unat b div 64)") (simp_all add: odd_iff_mod_2_eq_one)
  finally show ?thesis by auto
qed

text \<open>A word all of whose bits lie below \<open>s\<close>.\<close>

definition below :: "u64 \<Rightarrow> nat \<Rightarrow> bool" where
  "below w s \<longleftrightarrow> (\<forall>n. bit w n \<longrightarrow> n < s)"

lemma below_0 [simp]: "below 0 s"
  by (simp add: below_def)

lemma or_above: "below r s \<Longrightarrow> r OR push_bit s x = r + push_bit s x"
proof -
  assume "below r s"
  then have "r AND push_bit s x = 0"
    by (intro bit_word_eqI) (auto simp: below_def bit_and_iff bit_push_bit_iff)
  then show ?thesis by (rule disjunctive_add_eq_or [symmetric])
qed

lemma below_or_push:
  assumes "below r s" and "below x 7"
  shows "below (r OR push_bit s x) (s + 7)"
  unfolding below_def
proof (intro allI impI)
  fix n
  assume "bit (r OR push_bit s x) n"
  then have "bit r n \<or> s \<le> n \<and> bit x (n - s)"
    by (auto simp: bit_or_iff bit_push_bit_iff)
  then show "n < s + 7"
    using assms unfolding below_def by (metis add.commute less_diff_conv2 trans_less_add1)
qed

lemma below_low7: "below (ucast (b AND 0x7f :: u8)) 7"
  by (auto simp: below_def byte_low7 bit_ucast_iff bit_take_bit_iff)

text \<open>One turn of either loop: the group is added at its place and stays below the next.\<close>

lemma leb_group:
  assumes "below r s"
  shows "r OR push_bit s (ucast (b AND 0x7f :: u8)) =
      r + word_of_nat (unat b mod 128) * 2 ^ s"
    and "below (r OR push_bit s (ucast (b AND 0x7f :: u8))) (s + 7)"
proof -
  show "r OR push_bit s (ucast (b AND 0x7f :: u8)) = r + word_of_nat (unat b mod 128) * 2 ^ s"
    unfolding or_above [OF assms] by (simp only: push_bit_eq_mult ucast_low7)
  show "below (r OR push_bit s (ucast (b AND 0x7f :: u8))) (s + 7)"
    by (rule below_or_push [OF assms below_low7])
qed

section \<open>Blocks that end\<close>

lemma leb_block_Cons:
  "leb_block (b # bs) \<longleftrightarrow> (if bs = [] then unat b < 128 else 128 \<le> unat b \<and> leb_block bs)"
  by (cases bs) auto

text \<open>A cursor that stands before the bytes \<open>bs\<close>.\<close>

definition stands_before :: "cursor \<Rightarrow> bytes \<Rightarrow> bool" where
  "stands_before c bs \<longleftrightarrow>
     cursor_ok c \<and> take (length bs) (drop (cur_pos c) (cur_bytes c)) = bs"

lemma stands_before_Cons:
  assumes "stands_before c (b # bs)"
  shows "read_u8 oc c = Ok (b, c\<lparr>cur_pos := cur_pos c + 1\<rparr>)"
    and "stands_before (c\<lparr>cur_pos := cur_pos c + 1\<rparr>) bs"
proof -
  from assms have ok: "cursor_ok c"
    and tk: "take (Suc (length bs)) (drop (cur_pos c) (cur_bytes c)) = b # bs"
    by (simp_all add: stands_before_def)
  then obtain rest where rest: "drop (cur_pos c) (cur_bytes c) = b # rest"
    by (cases "drop (cur_pos c) (cur_bytes c)") auto
  then have lt: "cur_pos c < length (cur_bytes c)"
    by (metis drop_all list.distinct(1) not_less)
  with rest have nth: "cur_bytes c ! cur_pos c = b" and dr: "drop (cur_pos c + 1) (cur_bytes c) = rest"
    by (simp_all add: Cons_nth_drop_Suc [symmetric])
  from ok lt nth show "read_u8 oc c = Ok (b, c\<lparr>cur_pos := cur_pos c + 1\<rparr>)"
    by (simp add: read_u8_eq)
  from ok lt tk rest dr show "stands_before (c\<lparr>cur_pos := cur_pos c + 1\<rparr>) bs"
    by (simp add: stands_before_def cursor_ok_def)
qed

lemma uleb128_loop_block:
  assumes "leb_block bs" and "stands_before c bs" and "below r s"
    and "s + 7 * length bs < 71"
  shows "read_uleb128_loop oc r s c =
    Ok (r + word_of_nat (uleb_val bs) * 2 ^ s, c\<lparr>cur_pos := cur_pos c + length bs\<rparr>)"
  using assms
proof (induction bs arbitrary: c r s)
  case Nil
  then show ?case by simp
next
  case (Cons b bs)
  note rd = stands_before_Cons [OF Cons.prems(2)]
  note grp = leb_group [OF Cons.prems(3), of b]
  show ?case
  proof (cases "bs = []")
    case True
    with Cons.prems(1) have "b AND 0x80 = 0" by (simp add: byte_continues leb_block_Cons)
    with True rd show ?thesis
      by (simp add: read_uleb128_loop.simps [of oc r s c] Let_def grp(1))
  next
    case False
    with Cons.prems(1) have nz: "b AND 0x80 \<noteq> 0" and blk: "leb_block bs"
      by (simp_all add: byte_continues leb_block_Cons)
    have s: "\<not> 64 \<le> s + 7" and s': "s + 7 + 7 * length bs < 71"
      using Cons.prems(4) False by (cases bs; simp)+
    have "read_uleb128_loop oc r s c =
        read_uleb128_loop oc (r OR push_bit s (ucast (b AND 0x7f))) (s + 7)
          (c\<lparr>cur_pos := cur_pos c + 1\<rparr>)"
      using rd(1) nz s by (simp add: read_uleb128_loop.simps [of oc r s c] Let_def)
    also have "\<dots> = Ok (r + word_of_nat (unat b mod 128) * 2 ^ s +
        word_of_nat (uleb_val bs) * 2 ^ (s + 7), c\<lparr>cur_pos := cur_pos c + length (b # bs)\<rparr>)"
      using Cons.IH [OF blk rd(2) grp(2) s'] by (simp add: grp(1))
    finally show ?thesis by (simp add: algebra_simps power_add)
  qed
qed

lemma sleb_val_Cons:
  "bs \<noteq> [] \<Longrightarrow> sleb_val (b # bs) = int (unat b mod 128) + 128 * sleb_val bs"
  by (simp add: sleb_val_def)

lemma sleb_last_group:
  assumes "below r s"
  shows "(if s + 7 < 64 \<and> b AND 0x40 \<noteq> (0 :: u8)
      then (r OR push_bit s (ucast (b AND 0x7f))) OR push_bit (s + 7) (- 1)
      else r OR push_bit s (ucast (b AND 0x7f))) = r + word_of_int (sleb_val [b]) * 2 ^ s"
proof -
  note grp = leb_group [OF assms, of b]
  have big: "64 \<le> s + 7 \<Longrightarrow> (2 :: u64) ^ (s + 7) = 0"
    by (simp only: word_exp_length_eq_0 exp_eq_zero_iff) simp
  have "(r OR push_bit s (ucast (b AND 0x7f))) OR push_bit (s + 7) (- 1) =
      r + word_of_nat (unat b mod 128) * 2 ^ s - 2 ^ (s + 7)"
    unfolding or_above [OF grp(2)] by (subst grp(1)) (simp add: push_bit_eq_mult)
  then show ?thesis
    using big by (auto simp: grp(1) byte_sign sleb_val_def power_add algebra_simps)
qed

lemma sleb128_loop_block:
  assumes "leb_block bs" and "stands_before c bs" and "below r s"
    and "s + 7 * length bs < 71"
  shows "read_sleb128_loop oc r s c =
    Ok (r + word_of_int (sleb_val bs) * 2 ^ s, c\<lparr>cur_pos := cur_pos c + length bs\<rparr>)"
  using assms
proof (induction bs arbitrary: c r s)
  case Nil
  then show ?case by simp
next
  case (Cons b bs)
  note rd = stands_before_Cons [OF Cons.prems(2)]
  note grp = leb_group [OF Cons.prems(3), of b]
  show ?case
  proof (cases "bs = []")
    case True
    with Cons.prems(1) have "b AND 0x80 = 0" by (simp add: byte_continues leb_block_Cons)
    with True rd show ?thesis
      using sleb_last_group [OF Cons.prems(3), of b]
      by (simp add: read_sleb128_loop.simps [of oc r s c] Let_def)
  next
    case False
    with Cons.prems(1) have nz: "b AND 0x80 \<noteq> 0" and blk: "leb_block bs"
      by (simp_all add: byte_continues leb_block_Cons)
    have s: "\<not> 64 \<le> s + 7" and s': "s + 7 + 7 * length bs < 71"
      using Cons.prems(4) False by (cases bs; simp)+
    have "read_sleb128_loop oc r s c =
        read_sleb128_loop oc (r OR push_bit s (ucast (b AND 0x7f))) (s + 7)
          (c\<lparr>cur_pos := cur_pos c + 1\<rparr>)"
      using rd(1) nz s by (simp add: read_sleb128_loop.simps [of oc r s c] Let_def)
    also have "\<dots> = Ok (r + word_of_nat (unat b mod 128) * 2 ^ s +
        word_of_int (sleb_val bs) * 2 ^ (s + 7), c\<lparr>cur_pos := cur_pos c + length (b # bs)\<rparr>)"
      using Cons.IH [OF blk rd(2) grp(2) s'] by (simp add: grp(1))
    finally show ?thesis using False by (simp add: sleb_val_Cons algebra_simps power_add)
  qed
qed

section \<open>Blocks that do not end\<close>

lemma leb128_loops_overflow:
  assumes "\<forall>b \<in> set bs. 128 \<le> unat b" and "stands_before c bs" and "bs \<noteq> []"
    and "s + 7 * length bs < 71" and "64 \<le> s + 7 * length bs"
  shows "read_uleb128_loop oc r s c = Err (dwarf_error (cur_pos c + length bs) Leb128Overflow) \<and>
      read_sleb128_loop oc r s c = Err (dwarf_error (cur_pos c + length bs) Leb128Overflow)"
  using assms
proof (induction bs arbitrary: c r s)
  case (Cons b bs)
  note rd = stands_before_Cons [OF Cons.prems(2)]
  from Cons.prems(1) have nz: "b AND 0x80 \<noteq> 0" by (simp add: byte_continues)
  have last: "64 \<le> s + 7 \<longleftrightarrow> bs = []" using Cons.prems(4,5) by (cases bs) auto
  from rd nz last Cons.IH [OF _ rd(2)] Cons.prems show ?case
    by (auto simp: read_uleb128_loop.simps [of oc r s c] read_sleb128_loop.simps [of oc r s c]
        Let_def)
qed simp

lemma leb128_loops_truncated:
  assumes "\<forall>b \<in> set bs. 128 \<le> unat b" and "stands_before c bs"
    and "s + 7 * length bs < 64" and "cur_pos c + length bs = length (cur_bytes c)"
  shows "read_uleb128_loop oc r s c = Err (dwarf_error (cur_pos c + length bs)
      (Truncated (cur_pos c + length bs + 1) (length (cur_bytes c)))) \<and>
    read_sleb128_loop oc r s c = Err (dwarf_error (cur_pos c + length bs)
      (Truncated (cur_pos c + length bs + 1) (length (cur_bytes c))))"
  using assms
proof (induction bs arbitrary: c r s)
  case Nil
  then show ?case
    by (simp add: stands_before_def read_uleb128_loop.simps [of oc r s c]
        read_sleb128_loop.simps [of oc r s c] read_u8_eq)
next
  case (Cons b bs)
  note rd = stands_before_Cons [OF Cons.prems(2)]
  from Cons.prems(1) have nz: "b AND 0x80 \<noteq> 0" by (simp add: byte_continues)
  from rd nz Cons.IH [OF _ rd(2)] Cons.prems show ?case
    by (simp add: read_uleb128_loop.simps [of oc r s c] read_sleb128_loop.simps [of oc r s c]
        Let_def)
qed

section \<open>The reads as one equation each\<close>

text \<open>
  What a LEB128 read of the standard does at a cursor, with the value of a block as a
  parameter: ten continuation bytes are too many, a block cut off by the end of the
  slice is truncated, any other block is read whole.
\<close>

definition leb_read :: "(bytes \<Rightarrow> u64) \<Rightarrow> u64 reader" where
  "leb_read val c =
     (let rest = drop (cur_pos c) (cur_bytes c);
          n = length (takeWhile (\<lambda>b. 128 \<le> unat b) rest) in
      if 10 \<le> n then Err (dwarf_error (cur_pos c + 10) Leb128Overflow)
      else if n = length rest then
        Err (dwarf_error (cur_pos c + n) (Truncated (cur_pos c + n + 1) (length (cur_bytes c))))
      else Ok (val (take (n + 1) rest), c\<lparr>cur_pos := cur_pos c + (n + 1)\<rparr>))"

lemma leb_block_snoc: "leb_block (bs @ [b]) \<longleftrightarrow> (\<forall>x \<in> set bs. 128 \<le> unat x) \<and> unat b < 128"
  by (induction bs) (auto simp: leb_block_Cons)

lemma stands_before_take:
  "cursor_ok c \<Longrightarrow> n \<le> length (drop (cur_pos c) (cur_bytes c)) \<Longrightarrow>
     stands_before c (take n (drop (cur_pos c) (cur_bytes c)))"
  by (simp add: stands_before_def min_def)

lemma leb_reads_eq:
  assumes ok: "cursor_ok c"
  shows "read_uleb128 oc c = leb_read (\<lambda>bs. word_of_nat (uleb_val bs)) c"
    and "read_sleb128 oc c = leb_read (\<lambda>bs. word_of_int (sleb_val bs)) c"
proof -
  define rest where "rest = drop (cur_pos c) (cur_bytes c)"
  define n where "n = length (takeWhile (\<lambda>b :: u8. 128 \<le> unat b) rest)"
  have n_le: "n \<le> length rest" unfolding n_def by (rule length_takeWhile_le)
  have cont: "\<forall>b \<in> set (take m rest). 128 \<le> unat b" if "m \<le> n" for m
  proof -
    have "take n rest = takeWhile (\<lambda>b :: u8. 128 \<le> unat b) rest"
      unfolding n_def by (rule takeWhile_eq_take [symmetric])
    with set_take_subset_set_take [OF that, of rest] show ?thesis
      by (auto dest: set_takeWhileD)
  qed
  note eqs = leb_read_def rest_def [symmetric] n_def [symmetric] Let_def
  consider "10 \<le> n" | "n < 10" "n = length rest" | "n < 10" "n < length rest"
    using n_le by linarith
  then have "read_uleb128 oc c = leb_read (\<lambda>bs. word_of_nat (uleb_val bs)) c \<and>
      read_sleb128 oc c = leb_read (\<lambda>bs. word_of_int (sleb_val bs)) c"
  proof cases
    case 1
    with n_le have "length (take 10 rest) = 10" and "take 10 rest \<noteq> []" by auto
    moreover from 1 n_le ok have "stands_before c (take 10 rest)"
      unfolding rest_def by (intro stands_before_take) auto
    ultimately show ?thesis
      using leb128_loops_overflow [OF cont [OF 1], of c 0 oc 0] 1
      by (simp add: eqs read_uleb128_def read_sleb128_def)
  next
    case 2
    then have "stands_before c rest"
      using stands_before_take [OF ok, of n] by (simp add: rest_def)
    moreover have "cur_pos c + length rest = length (cur_bytes c)"
      using ok by (simp add: rest_def cursor_ok_def)
    ultimately show ?thesis
      using leb128_loops_truncated [OF cont [of n], of c 0 oc 0] 2
      by (simp add: eqs read_uleb128_def read_sleb128_def)
  next
    case 3
    have "\<not> 128 \<le> unat (rest ! n)"
      using 3(2) unfolding n_def by (rule nth_length_takeWhile)
    moreover from 3 have "take (n + 1) rest = take n rest @ [rest ! n]"
      by (simp add: take_Suc_conv_app_nth)
    ultimately have "leb_block (take (n + 1) rest)"
      using cont [of n] by (simp add: leb_block_snoc)
    moreover from 3 ok have "stands_before c (take (n + 1) rest)"
      unfolding rest_def by (intro stands_before_take) auto
    ultimately show ?thesis
      using uleb128_loop_block [of "take (n + 1) rest" c 0 0 oc]
        sleb128_loop_block [of "take (n + 1) rest" c 0 0 oc] 3
      by (simp add: eqs read_uleb128_def read_sleb128_def min_def)
  qed
  then show "read_uleb128 oc c = leb_read (\<lambda>bs. word_of_nat (uleb_val bs)) c"
    and "read_sleb128 oc c = leb_read (\<lambda>bs. word_of_int (sleb_val bs)) c" by simp_all
qed

section \<open>The reference encoders\<close>

lemma uleb_encode_block:
  "leb_block (uleb_encode n) \<and> uleb_val (uleb_encode n) = n"
proof (induction n rule: uleb_encode.induct)
  case (1 n)
  show ?case
  proof (cases "n < 128")
    case True
    then show ?thesis by (simp add: uleb_encode.simps [of n] unat_of_nat)
  next
    case False
    have "n mod 128 + 128 < 256" using mod_less_divisor [of 128 n] by linarith
    then have u: "unat (word_of_nat (n mod 128 + 128) :: u8) = n mod 128 + 128"
      by (subst unat_of_nat) simp
    have ne: "uleb_encode m \<noteq> []" for m by (subst uleb_encode.simps) simp
    from 1 False have "leb_block (uleb_encode (n div 128))"
      and "uleb_val (uleb_encode (n div 128)) = n div 128" by simp_all
    with False u ne show ?thesis
      by (simp add: uleb_encode.simps [of n] leb_block_Cons)
  qed
qed

lemma length_uleb_encode: "n < 128 ^ Suc k \<Longrightarrow> length (uleb_encode n) \<le> Suc k"
proof (induction k arbitrary: n)
  case 0
  then show ?case by (simp add: uleb_encode.simps [of n])
next
  case (Suc k)
  then have "n div 128 < 128 ^ Suc k" by (simp add: less_mult_imp_div_less)
  from Suc.IH [OF this] show ?case by (simp add: uleb_encode.simps [of n])
qed

lemma sleb_encode_block:
  "leb_block (sleb_encode n) \<and> sleb_val (sleb_encode n) = n"
proof (induction n rule: sleb_encode.induct)
  case (1 n)
  have m: "0 \<le> n mod 128" "n mod 128 < 128" by simp_all
  show ?case
  proof (cases "- 64 \<le> n \<and> n < 64")
    case True
    have u: "unat (word_of_int (n mod 128) :: u8) = nat (n mod 128)"
      using m by (simp add: unsigned_of_int take_bit_int_eq_self)
    have "n mod 128 = (if n < 0 then n + 128 else n)"
      using True mod_add_self2 [of n 128] by (auto simp: mod_pos_pos_trivial simp del: mod_add_self2)
    with True u m show ?thesis
      by (auto simp: sleb_encode.simps [of n] sleb_val_def nat_mod_distrib)
  next
    case False
    have u: "unat (word_of_int (n mod 128 + 128) :: u8) = nat (n mod 128) + 128"
      using m by (subst unsigned_of_int) (simp add: take_bit_int_eq_self nat_add_distrib)
    have ne: "sleb_encode k \<noteq> []" for k by (subst sleb_encode.simps) simp
    from 1 False have "leb_block (sleb_encode (n div 128))"
      and "sleb_val (sleb_encode (n div 128)) = n div 128" by simp_all
    with False u ne m show ?thesis
      by (auto simp: sleb_encode.simps [of n] leb_block_Cons sleb_val_Cons nat_mod_distrib)
  qed
qed

lemma length_sleb_encode:
  "- (64 * 128 ^ k) \<le> n \<Longrightarrow> n < 64 * 128 ^ k \<Longrightarrow> length (sleb_encode n) \<le> Suc k"
proof (induction k arbitrary: n)
  case 0
  then show ?case by (simp add: sleb_encode.simps [of n])
next
  case (Suc k)
  have "- x \<le> n div 128" and "n div 128 < x" if "- (128 * x) \<le> n" "n < 128 * x" for x
    using that div_mult_mod_eq [of n 128] pos_mod_bound [of 128 n] pos_mod_sign [of 128 n]
    by linarith+
  from this [of "64 * 128 ^ k"] Suc.prems
  have "- (64 * 128 ^ k) \<le> n div 128" and "n div 128 < 64 * 128 ^ k" by simp_all
  from Suc.IH [OF this] show ?case by (simp add: sleb_encode.simps [of n])
qed

section \<open>Properties\<close>

text \<open>C23: At any cursor inside a Rust slice, \<open>read_uleb128\<close> is the LEB128 read of the
  DWARF standard in both build profiles: ten continuation bytes give
  \<open>Leb128Overflow\<close>, a block cut off by the end of the slice gives \<open>Truncated\<close>
  with the exact offsets, and every other block gives its value modulo \<open>2 ^ 64\<close> and
  leaves the cursor just behind it.\<close>

theorem read_uleb128_spec:
  assumes "cursor_ok c"
  shows "read_uleb128 oc c = leb_read (\<lambda>bs. word_of_nat (uleb_val bs)) c"
  using leb_reads_eq(1) [OF assms] .

theorem read_uleb128_spec_witness:
  "read_uleb128 True \<lparr>cur_bytes = [0xe5, 0x8e, 0x26, 7], cur_pos = 0, cur_avma_base = 0\<rparr> =
     Ok (624485, \<lparr>cur_bytes = [0xe5, 0x8e, 0x26, 7], cur_pos = 3, cur_avma_base = 0\<rparr>)"
  by (subst read_uleb128_spec) (simp_all add: cursor_ok_def slice_ok_def leb_read_def Let_def)

text \<open>C24: At any cursor inside a Rust slice, \<open>read_sleb128\<close> returns the two's
  complement value of the block modulo \<open>2 ^ 64\<close> (sign extension from bit 6 of the
  last byte included), with the same two error cases as the unsigned read.\<close>

theorem read_sleb128_spec:
  assumes "cursor_ok c"
  shows "read_sleb128 oc c = leb_read (\<lambda>bs. word_of_int (sleb_val bs)) c"
  using leb_reads_eq(2) [OF assms] .

theorem read_sleb128_spec_witness:
  "read_sleb128 True \<lparr>cur_bytes = [0x78], cur_pos = 0, cur_avma_base = 0\<rparr> =
     Ok (- 8, \<lparr>cur_bytes = [0x78], cur_pos = 1, cur_avma_base = 0\<rparr>)"
  by (subst read_sleb128_spec)
    (simp_all add: cursor_ok_def slice_ok_def leb_read_def Let_def sleb_val_def)

text \<open>Round trip.  Wherever the shortest LEB128 encoding of a \<open>u64\<close> stands in a
  slice, \<open>read_uleb128\<close> gives the number back and stops exactly at the end of the
  encoding; \<open>read_sleb128\<close> does the same for every \<open>i64\<close>.\<close>

theorem leb128_roundtrip:
  assumes "slice_ok (pre @ uleb_encode (unat n) @ post)"
    and "slice_ok (pre @ sleb_encode (sint i) @ post)"
  shows "read_uleb128 oc \<lparr>cur_bytes = pre @ uleb_encode (unat n) @ post,
        cur_pos = length pre, cur_avma_base = a\<rparr> =
      Ok (n, \<lparr>cur_bytes = pre @ uleb_encode (unat n) @ post,
        cur_pos = length pre + length (uleb_encode (unat n)), cur_avma_base = a\<rparr>) \<and>
    read_sleb128 oc \<lparr>cur_bytes = pre @ sleb_encode (sint i) @ post,
        cur_pos = length pre, cur_avma_base = a\<rparr> =
      Ok (i, \<lparr>cur_bytes = pre @ sleb_encode (sint i) @ post,
        cur_pos = length pre + length (sleb_encode (sint i)), cur_avma_base = a\<rparr>)"
proof -
  have "unat n < 128 ^ Suc 9" by (rule less_trans [OF unat_u64_less]) simp
  from length_uleb_encode [OF this] have "length (uleb_encode (unat n)) \<le> 10" by simp
  moreover have "- (64 * 128 ^ 9) \<le> sint i" and "sint i < 64 * 128 ^ 9"
    using sint_ge [of i] sint_lt [of i] by simp_all
  from length_sleb_encode [OF this] have "length (sleb_encode (sint i)) \<le> 10" by simp
  ultimately show ?thesis
    using assms uleb_encode_block [of "unat n"] sleb_encode_block [of "sint i"]
      uleb128_loop_block [of "uleb_encode (unat n)" _ 0 0 oc]
      sleb128_loop_block [of "sleb_encode (sint i)" _ 0 0 oc]
    by (simp add: read_uleb128_def read_sleb128_def stands_before_def cursor_ok_def)
qed

theorem leb128_roundtrip_witness:
  "read_uleb128 True \<lparr>cur_bytes = [9] @ uleb_encode (unat (300 :: u64)) @ [1],
        cur_pos = length [9 :: u8], cur_avma_base = 0\<rparr> =
      Ok (300, \<lparr>cur_bytes = [9] @ uleb_encode (unat (300 :: u64)) @ [1],
        cur_pos = length [9 :: u8] + length (uleb_encode (unat (300 :: u64))), cur_avma_base = 0\<rparr>)"
  by (rule conjunct1 [OF leb128_roundtrip [of "[9]" 300 "[1]" "- 1"]])
    (simp_all add: slice_ok_def uleb_encode.simps sleb_encode.simps)

end
