(* ===== verification/Dwarf_Entries.thy ===== *)
theory Dwarf_Entries
  imports Dwarf_Leb128
begin

unbundle bit_operations_syntax

text \<open>
  \<open>dwarf.rs\<close>, second half: \<open>parse_cie\<close>, \<open>parse_fde\<close> and \<open>build_dwarf_cie_info\<close>.
  The statements of each parser are the definitions below in their order; a \<open>?\<close> of
  the source is an \<open>and_then\<close>.  Both parsers open with the same two statements
  (the entry length with its 64-bit escape, and the id or CIE pointer whose width
  depends on it), which are written once.
\<close>

section \<open>Parsed entries\<close>

record parsed_cie =
  cie_code_align :: u64
  cie_data_align :: i64
  cie_ret_addr_column :: u64
  cie_fde_encoding :: u8
  cie_lsda_encoding :: u8
  cie_personality :: u64
  cie_has_z :: bool
  cie_signal_frame :: bool
  cie_instr_offset_in_eh_frame :: usize
  cie_instr_len :: usize

record parsed_fde =
  fde_initial_pc :: u64
  fde_address_range :: u64
  fde_instr_offset_in_eh_frame :: usize
  fde_instr_len :: usize
  fde_lsda :: u64

record fde_parse_config =
  cfg_fde_encoding :: u8
  cfg_lsda_encoding :: u8
  cfg_has_z :: bool
  cfg_text_base :: u64
  cfg_data_base :: u64

section \<open>Statements the parsers share\<close>

text \<open>The length field: whether the entry is 64-bit DWARF, and its end offset.\<close>

definition read_entry_length :: "bool \<Rightarrow> (bool \<times> usize) reader" where
  "read_entry_length oc c =
     and_then (read_u32 oc c) (\<lambda>(len32, c).
     let is_dwarf64 = (len32 = 0xffffffff) in
     and_then
       (if is_dwarf64 then and_then (read_u64 oc c) (\<lambda>(l, c). Ok (unat l, c))
        else Ok (unat len32, c)) (\<lambda>(entry_len, c).
     and_then (ok_or (checked_add_usize (cur_pos c) entry_len)
        (dwarf_error (cur_pos c) EntryLengthOverflow)) (\<lambda>entry_end.
     Ok ((is_dwarf64, entry_end), c))))"

text \<open>The CIE id of a CIE, the CIE pointer of an FDE.\<close>

definition read_entry_id :: "bool \<Rightarrow> bool \<Rightarrow> u64 reader" where
  "read_entry_id oc is_dwarf64 c =
     (if is_dwarf64 then read_u64 oc c
      else and_then (read_u32 oc c) (\<lambda>(v, c). Ok (ucast v, c)))"

text \<open>The instruction range that ends the entry.\<close>

definition instr_range ::
    "bool \<Rightarrow> cursor \<Rightarrow> usize \<Rightarrow> (usize \<times> usize, dwarf_parse_error) outcome" where
  "instr_range oc c entry_end =
     (let instr_offset = cur_pos c in
      if entry_end > length (cur_bytes c) then
        Err (dwarf_error (cur_pos c) (Truncated entry_end (length (cur_bytes c))))
      else and_then (usize_sub oc entry_end instr_offset) (\<lambda>instr_len.
        Ok (instr_offset, instr_len)))"

section \<open>parse_cie\<close>

text \<open>The NUL-terminated augmentation string; indexing past the slice panics.\<close>

definition read_aug_string :: "bool \<Rightarrow> bytes reader" where
  "read_aug_string oc c =
     (let aug_start = cur_pos c in
      and_then (slice_from (cur_bytes c) aug_start) (\<lambda>rest.
      and_then (ok_or (position (\<lambda>b. b = 0) rest)
         (dwarf_error aug_start UnterminatedAugmentationString)) (\<lambda>n.
      and_then (usize_add oc aug_start n) (\<lambda>aug_end.
      and_then (slice_index (cur_bytes c) aug_start aug_end) (\<lambda>aug.
      and_then (usize_add oc aug_end 1) (\<lambda>p.
      Ok (aug, c\<lparr>cur_pos := p\<rparr>)))))))"

text \<open>The variables the augmentation loop assigns.\<close>

record aug_state =
  aug_fde_encoding :: u8
  aug_lsda_encoding :: u8
  aug_personality :: u64
  aug_signal_frame :: bool

definition aug_step :: "bool \<Rightarrow> u8 \<Rightarrow> aug_state \<Rightarrow> aug_state reader" where
  "aug_step oc ch st c =
     (if ch = 0x52 then
        and_then (read_u8 oc c) (\<lambda>(v, c). Ok (st\<lparr>aug_fde_encoding := v\<rparr>, c))
      else if ch = 0x4c then
        and_then (read_u8 oc c) (\<lambda>(v, c). Ok (st\<lparr>aug_lsda_encoding := v\<rparr>, c))
      else if ch = 0x50 then
        and_then (read_u8 oc c) (\<lambda>(enc, c).
        and_then (read_encoded_personality oc enc 0 0 0 c) (\<lambda>(v, c).
        Ok (st\<lparr>aug_personality := v\<rparr>, c)))
      else if ch = 0x53 then Ok (st\<lparr>aug_signal_frame := True\<rparr>, c)
      else if ch = 0x42 \<or> ch = 0x47 then Ok (st, c)
      else Err (dwarf_error (cur_pos c) (UnsupportedAugmentation ch)))"

primrec aug_loop :: "bool \<Rightarrow> bytes \<Rightarrow> aug_state \<Rightarrow> aug_state reader" where
  "aug_loop oc [] st c = Ok (st, c)"
| "aug_loop oc (ch # chs) st c =
     and_then (aug_step oc ch st c) (\<lambda>(st, c). aug_loop oc chs st c)"

definition aug_init :: aug_state where
  "aug_init = \<lparr>aug_fde_encoding = DW_EH_PE_ABSPTR, aug_lsda_encoding = DW_EH_PE_OMIT,
     aug_personality = 0, aug_signal_frame = False\<rparr>"

text \<open>\<open>has_z\<close> and the loop's variables; \<open>aug_start\<close> is where the string started.\<close>

definition parse_augmentation :: "bool \<Rightarrow> usize \<Rightarrow> bytes \<Rightarrow> (bool \<times> aug_state) reader" where
  "parse_augmentation oc aug_start aug c =
     (case aug of
        [] \<Rightarrow> Ok ((False, aug_init), c)
      | ch # chs \<Rightarrow>
          if ch = 0x7a then
            and_then (read_uleb128 oc c) (\<lambda>(_, c).
            and_then (aug_loop oc chs aug_init c) (\<lambda>(st, c). Ok ((True, st), c)))
          else Err (dwarf_error aug_start UnsupportedNonZAugmentation))"

definition check_address_size :: "bool \<Rightarrow> u8 \<Rightarrow> unit reader" where
  "check_address_size oc version c =
     (if version = 4 then
        and_then (read_u8 oc c) (\<lambda>(address_size, c).
        and_then (read_u8 oc c) (\<lambda>(segment_size, c).
        if address_size \<noteq> 8 \<or> segment_size \<noteq> 0 then
          Err (dwarf_error (cur_pos c - 2) (UnsupportedCieAddressSize address_size segment_size))
        else Ok ((), c)))
      else Ok ((), c))"

definition read_ret_addr_column :: "bool \<Rightarrow> u8 \<Rightarrow> u64 reader" where
  "read_ret_addr_column oc version c =
     (if version = 1 then and_then (read_u8 oc c) (\<lambda>(v, c). Ok (ucast v, c))
      else read_uleb128 oc c)"

definition parse_cie ::
    "bool \<Rightarrow> bytes \<Rightarrow> usize \<Rightarrow> u64 \<Rightarrow> (parsed_cie, dwarf_parse_error) outcome" where
  "parse_cie oc eh_frame_bytes cie_offset eh_frame_avma_base =
     (let c = \<lparr>cur_bytes = eh_frame_bytes, cur_pos = cie_offset,
               cur_avma_base = eh_frame_avma_base\<rparr> in
      and_then (read_entry_length oc c) (\<lambda>((is_dwarf64, entry_end), c).
      let cie_id_pos = cur_pos c in
      and_then (read_entry_id oc is_dwarf64 c) (\<lambda>(cie_id, c).
      if cie_id \<noteq> 0 then Err (dwarf_error cie_id_pos (BadCieId cie_id)) else
      and_then (read_u8 oc c) (\<lambda>(version, c).
      if version \<noteq> 1 \<and> version \<noteq> 3 \<and> version \<noteq> 4 then
        Err (dwarf_error (cur_pos c - 1) (UnsupportedCieVersion version)) else
      let aug_start = cur_pos c in
      and_then (read_aug_string oc c) (\<lambda>(aug, c).
      and_then (check_address_size oc version c) (\<lambda>(_, c).
      and_then (read_uleb128 oc c) (\<lambda>(code_align, c).
      and_then (read_sleb128 oc c) (\<lambda>(data_align, c).
      and_then (read_ret_addr_column oc version c) (\<lambda>(ret_addr_column, c).
      and_then (parse_augmentation oc aug_start aug c) (\<lambda>((has_z, st), c).
      and_then (instr_range oc c entry_end) (\<lambda>(instr_offset, instr_len).
      Ok \<lparr>cie_code_align = code_align, cie_data_align = data_align,
          cie_ret_addr_column = ret_addr_column, cie_fde_encoding = aug_fde_encoding st,
          cie_lsda_encoding = aug_lsda_encoding st, cie_personality = aug_personality st,
          cie_has_z = has_z, cie_signal_frame = aug_signal_frame st,
          cie_instr_offset_in_eh_frame = instr_offset, cie_instr_len = instr_len\<rparr>)))))))))))"

section \<open>parse_fde\<close>

definition read_lsda :: "bool \<Rightarrow> fde_parse_config \<Rightarrow> u64 \<Rightarrow> u64 reader" where
  "read_lsda oc config initial_pc c =
     (if cfg_lsda_encoding config \<noteq> DW_EH_PE_OMIT then
        read_encoded oc (cfg_lsda_encoding config) (cfg_text_base config)
          (cfg_data_base config) initial_pc c
      else Ok (0, c))"

text \<open>The \<open>if config.has_z\<close> block: the LSDA, and the cursor at the end of the sized data.\<close>

definition read_fde_augmentation ::
    "bool \<Rightarrow> fde_parse_config \<Rightarrow> usize \<Rightarrow> u64 \<Rightarrow> u64 reader" where
  "read_fde_augmentation oc config entry_end initial_pc c =
     (if cfg_has_z config then
        and_then (read_uleb128 oc c) (\<lambda>(len, c).
        let aug_data_len = unat len; aug_data_start = cur_pos c in
        and_then (ok_or (checked_add_usize aug_data_start aug_data_len)
           (dwarf_error aug_data_start EntryLengthOverflow)) (\<lambda>aug_data_end.
        if aug_data_end > entry_end then
          Err (dwarf_error aug_data_start (Truncated aug_data_end entry_end)) else
        and_then (read_lsda oc config initial_pc c) (\<lambda>(lsda, c).
        if cur_pos c > aug_data_end then
          Err (dwarf_error aug_data_start (Truncated (cur_pos c) aug_data_end))
        else Ok (lsda, c\<lparr>cur_pos := aug_data_end\<rparr>))))
      else Ok (0, c))"

definition parse_fde ::
    "bool \<Rightarrow> bytes \<Rightarrow> usize \<Rightarrow> u64 \<Rightarrow> fde_parse_config \<Rightarrow>
     (parsed_fde, dwarf_parse_error) outcome" where
  "parse_fde oc eh_frame_bytes fde_offset eh_frame_avma_base config =
     (let c = \<lparr>cur_bytes = eh_frame_bytes, cur_pos = fde_offset,
               cur_avma_base = eh_frame_avma_base\<rparr> in
      and_then (read_entry_length oc c) (\<lambda>((is_dwarf64, entry_end), c).
      let cie_ptr_pos = cur_pos c in
      and_then (read_entry_id oc is_dwarf64 c) (\<lambda>(cie_ptr, c).
      if cie_ptr = 0 then Err (dwarf_error cie_ptr_pos FdeCiePointerIsZero) else
      and_then (read_encoded oc (cfg_fde_encoding config) (cfg_text_base config)
         (cfg_data_base config) 0 c) (\<lambda>(initial_pc, c).
      let range_enc = cfg_fde_encoding config AND DW_EH_PE_FORMAT_MASK in
      and_then (read_encoded oc range_enc 0 0 0 c) (\<lambda>(address_range, c).
      and_then (read_fde_augmentation oc config entry_end initial_pc c) (\<lambda>(lsda, c).
      and_then (instr_range oc c entry_end) (\<lambda>(instr_offset, instr_len).
      Ok \<lparr>fde_initial_pc = initial_pc, fde_address_range = address_range,
          fde_instr_offset_in_eh_frame = instr_offset, fde_instr_len = instr_len,
          fde_lsda = lsda\<rparr>)))))))"

section \<open>build_dwarf_cie_info\<close>

definition build_dwarf_cie_info :: "parsed_cie \<Rightarrow> parsed_fde \<Rightarrow> u64 \<Rightarrow> dwarf_cie_info" where
  "build_dwarf_cie_info cie fde eh_frame_avma_base =
     (let cie_start = eh_frame_avma_base + word_of_nat (cie_instr_offset_in_eh_frame cie);
          cie_end = cie_start + word_of_nat (cie_instr_len cie);
          fde_start = eh_frame_avma_base + word_of_nat (fde_instr_offset_in_eh_frame fde);
          fde_end = fde_start + word_of_nat (fde_instr_len fde);
          flags = 0;
          flags = (if cie_has_z cie then flags OR FLAG_SIZED_AUGMENTATION else flags);
          flags = (if cie_signal_frame cie then flags OR FLAG_SIGNAL_FRAME else flags)
      in \<lparr>ci_cie_instr_start = cie_start, ci_cie_instr_end = cie_end,
          ci_fde_instr_start = fde_start, ci_fde_instr_end = fde_end,
          ci_code_align = cie_code_align cie, ci_data_align = cie_data_align cie,
          ci_ret_addr_column = cie_ret_addr_column cie, ci_handler = cie_personality cie,
          ci_abi = 0, ci_tag = 0, ci_fde_encoding = cie_fde_encoding cie,
          ci_lsda_encoding = cie_lsda_encoding cie, ci_flags = flags\<rparr>)"

section \<open>The statements as safe readers\<close>

interpretation rdlen: safe_reader read_entry_length
  unfolding read_entry_length_def [abs_def] Let_def
  by (intro safe_reader_intros safe_readers)

interpretation rdid: safe_reader "\<lambda>oc. read_entry_id oc d" for d
  unfolding read_entry_id_def [abs_def] by (intro safe_reader_intros safe_readers)

interpretation rdaddr: safe_reader "\<lambda>oc. check_address_size oc v" for v
  unfolding check_address_size_def [abs_def] by (intro safe_reader_intros safe_readers)

interpretation rdcol: safe_reader "\<lambda>oc. read_ret_addr_column oc v" for v
  unfolding read_ret_addr_column_def [abs_def] by (intro safe_reader_intros safe_readers)

interpretation rdlsda: safe_reader "\<lambda>oc. read_lsda oc config pc" for config pc
  unfolding read_lsda_def [abs_def] by (intro safe_reader_intros rdenc.safe_reader_axioms)

interpretation rdaug: safe_reader "\<lambda>oc. aug_step oc ch st" for ch st
  unfolding aug_step_def [abs_def]
  by (intro safe_reader_intros safe_readers rdpers.safe_reader_axioms)

lemma safe_aug_loop: "safe_reader (\<lambda>oc. aug_loop oc chs st)"
proof (induction chs arbitrary: st)
  case Nil
  then show ?case by (simp add: safe_reader_Ok)
next
  case (Cons ch chs)
  then show ?case by (simp add: safe_reader_bind rdaug.safe_reader_axioms)
qed

interpretation rdaugs: safe_reader "\<lambda>oc. parse_augmentation oc start aug" for start aug
  unfolding parse_augmentation_def [abs_def]
  by (cases aug) (auto intro!: safe_reader_intros safe_aug_loop safe_readers)

lemma read_aug_string_eq:
  assumes ok: "cursor_ok c"
  shows "read_aug_string oc c =
    (case position (\<lambda>b. b = 0) (drop (cur_pos c) (cur_bytes c)) of
       None \<Rightarrow> Err (dwarf_error (cur_pos c) UnterminatedAugmentationString)
     | Some n \<Rightarrow> Ok (take n (drop (cur_pos c) (cur_bytes c)),
         c\<lparr>cur_pos := cur_pos c + n + 1\<rparr>))"
proof (cases "position (\<lambda>b. b = 0) (drop (cur_pos c) (cur_bytes c))")
  case None
  with ok show ?thesis by (simp add: read_aug_string_def slice_from_def cursor_ok_def)
next
  case (Some n)
  then have n: "cur_pos c + n < length (cur_bytes c)"
    using position_Some [OF Some] ok by (auto simp: cursor_ok_def)
  with ok have "cur_pos c + n + 1 < usize_limit" by (simp add: cursor_ok_def slice_ok_def)
  with ok Some n show ?thesis
    by (simp add: read_aug_string_def slice_from_def cursor_ok_def slice_index_def
        slice_range_def Let_def)
qed

interpretation rdstr: safe_reader read_aug_string
proof
  fix c :: cursor and oc assume ok: "cursor_ok c"
  show "read_aug_string True c = read_aug_string False c"
    by (simp add: read_aug_string_eq [OF ok])
  show "defined (read_aug_string oc c)"
    by (simp add: read_aug_string_eq [OF ok] split: option.split)
  fix v c'
  assume "read_aug_string oc c = Ok (v, c')"
  then obtain n where "position (\<lambda>b. b = 0) (drop (cur_pos c) (cur_bytes c)) = Some n"
    and "c' = c\<lparr>cur_pos := cur_pos c + n + 1\<rparr>"
    by (auto simp: read_aug_string_eq [OF ok] split: option.splits)
  with position_Some [OF this(1)] ok show "cursor_advanced c c'"
    by (auto simp: cursor_advanced_def cursor_ok_def)
qed

section \<open>Whole entries\<close>

lemma instr_range_panic_only: "panic_only oc (instr_range oc c e)"
  by (simp add: instr_range_def Let_def panic_only_and_then)

lemma instr_range_Ok:
  assumes "instr_range oc c e = Ok (off, len)" and "cur_pos c < usize_limit"
  shows "off = cur_pos c \<and> e \<le> length (cur_bytes c) \<and> (off + len) mod usize_limit = e mod usize_limit \<and>
    (cur_pos c \<le> e \<longrightarrow> off + len = e) \<and> (oc \<longrightarrow> cur_pos c \<le> e)"
proof (cases "cur_pos c \<le> e")
  case True
  with assms show ?thesis by (auto simp: instr_range_def Let_def split: if_splits)
next
  case False
  with assms have len: "len = (usize_limit + e - cur_pos c) mod usize_limit"
    and "off = cur_pos c" "e \<le> length (cur_bytes c)" "\<not> oc"
    by (auto simp: instr_range_def usize_sub_def Let_def split: if_splits)
  moreover have "(cur_pos c + (usize_limit + e - cur_pos c)) mod usize_limit = e mod usize_limit"
    using assms(2) by simp
  ultimately show ?thesis using False by (simp add: mod_add_right_eq)
qed

lemma defined_read_fde_augmentation:
  assumes ok: "cursor_ok c"
  shows "defined (read_fde_augmentation oc config e pc c)"
proof -
  have "defined (and_then (ok_or (checked_add_usize (cur_pos c1) (unat len))
      (dwarf_error (cur_pos c1) EntryLengthOverflow)) (\<lambda>n.
      if n > e then Err (dwarf_error (cur_pos c1) (Truncated n e)) else
      and_then (read_lsda oc config pc c1) (\<lambda>(lsda, c).
      if cur_pos c > n then Err (dwarf_error (cur_pos c1) (Truncated (cur_pos c) n))
      else Ok (lsda, c\<lparr>cur_pos := n\<rparr>))))" if "cursor_ok c1" for len :: u64 and c1
    using that by (auto intro!: defined_and_then rdlsda.reader_then_defined)
  with ok show ?thesis
    unfolding read_fde_augmentation_def Let_def
    by (auto intro!: rduleb.reader_then_defined)
qed

text \<open>
  The sized block never leaves the cursor behind the entry; without \<open>has_z\<close> there is no
  such check.
\<close>

lemma read_fde_augmentation_Ok:
  assumes ok: "cursor_ok c" and "read_fde_augmentation oc config e pc c = Ok (lsda, c')"
  shows "cur_bytes c' = cur_bytes c" and "cur_pos c \<le> cur_pos c'"
    and "cfg_has_z config \<Longrightarrow> cur_pos c' \<le> e"
    and "cur_pos c' \<le> max e (length (cur_bytes c))"
proof -
  have "cur_bytes c' = cur_bytes c \<and> cur_pos c \<le> cur_pos c' \<and> cur_pos c' \<le> e"
    if "cfg_has_z config"
  proof -
    from that assms(2) obtain len c1 lsda' c2 n where
      1: "read_uleb128 oc c = Ok (len, c1)" and
      n: "checked_add_usize (cur_pos c1) (unat len) = Some n" "n \<le> e" and
      2: "read_lsda oc config pc c1 = Ok (lsda', c2)" and c': "c' = c2\<lparr>cur_pos := n\<rparr>"
      by (auto simp: read_fde_augmentation_def Let_def not_less split: if_splits)
    note adv1 = rduleb.reader_advances [OF ok 1]
    note adv2 = rdlsda.reader_advances [OF rduleb.reader_ok [OF ok 1] 2]
    with adv1 n c' show ?thesis
      by (auto simp: cursor_advanced_def checked_add_usize_def split: if_splits)
  qed
  moreover have "c' = c" if "\<not> cfg_has_z config"
    using that assms(2) by (simp add: read_fde_augmentation_def)
  ultimately show "cur_bytes c' = cur_bytes c" and "cur_pos c \<le> cur_pos c'"
    and "cfg_has_z config \<Longrightarrow> cur_pos c' \<le> e" and "cur_pos c' \<le> max e (length (cur_bytes c))"
    using ok by (cases "cfg_has_z config"; auto simp: cursor_ok_def)+
qed

text \<open>The cursor both parsers start from.\<close>

abbreviation entry_cursor :: "bytes \<Rightarrow> usize \<Rightarrow> u64 \<Rightarrow> cursor" where
  "entry_cursor bs off base \<equiv> \<lparr>cur_bytes = bs, cur_pos = off, cur_avma_base = base\<rparr>"

lemma entry_cursor_ok: "slice_ok bs \<Longrightarrow> off \<le> length bs \<Longrightarrow> cursor_ok (entry_cursor bs off base)"
  by (simp add: cursor_ok_def)

lemmas reader_panic_rules =
  rdlen.reader_then_panic_only rdid.reader_then_panic_only rd8.reader_then_panic_only
  rdstr.reader_then_panic_only rdaddr.reader_then_panic_only rduleb.reader_then_panic_only
  rdsleb.reader_then_panic_only rdcol.reader_then_panic_only rdaugs.reader_then_panic_only
  rdenc.reader_then_panic_only

lemma panic_only_then_Ok:
  "panic_only b m \<Longrightarrow> panic_only b (and_then m (\<lambda>(x, y). Ok (g x y)))"
  by (auto intro!: panic_only_and_then)

lemma fde_augmentation_then_panic_only:
  assumes "cursor_ok c"
    and "\<And>v c'. read_fde_augmentation oc config e pc c = Ok (v, c') \<Longrightarrow> panic_only b (f v c')"
  shows "panic_only b (and_then (read_fde_augmentation oc config e pc c) (\<lambda>(v, c'). f v c'))"
  using assms defined_read_fde_augmentation [OF assms(1), of oc config e pc]
  by (intro panic_only_and_then) (auto intro: panic_only_defined)

lemma parse_cie_panic_only:
  assumes "slice_ok bs" and "off \<le> length bs"
  shows "panic_only oc (parse_cie oc bs off base)"
  unfolding parse_cie_def Let_def
  by (auto intro!: reader_panic_rules panic_only_then_Ok instr_range_panic_only
      entry_cursor_ok assms)

lemma parse_fde_panic_only:
  assumes "slice_ok bs" and "off \<le> length bs"
  shows "panic_only (oc \<and> \<not> cfg_has_z config) (parse_fde oc bs off base config)"
proof -
  have range: "panic_only (oc \<and> \<not> cfg_has_z config) (instr_range oc c' e)"
    if "cursor_ok c" "read_fde_augmentation oc config e pc c = Ok (v, c')" for c c' e pc v
    using read_fde_augmentation_Ok(3) [OF that]
    by (auto simp: instr_range_def usize_sub_def Let_def)
  show ?thesis
    unfolding parse_fde_def Let_def
    by (auto intro!: reader_panic_rules panic_only_then_Ok fde_augmentation_then_panic_only
        entry_cursor_ok assms intro: range)
qed

lemma instr_range_thenE:
  assumes "and_then (instr_range oc c e) (\<lambda>(off, len). f off len) = Ok y"
  obtains off len where "instr_range oc c e = Ok (off, len)" and "f off len = Ok y"
  using assms by auto

lemma fde_augmentation_thenE:
  assumes "and_then (read_fde_augmentation oc config e pc c) (\<lambda>(v, c'). f v c') = Ok y"
  obtains v c' where "read_fde_augmentation oc config e pc c = Ok (v, c')" and "f v c' = Ok y"
  using assms by auto

lemmas reader_elims =
  fde_augmentation_thenE
  rdlen.reader_thenE rdid.reader_thenE rd8.reader_thenE rdstr.reader_thenE
  rdaddr.reader_thenE rduleb.reader_thenE rdsleb.reader_thenE rdcol.reader_thenE
  rdaugs.reader_thenE rdenc.reader_thenE

text \<open>
  The instruction range of an accepted entry: it starts inside the slice, and its end is
  the entry's end, exactly with overflow checks and modulo the word size without.
\<close>

definition range_ends_at :: "bool \<Rightarrow> usize \<Rightarrow> usize \<Rightarrow> usize \<Rightarrow> bool" where
  "range_ends_at oc off len e \<longleftrightarrow>
     (off + len) mod usize_limit = e \<and> (oc \<longrightarrow> off + len = e) \<and> (off \<le> e \<longrightarrow> off + len = e)"

lemma instr_range_ends:
  assumes "instr_range oc c e = Ok (off, len)" and "cursor_ok c"
  shows "off = cur_pos c" and "e \<le> length (cur_bytes c)" and "range_ends_at oc off len e"
proof -
  from assms(2) have p: "cur_pos c < usize_limit" by (simp add: cursor_ok_def slice_ok_def)
  note r = instr_range_Ok [OF assms(1) p]
  then show "off = cur_pos c" and "e \<le> length (cur_bytes c)" by simp_all
  with assms(2) have "e < usize_limit" by (simp add: cursor_ok_def slice_ok_def)
  with r show "range_ends_at oc off len e" by (auto simp: range_ends_at_def)
qed

lemma instr_range_lastE:
  assumes "and_then (instr_range oc c e) (\<lambda>(off, len). f off len) = Ok y"
    and "cursor_ok c" and "cursor_advanced c0 c"
  obtains off len where "f off len = Ok y" and "cur_pos c0 \<le> off"
    and "off \<le> length (cur_bytes c0)" and "e \<le> length (cur_bytes c0)"
    and "range_ends_at oc off len e"
proof -
  from assms(1) obtain off len where r: "instr_range oc c e = Ok (off, len)" and f: "f off len = Ok y"
    by auto
  from instr_range_ends [OF r assms(2)] assms(3) f that show ?thesis
    by (auto simp: cursor_advanced_def)
qed

lemma parse_cie_OkE:
  assumes "parse_cie oc bs off base = Ok cie" and "slice_ok bs" and "off \<le> length bs"
  obtains d e c1 where "read_entry_length oc (entry_cursor bs off base) = Ok ((d, e), c1)"
    and "off \<le> cie_instr_offset_in_eh_frame cie"
    and "cie_instr_offset_in_eh_frame cie \<le> length bs" and "e \<le> length bs"
    and "range_ends_at oc (cie_instr_offset_in_eh_frame cie) (cie_instr_len cie) e"
proof -
  note ok = entry_cursor_ok [OF assms(2,3), of base]
  from assms(1) ok cursor_advanced_refl [OF ok] show ?thesis
    unfolding parse_cie_def Let_def
    by (auto simp del: and_then_Ok_iff split: if_splits elim!: rdlen.reader_thenE
        rdid.reader_thenE rd8.reader_thenE rdstr.reader_thenE rdaddr.reader_thenE)
      (auto simp del: and_then_Ok_iff intro: that elim!: rduleb.reader_thenE
        rdsleb.reader_thenE rdcol.reader_thenE rdaugs.reader_thenE instr_range_lastE)
qed

lemma parse_fde_OkE:
  assumes "parse_fde oc bs off base config = Ok fde" and "slice_ok bs" and "off \<le> length bs"
  obtains d e c1 where "read_entry_length oc (entry_cursor bs off base) = Ok ((d, e), c1)"
    and "off \<le> fde_instr_offset_in_eh_frame fde"
    and "fde_instr_offset_in_eh_frame fde \<le> length bs" and "e \<le> length bs"
    and "range_ends_at oc (fde_instr_offset_in_eh_frame fde) (fde_instr_len fde) e"
    and "cfg_has_z config \<Longrightarrow> fde_instr_offset_in_eh_frame fde \<le> e"
proof -
  note ok = entry_cursor_ok [OF assms(2,3), of base]
  obtain d e c1 c2 c3 pc lsda off' len where
    1: "read_entry_length oc (entry_cursor bs off base) = Ok ((d, e), c1)" and
    adv: "cursor_advanced (entry_cursor bs off base) c2" and
    aug: "read_fde_augmentation oc config e pc c2 = Ok (lsda, c3)" and
    r: "instr_range oc c3 e = Ok (off', len)" and
    fde: "fde_instr_offset_in_eh_frame fde = off'" "fde_instr_len fde = len"
    using assms(1) ok cursor_advanced_refl [OF ok] unfolding parse_fde_def Let_def
    by (auto simp del: and_then_Ok_iff elim!: instr_range_thenE reader_elims split: if_splits)
  note a = read_fde_augmentation_Ok [OF cursor_advanced_ok [OF ok adv] aug]
  from r have "e \<le> length (cur_bytes c3)" by (auto simp: instr_range_def Let_def split: if_splits)
  with a adv ok have "cursor_ok c3" by (auto simp: cursor_ok_def cursor_advanced_def)
  from instr_range_ends [OF r this] a adv fde 1 that show ?thesis
    by (auto simp: cursor_advanced_def cursor_ok_def)
qed

lemma range_ends_at_avma:
  assumes "range_ends_at oc off len e"
  shows "(base :: u64) + word_of_nat off + word_of_nat len = base + word_of_nat e"
proof -
  have "word_of_nat off + word_of_nat len = (word_of_nat (off + len) :: u64)" by simp
  also have "\<dots> = word_of_nat ((off + len) mod usize_limit)"
    by (rule word_unat_eq_iff [THEN iffD2]) (simp add: unat_of_nat del: of_nat_add)
  finally show ?thesis using assms by (simp add: range_ends_at_def add.assoc)
qed

section \<open>The two build profiles\<close>

lemma checked_range_simps [simp]:
  "checked_range off len (Err e) = Err e"
  "checked_range off len (Ok x) = (if off x + len x < usize_limit then Ok x else Panic)"
  by (simp_all add: checked_range_def)

lemma instr_range_checked:
  assumes "slice_ok (cur_bytes c)" and "e \<le> length (cur_bytes c) \<Longrightarrow> cur_pos c < usize_limit"
    and "\<And>p n. off (g p n) = p" and "\<And>p n. len (g p n) = n"
  shows "and_then (instr_range True c e) (\<lambda>(p, n). Ok (g p n)) =
    checked_range off len (and_then (instr_range False c e) (\<lambda>(p, n). Ok (g p n)))"
proof (cases "e \<le> length (cur_bytes c)")
  case True
  with assms(1) have "e < usize_limit" by (simp add: slice_ok_def)
  moreover have "(usize_limit + e - cur_pos c) mod usize_limit = usize_limit + e - cur_pos c"
    if "e < cur_pos c" using that assms(2) True by simp
  ultimately show ?thesis
    using True assms by (auto simp: instr_range_def usize_sub_def Let_def)
next
  case False
  then show ?thesis by (simp add: instr_range_def Let_def)
qed

lemmas reader_checked_rules =
  rdlen.reader_then_checked rdid.reader_then_checked rd8.reader_then_checked
  rdstr.reader_then_checked rdaddr.reader_then_checked rduleb.reader_then_checked
  rdsleb.reader_then_checked rdcol.reader_then_checked rdaugs.reader_then_checked
  rdenc.reader_then_checked

lemma cursor_okD: "cursor_ok c \<Longrightarrow> slice_ok (cur_bytes c)" "cursor_ok c \<Longrightarrow> cur_pos c < usize_limit"
  by (simp_all add: cursor_ok_def slice_ok_def)

lemma parse_cie_checked:
  assumes "slice_ok bs" and "off \<le> length bs"
  shows "parse_cie True bs off base =
    checked_range cie_instr_offset_in_eh_frame cie_instr_len (parse_cie False bs off base)"
  unfolding parse_cie_def Let_def
  by (auto intro!: reader_checked_rules instr_range_checked entry_cursor_ok assms)
    (simp_all add: cursor_okD)

lemma ok_or_then_eq:
  "(\<And>v. m = Some v \<Longrightarrow> f v = g v) \<Longrightarrow> and_then (ok_or m e) f = and_then (ok_or m e) g"
  by (cases m) auto

lemma read_fde_augmentation_profile:
  assumes "cursor_ok c"
  shows "read_fde_augmentation True config e pc c = read_fde_augmentation False config e pc c"
  unfolding read_fde_augmentation_def Let_def
  using assms by (auto intro!: rduleb.reader_then_eq ok_or_then_eq rdlsda.reader_then_eq)

lemma fde_augmentation_then_checked:
  assumes ok: "cursor_ok c"
    and "\<And>v c'. slice_ok (cur_bytes c') \<Longrightarrow>
      (e \<le> length (cur_bytes c') \<Longrightarrow> cur_pos c' < usize_limit) \<Longrightarrow>
      f v c' = checked_range off len (g v c')"
  shows "and_then (read_fde_augmentation True config e pc c) (\<lambda>(v, c'). f v c') =
    checked_range off len (and_then (read_fde_augmentation False config e pc c) (\<lambda>(v, c'). g v c'))"
proof (cases "read_fde_augmentation False config e pc c")
  case (Ok x)
  obtain v c' where x: "x = (v, c')" by (cases x)
  note a = read_fde_augmentation_Ok [OF ok Ok [unfolded x]]
  from a ok have "slice_ok (cur_bytes c')" "e \<le> length (cur_bytes c') \<Longrightarrow> cur_pos c' < usize_limit"
    by (auto simp: cursor_ok_def slice_ok_def)
  from assms(2) [OF this] Ok x show ?thesis by (simp add: read_fde_augmentation_profile [OF ok])
qed (simp_all add: read_fde_augmentation_profile [OF ok] checked_range_def)

lemma parse_fde_checked:
  assumes "slice_ok bs" and "off \<le> length bs"
  shows "parse_fde True bs off base config =
    checked_range fde_instr_offset_in_eh_frame fde_instr_len (parse_fde False bs off base config)"
  unfolding parse_fde_def Let_def
  by (auto intro!: reader_checked_rules fde_augmentation_then_checked instr_range_checked
      entry_cursor_ok assms)

section \<open>A sample section\<close>

text \<open>
  A CIE with augmentation \<open>zR\<close> at offset 0 and an FDE at offset 20 that covers
  \<open>0x1000..0x1010\<close> when the section is at \<open>0x3000\<close>, each padded with three
  \<open>DW_CFA_nop\<close>.
\<close>

definition sample_eh_frame :: bytes where
  "sample_eh_frame =
     [0x10, 0, 0, 0, 0, 0, 0, 0, 1, 0x7a, 0x52, 0, 1, 0x78, 0x10, 1, 0x1b, 0, 0, 0,
      0x10, 0, 0, 0, 24, 0, 0, 0, 0xe4, 0xdf, 0xff, 0xff, 0x10, 0, 0, 0, 0, 0, 0, 0]"

definition sample_cie :: parsed_cie where
  "sample_cie = \<lparr>cie_code_align = 1, cie_data_align = - 8, cie_ret_addr_column = 16,
     cie_fde_encoding = 0x1b, cie_lsda_encoding = 0xff, cie_personality = 0,
     cie_has_z = True, cie_signal_frame = False, cie_instr_offset_in_eh_frame = 17,
     cie_instr_len = 3\<rparr>"

definition sample_config :: fde_parse_config where
  "sample_config = \<lparr>cfg_fde_encoding = 0x1b, cfg_lsda_encoding = 0xff, cfg_has_z = True,
     cfg_text_base = 0, cfg_data_base = 0\<rparr>"

definition sample_fde :: parsed_fde where
  "sample_fde = \<lparr>fde_initial_pc = 0x1000, fde_address_range = 0x10,
     fde_instr_offset_in_eh_frame = 37, fde_instr_len = 3, fde_lsda = 0\<rparr>"

lemmas entry_eval =
  read_entry_length_def read_entry_id_def read_u64_def read_u32_def read_u16_def read_slice_def
  read_u8_def slice_get_def slice_range_def slice_from_def slice_index_def checked_add_usize_def
  u16_from_le_def u32_from_le_def u64_from_le_def read_uleb128_def read_uleb128_loop.simps
  read_sleb128_def read_sleb128_loop.simps read_aug_string_def check_address_size_def
  read_ret_addr_column_def parse_augmentation_def aug_step_def aug_init_def
  read_encoded_personality_def read_encoded_def read_encoded_impl_def read_format_def
  eh_pe_defs current_avma_def instr_range_def usize_sub_def Let_def

lemma sample_slice_ok: "slice_ok sample_eh_frame"
  by (simp add: slice_ok_def sample_eh_frame_def)

lemma sample_cie_parses: "parse_cie oc sample_eh_frame 0 0x3000 = Ok sample_cie"
  by (simp add: parse_cie_def sample_eh_frame_def sample_cie_def entry_eval mask_eq_exp_minus_1)

lemma sample_fde_parses: "parse_fde oc sample_eh_frame 20 0x3000 sample_config = Ok sample_fde"
  by (simp add: parse_fde_def sample_eh_frame_def sample_fde_def sample_config_def entry_eval
      read_fde_augmentation_def read_lsda_def)

section \<open>Properties\<close>

text \<open>C16: Parsing any bytes is safe.  At every offset inside a Rust slice neither entry
  parser has undefined behaviour, in a release build both return a value or an error for
  arbitrary (hostile) bytes, and an FDE whose CIE has a sized augmentation is parsed
  without a panic in every build profile.\<close>

theorem parse_entries_safe:
  assumes "slice_ok bs" and "off \<le> length bs"
  shows "parse_cie oc bs off base \<noteq> UB \<and> parse_fde oc bs off base config \<noteq> UB \<and>
    defined (parse_cie False bs off base) \<and> defined (parse_fde False bs off base config) \<and>
    (cfg_has_z config \<longrightarrow> defined (parse_fde True bs off base config))"
  using parse_cie_panic_only [OF assms, of oc base] parse_cie_panic_only [OF assms, of False base]
    parse_fde_panic_only [OF assms, of oc config base]
    parse_fde_panic_only [OF assms, of False config base]
    parse_fde_panic_only [OF assms, of True config base]
  by auto

theorem parse_entries_safe_witness:
  "parse_cie True [0xff, 0xff, 0xff, 0xff, 0x80] 1 0 \<noteq> UB \<and>
    defined (parse_cie False [0xff, 0xff, 0xff, 0xff, 0x80] 1 0) \<and>
    defined (parse_fde True [0xff, 0xff, 0xff, 0xff, 0x80] 1 0 sample_config)"
  using parse_entries_safe [of "[0xff, 0xff, 0xff, 0xff, 0x80]" 1 True 0 sample_config]
  by (simp add: slice_ok_def sample_config_def)

text \<open>C25: The build profiles agree.  A build with overflow checks gives the result of the
  release build for every input, except that an entry whose declared length ends before
  its own fields (so that the instruction length wraps past the end of \<open>usize\<close>) is a
  panic instead of a value.\<close>

theorem parse_entries_profiles:
  assumes "slice_ok bs" and "off \<le> length bs"
  shows "parse_cie True bs off base =
      checked_range cie_instr_offset_in_eh_frame cie_instr_len (parse_cie False bs off base) \<and>
    parse_fde True bs off base config =
      checked_range fde_instr_offset_in_eh_frame fde_instr_len
        (parse_fde False bs off base config)"
  using parse_cie_checked [OF assms] parse_fde_checked [OF assms] by (rule conjI)

theorem parse_entries_profiles_witness:
  "parse_cie True sample_eh_frame 0 0x3000 =
     checked_range cie_instr_offset_in_eh_frame cie_instr_len
       (parse_cie False sample_eh_frame 0 0x3000) \<and>
   parse_cie False sample_eh_frame 0 0x3000 = Ok sample_cie"
  using parse_entries_profiles [of sample_eh_frame 0 "0x3000" sample_config, OF sample_slice_ok]
  by (simp add: sample_cie_parses)

text \<open>C17: The addresses handed to libunwind's DWARF interpreter.  When a CIE and an FDE of
  one \<open>.eh_frame\<close> section parse, the instruction streams in the \<open>dwarf_cie_info\<close> end
  exactly at the ends the two length fields declare, both ends lie inside the section, both
  starts lie inside the section at or behind their entry, and the start of the FDE stream
  is not behind its end when the augmentation is sized.\<close>

theorem dwarf_cie_info_ranges:
  assumes "slice_ok bs" and "coff \<le> length bs" and "foff \<le> length bs"
    and "parse_cie oc bs coff base = Ok cie" and "parse_fde oc bs foff base config = Ok fde"
    and "ci = build_dwarf_cie_info cie fde base"
  shows "\<exists>d e c d' e' c' p q.
    read_entry_length oc (entry_cursor bs coff base) = Ok ((d, e), c) \<and> e \<le> length bs \<and>
    read_entry_length oc (entry_cursor bs foff base) = Ok ((d', e'), c') \<and> e' \<le> length bs \<and>
    ci_cie_instr_end ci = base + word_of_nat e \<and> ci_fde_instr_end ci = base + word_of_nat e' \<and>
    ci_cie_instr_start ci = base + word_of_nat p \<and> coff \<le> p \<and> p \<le> length bs \<and>
    ci_fde_instr_start ci = base + word_of_nat q \<and> foff \<le> q \<and> q \<le> length bs \<and>
    (oc \<longrightarrow> p \<le> e \<and> q \<le> e') \<and> (cfg_has_z config \<longrightarrow> q \<le> e')"
proof -
  obtain d e c where cie:
    "read_entry_length oc (entry_cursor bs coff base) = Ok ((d, e), c)"
    "coff \<le> cie_instr_offset_in_eh_frame cie" "cie_instr_offset_in_eh_frame cie \<le> length bs"
    "e \<le> length bs" "range_ends_at oc (cie_instr_offset_in_eh_frame cie) (cie_instr_len cie) e"
    using parse_cie_OkE [OF assms(4,1,2)] by metis
  obtain d' e' c' where fde:
    "read_entry_length oc (entry_cursor bs foff base) = Ok ((d', e'), c')"
    "foff \<le> fde_instr_offset_in_eh_frame fde" "fde_instr_offset_in_eh_frame fde \<le> length bs"
    "e' \<le> length bs" "range_ends_at oc (fde_instr_offset_in_eh_frame fde) (fde_instr_len fde) e'"
    "cfg_has_z config \<Longrightarrow> fde_instr_offset_in_eh_frame fde \<le> e'"
    using parse_fde_OkE [OF assms(5,1,3)] by metis
  have le: "p \<le> x" if "range_ends_at True p n x" for p n x
    using that by (auto simp: range_ends_at_def)
  show ?thesis
  proof (intro exI conjI)
    show "ci_cie_instr_start ci = base + word_of_nat (cie_instr_offset_in_eh_frame cie)"
      "ci_fde_instr_start ci = base + word_of_nat (fde_instr_offset_in_eh_frame fde)"
      by (simp_all add: assms(6) build_dwarf_cie_info_def Let_def)
    show "ci_cie_instr_end ci = base + word_of_nat e" "ci_fde_instr_end ci = base + word_of_nat e'"
      using range_ends_at_avma [OF cie(5)] range_ends_at_avma [OF fde(5)]
      by (simp_all add: assms(6) build_dwarf_cie_info_def Let_def)
    show "oc \<longrightarrow> cie_instr_offset_in_eh_frame cie \<le> e \<and> fde_instr_offset_in_eh_frame fde \<le> e'"
      using le cie(5) fde(5) by (cases oc) simp_all
  qed (use cie fde in auto)
qed

theorem dwarf_cie_info_ranges_witness:
  "\<exists>d e c d' e' c' p q.
    read_entry_length True (entry_cursor sample_eh_frame 0 0x3000) = Ok ((d, e), c) \<and>
    e \<le> length sample_eh_frame \<and>
    read_entry_length True (entry_cursor sample_eh_frame 20 0x3000) = Ok ((d', e'), c') \<and>
    e' \<le> length sample_eh_frame \<and>
    ci_cie_instr_end (build_dwarf_cie_info sample_cie sample_fde 0x3000) = 0x3000 + word_of_nat e \<and>
    ci_fde_instr_end (build_dwarf_cie_info sample_cie sample_fde 0x3000) = 0x3000 + word_of_nat e' \<and>
    ci_cie_instr_start (build_dwarf_cie_info sample_cie sample_fde 0x3000) = 0x3000 + word_of_nat p \<and>
    0 \<le> p \<and> p \<le> length sample_eh_frame \<and>
    ci_fde_instr_start (build_dwarf_cie_info sample_cie sample_fde 0x3000) = 0x3000 + word_of_nat q \<and>
    20 \<le> q \<and> q \<le> length sample_eh_frame \<and>
    (True \<longrightarrow> p \<le> e \<and> q \<le> e') \<and> (cfg_has_z sample_config \<longrightarrow> q \<le> e')"
  by (rule dwarf_cie_info_ranges [OF _ _ _ sample_cie_parses sample_fde_parses refl])
    (simp_all add: slice_ok_def sample_eh_frame_def)

text \<open>The case where the profiles differ is reachable.  A CIE that declares a length of
  4 bytes (its id alone) but is followed by more section data makes \<open>parse_cie\<close> compute
  \<open>entry_end - instr_offset\<close> with \<open>entry_end < instr_offset\<close>: a panic with overflow
  checks, and an instruction length of almost \<open>2 ^ 64\<close> in a release build.\<close>

theorem parse_cie_short_length:
  "parse_cie True [4, 0, 0, 0, 0, 0, 0, 0, 1, 0, 1, 0x78, 0x10] 0 0x3000 = Panic \<and>
   (\<exists>cie. parse_cie False [4, 0, 0, 0, 0, 0, 0, 0, 1, 0, 1, 0x78, 0x10] 0 0x3000 = Ok cie \<and>
     cie_instr_offset_in_eh_frame cie = 13 \<and> cie_instr_len cie = 2 ^ 64 - 5)"
  by (simp add: parse_cie_def entry_eval)

end
