(* ===== verification/Btree.thy ===== *)
theory Btree
  imports Rust_Prelude
begin

text \<open>
  The part of \<open>std::collections::BTreeMap\<close> the crate uses, as association lists with
  strictly increasing keys, and its contract as a locale.

  The module registry, the redirect table and the function cache all query their map
  in one way: \<open>range(..=k).next_back()\<close>, the entry with the greatest key not above
  \<open>k\<close>, followed by a test that \<open>k\<close> lies below the entry's upper end.  The locale
  \<open>interval_index\<close> states when that query finds exactly the interval that holds
  \<open>k\<close>; its lemmas are proved once and reach the three clients by interpretation.
\<close>

section \<open>Maps with ordered keys\<close>

type_synonym ('k, 'v) btree = "('k \<times> 'v) list"

fun bt_get :: "'k::linorder \<Rightarrow> ('k, 'v) btree \<Rightarrow> 'v option" where
  "bt_get k [] = None"
| "bt_get k (e # m) = (if fst e = k then Some (snd e) else bt_get k m)"

fun bt_insert :: "'k::linorder \<Rightarrow> 'v \<Rightarrow> ('k, 'v) btree \<Rightarrow> ('k, 'v) btree" where
  "bt_insert k v [] = [(k, v)]"
| "bt_insert k v (e # m) =
     (if fst e < k then e # bt_insert k v m
      else if fst e = k then (k, v) # m
      else (k, v) # e # m)"

text \<open>\<open>remove\<close> gives back the value it removed.\<close>

fun bt_remove :: "'k::linorder \<Rightarrow> ('k, 'v) btree \<Rightarrow> 'v option \<times> ('k, 'v) btree" where
  "bt_remove k [] = (None, [])"
| "bt_remove k (e # m) =
     (if fst e = k then (Some (snd e), m)
      else (let (r, m') = bt_remove k m in (r, e # m')))"

text \<open>\<open>range(..=k).next_back()\<close>.\<close>

fun bt_floor :: "'k::linorder \<Rightarrow> ('k, 'v) btree \<Rightarrow> ('k \<times> 'v) option" where
  "bt_floor k [] = None"
| "bt_floor k (e # m) =
     (if fst e \<le> k then
        (case bt_floor k m of None \<Rightarrow> Some e | Some e' \<Rightarrow> Some e')
      else None)"

definition bt_values :: "('k, 'v) btree \<Rightarrow> 'v list" where
  "bt_values m = map snd m"

definition bt_wf :: "('k::linorder, 'v) btree \<Rightarrow> bool" where
  "bt_wf m \<longleftrightarrow> sorted_wrt (<) (map fst m)"

text \<open>The intervals \<open>[k, upper v)\<close> of the entries do not overlap.\<close>

definition ivals_disjoint :: "('k \<Rightarrow> 'v option) \<Rightarrow> ('v \<Rightarrow> 'k::linorder) \<Rightarrow> bool" where
  "ivals_disjoint f upper \<longleftrightarrow>
     (\<forall>a v b w. f a = Some v \<longrightarrow> f b = Some w \<longrightarrow> a < b \<longrightarrow> upper v \<le> b)"

section \<open>The contract of an ordered map\<close>

locale ordered_map =
  fixes new_map :: "'m"
    and get :: "'k::linorder \<Rightarrow> 'm \<Rightarrow> 'v option"
    and put :: "'k \<Rightarrow> 'v \<Rightarrow> 'm \<Rightarrow> 'm"
    and del :: "'k \<Rightarrow> 'm \<Rightarrow> 'v option \<times> 'm"
    and floor_entry :: "'k \<Rightarrow> 'm \<Rightarrow> ('k \<times> 'v) option"
    and wf_map :: "'m \<Rightarrow> bool"
  assumes wf_new: "wf_map new_map"
    and get_new: "get k new_map = None"
    and wf_put: "wf_map m \<Longrightarrow> wf_map (put k v m)"
    and get_put: "wf_map m \<Longrightarrow> get j (put k v m) = (if j = k then Some v else get j m)"
    and wf_del: "wf_map m \<Longrightarrow> wf_map (snd (del k m))"
    and get_del: "wf_map m \<Longrightarrow> get j (snd (del k m)) = (if j = k then None else get j m)"
    and del_result: "wf_map m \<Longrightarrow> fst (del k m) = get k m"
    and floor_Some: "wf_map m \<Longrightarrow> floor_entry k m = Some (a, v) \<longleftrightarrow>
        get a m = Some v \<and> a \<le> k \<and> (\<forall>b w. get b m = Some w \<longrightarrow> b \<le> k \<longrightarrow> b \<le> a)"
    and floor_None: "wf_map m \<Longrightarrow> floor_entry k m = None \<longleftrightarrow>
        (\<forall>b w. get b m = Some w \<longrightarrow> k < b)"
begin

lemma floor_put_hit:
  assumes "wf_map m" and "k \<le> j"
    and "\<And>b w. get b m = Some w \<Longrightarrow> b \<le> j \<Longrightarrow> b \<le> k"
  shows "floor_entry j (put k v m) = Some (k, v)"
  using assms by (subst floor_Some) (auto simp: wf_put get_put split: if_splits)

lemma del_put:
  assumes "wf_map m" and "get k m = None"
  shows "get j (snd (del k (put k v m))) = get j m"
  using assms by (simp add: wf_put get_put get_del)

end

locale interval_index = ordered_map new_map get put del floor_entry wf_map
  for new_map :: "'m"
    and get :: "'k::linorder \<Rightarrow> 'm \<Rightarrow> 'v option"
    and put :: "'k \<Rightarrow> 'v \<Rightarrow> 'm \<Rightarrow> 'm"
    and del :: "'k \<Rightarrow> 'm \<Rightarrow> 'v option \<times> 'm"
    and floor_entry :: "'k \<Rightarrow> 'm \<Rightarrow> ('k \<times> 'v) option"
    and wf_map :: "'m \<Rightarrow> bool" +
  fixes upper :: "'v \<Rightarrow> 'k"
begin

lemma floor_hit_sound:
  assumes "wf_map m" and "floor_entry k m = Some (a, v)" and "k < upper v"
  shows "get a m = Some v" and "a \<le> k"
  using assms by (simp_all add: floor_Some)

lemma floor_hit_complete:
  assumes wf: "wf_map m" and dis: "ivals_disjoint (\<lambda>k. get k m) upper"
    and a: "get a m = Some v" "a \<le> k" "k < upper v"
  shows "floor_entry k m = Some (a, v)"
proof -
  have "b \<le> a" if b: "get b m = Some w" "b \<le> k" for b w
  proof (rule ccontr)
    assume "\<not> b \<le> a"
    then have "a < b" by simp
    with dis a(1) b(1) have "upper v \<le> b" unfolding ivals_disjoint_def by blast
    with a(3) b(2) show False by simp
  qed
  with wf a show ?thesis by (simp add: floor_Some)
qed

lemma floor_hit_unique:
  assumes wf: "wf_map m" and dis: "ivals_disjoint (\<lambda>k. get k m) upper"
    and v: "get a m = Some v" "a \<le> k" "k < upper v"
    and w: "get b m = Some w" "b \<le> k" "k < upper w"
  shows "a = b \<and> v = w"
proof -
  have "floor_entry k m = Some (a, v)" and "floor_entry k m = Some (b, w)"
    using floor_hit_complete [OF wf dis] v w by blast+
  then show ?thesis by simp
qed

lemma disjoint_put:
  assumes wf: "wf_map m" and dis: "ivals_disjoint (\<lambda>k. get k m) upper"
    and below: "\<And>b w. get b m = Some w \<Longrightarrow> b < k \<Longrightarrow> upper w \<le> k"
    and above: "\<And>b w. get b m = Some w \<Longrightarrow> k < b \<Longrightarrow> upper v \<le> b"
  shows "ivals_disjoint (\<lambda>j. get j (put k v m)) upper"
  unfolding ivals_disjoint_def
proof (intro allI impI)
  fix a x b y
  assume "get a (put k v m) = Some x" and "get b (put k v m) = Some y" and "a < b"
  then show "upper x \<le> b"
    using wf dis below above by (auto simp: get_put ivals_disjoint_def split: if_splits)
qed

lemma disjoint_del:
  assumes "wf_map m" and "ivals_disjoint (\<lambda>k. get k m) upper"
  shows "ivals_disjoint (\<lambda>j. get j (snd (del k m))) upper"
  using assms by (auto simp: get_del ivals_disjoint_def split: if_splits)

lemma disjoint_new: "ivals_disjoint (\<lambda>k. get k new_map) upper"
  by (simp add: ivals_disjoint_def get_new)

end

section \<open>The ordered list keeps the contract\<close>

lemma bt_wf_simps [simp]:
  "bt_wf []"
  "bt_wf (e # m) \<longleftrightarrow> (\<forall>x \<in> set m. fst e < fst x) \<and> bt_wf m"
  by (auto simp: bt_wf_def)

lemma bt_get_in_set: "bt_get k m = Some v \<Longrightarrow> (k, v) \<in> set m"
  by (induction m) (auto split: if_splits)

lemma bt_get_set_iff: "bt_wf m \<Longrightarrow> (k, v) \<in> set m \<longleftrightarrow> bt_get k m = Some v"
  by (induction m) (auto split: if_splits)

lemma set_bt_insert:
  "bt_wf m \<Longrightarrow> set (bt_insert k v m) = insert (k, v) {e \<in> set m. fst e \<noteq> k}"
  by (induction m) force+

lemma bt_wf_insert: "bt_wf m \<Longrightarrow> bt_wf (bt_insert k v m)"
  by (induction m) (auto simp: set_bt_insert)

lemma bt_get_insert: "bt_wf m \<Longrightarrow> bt_get j (bt_insert k v m) = (if j = k then Some v else bt_get j m)"
  by (induction m) auto

lemma set_bt_remove: "set (snd (bt_remove k m)) \<subseteq> set m"
  by (induction m) (auto split: prod.splits)

lemma bt_wf_remove: "bt_wf m \<Longrightarrow> bt_wf (snd (bt_remove k m))"
proof (induction m)
  case Nil
  then show ?case by simp
next
  case (Cons e m)
  then show ?case using set_bt_remove [of k m] by (auto split: prod.splits)
qed

lemma bt_get_above: "\<forall>x \<in> set m. k < fst x \<Longrightarrow> bt_get k m = None"
  by (induction m) auto

lemma bt_get_remove:
  "bt_wf m \<Longrightarrow> bt_get j (snd (bt_remove k m)) = (if j = k then None else bt_get j m)"
  by (induction m) (auto simp: bt_get_above split: prod.splits)

lemma fst_bt_remove: "bt_wf m \<Longrightarrow> fst (bt_remove k m) = bt_get k m"
  by (induction m) (auto split: prod.splits)

lemma bt_floor_None_iff: "bt_wf m \<Longrightarrow> bt_floor k m = None \<longleftrightarrow> (\<forall>e \<in> set m. k < fst e)"
  by (induction m) (auto split: option.splits)

lemma bt_floor_SomeD:
  assumes "bt_wf m" and "bt_floor k m = Some e"
  shows "e \<in> set m" and "fst e \<le> k" and "\<forall>x \<in> set m. fst x \<le> k \<longrightarrow> fst x \<le> fst e"
  using assms
  by (induction m) (auto simp: bt_floor_None_iff split: if_splits option.splits dest: less_imp_le)

lemma bt_floor_Some_iff:
  assumes wf: "bt_wf m"
  shows "bt_floor k m = Some (a, v) \<longleftrightarrow>
    bt_get a m = Some v \<and> a \<le> k \<and> (\<forall>b w. bt_get b m = Some w \<longrightarrow> b \<le> k \<longrightarrow> b \<le> a)"
    (is "?l \<longleftrightarrow> ?r")
proof
  assume ?l
  with bt_floor_SomeD [OF wf this] show ?r
    by (auto simp: bt_get_set_iff [OF wf, symmetric] dest: bspec)
next
  assume r: ?r
  then have "(a, v) \<in> set m" and "\<not> k < fst (a, v)"
    by (auto simp: bt_get_in_set not_less)
  then have "bt_floor k m \<noteq> None"
    unfolding bt_floor_None_iff [OF wf] by blast
  then obtain b w where f: "bt_floor k m = Some (b, w)" by auto
  note d = bt_floor_SomeD [OF wf f]
  from d(1) have bw: "bt_get b m = Some w" by (simp add: bt_get_set_iff [OF wf])
  with r d(2) have "b \<le> a" by simp
  moreover from d(3) \<open>(a, v) \<in> set m\<close> r have "a \<le> b" by fastforce
  ultimately have "b = a" by (rule antisym)
  with bw r f show ?l by simp
qed

interpretation bt: ordered_map "[]" bt_get bt_insert bt_remove bt_floor bt_wf
proof unfold_locales
  fix m :: "('k::linorder, 'v) btree" and k a :: 'k and v :: 'v
  assume wf: "bt_wf m"
  show "bt_floor k m = Some (a, v) \<longleftrightarrow> bt_get a m = Some v \<and> a \<le> k \<and>
      (\<forall>b w. bt_get b m = Some w \<longrightarrow> b \<le> k \<longrightarrow> b \<le> a)"
    by (rule bt_floor_Some_iff [OF wf])
  show "bt_floor k m = None \<longleftrightarrow> (\<forall>b w. bt_get b m = Some w \<longrightarrow> k < b)"
    by (auto simp: bt_floor_None_iff [OF wf] bt_get_set_iff [OF wf, symmetric])
qed (simp_all add: bt_wf_insert bt_get_insert bt_wf_remove bt_get_remove fst_bt_remove)

lemma bt_values_set: "bt_wf m \<Longrightarrow> v \<in> set (bt_values m) \<longleftrightarrow> (\<exists>k. bt_get k m = Some v)"
  by (force simp: bt_values_def bt_get_set_iff [symmetric])

text \<open>Maps that answer every query alike are the same map.\<close>

lemma bt_ext:
  assumes "bt_wf m" and "bt_wf m'" and "\<And>k. bt_get k m = bt_get k m'"
  shows "m = m'"
proof -
  have sets: "set m = set m'"
    using assms(3) bt_get_set_iff [OF assms(1)] bt_get_set_iff [OF assms(2)] by auto
  have keys: "map fst m = map fst m'"
    using assms(1,2) sets by (intro strict_sorted_equal) (auto simp: bt_wf_def)
  have "snd (m ! i) = snd (m' ! i)" if "i < length m" for i
  proof -
    have len: "i < length m'" using that arg_cong [OF keys, of length] by simp
    have "fst (m ! i) = fst (m' ! i)" using that len arg_cong [OF keys, of "\<lambda>l. l ! i"] by simp
    moreover have "bt_get (fst (m ! i)) m = Some (snd (m ! i))"
      "bt_get (fst (m' ! i)) m' = Some (snd (m' ! i))"
      using that len
      by (simp_all add: bt_get_set_iff [OF assms(1), symmetric] bt_get_set_iff [OF assms(2), symmetric])
    ultimately show ?thesis using assms(3) by simp
  qed
  with keys show ?thesis
    by (intro nth_equalityI) (metis length_map, metis length_map nth_map prod_eqI)
qed

end
