(* ===== verification/Module.thy ===== *)
theory Module
  imports Module_Sections Dwarf_Entries Btree
begin

text \<open>
  \<open>module.rs\<close>, second part: the data of a loaded module and its constructors.

  \<open>S: Deref<Target = [u8]>\<close> is the parameter \<open>deref\<close>, the function that gives the bytes
  of a section (it may panic, as any \<open>deref\<close> may).  The only mutable part of a
  \<open>ModuleData\<close> is its \<open>Mutex\<close>-protected function cache, which every clone of the
  \<open>Arc<ModuleData>\<close> shares: the caches live in an explicit heap and a module holds the
  index of its cell.  A raw pointer carries the allocation it points into, which the
  module owns (\<open>_sections\<close>).
\<close>

section \<open>Errors\<close>

datatype module_error =
    EmptyAvmaRange
  | MissingEhFrame
  | MissingEhFrameSvma
  | MissingEhFrameHdr
  | MissingEhFrameHdrSvma
  | ModuleInvalidEhFrameHdr eh_frame_hdr_error

definition display_module_error :: "module_error \<Rightarrow> string" where
  "display_module_error e = (case e of
     EmptyAvmaRange \<Rightarrow> ''module AVMA range is empty''
   | MissingEhFrame \<Rightarrow> ''module is missing .eh_frame bytes''
   | MissingEhFrameSvma \<Rightarrow> ''module is missing .eh_frame SVMA range''
   | MissingEhFrameHdr \<Rightarrow> ''module is missing .eh_frame_hdr bytes''
   | MissingEhFrameHdrSvma \<Rightarrow> ''module is missing .eh_frame_hdr SVMA range''
   | ModuleInvalidEhFrameHdr err \<Rightarrow>
       ''invalid .eh_frame_hdr: '' @ display_eh_frame_hdr_error err)"

definition module_error_source :: "module_error \<Rightarrow> dyn_error option" where
  "module_error_source e = (case e of
     ModuleInvalidEhFrameHdr err \<Rightarrow> Some (DynEhFrameHdr err)
   | _ \<Rightarrow> None)"

text \<open>
  \<open>'io\<close> is \<open>std::io::Error\<close> and \<open>'obj\<close> is \<open>object::Error\<close>; a path is its displayed
  text.
\<close>

datatype ('io, 'obj) mmap_module_error =
    MmapOpen string 'io
  | MmapMap string 'io
  | MmapParse string 'obj
  | MmapModule module_error

definition display_mmap_module_error ::
    "('io \<Rightarrow> string) \<Rightarrow> ('obj \<Rightarrow> string) \<Rightarrow> ('io, 'obj) mmap_module_error \<Rightarrow> string" where
  "display_mmap_module_error show_io show_obj e = (case e of
     MmapOpen path source \<Rightarrow> ''failed to open '' @ path @ '': '' @ show_io source
   | MmapMap path source \<Rightarrow> ''failed to mmap '' @ path @ '': '' @ show_io source
   | MmapParse path source \<Rightarrow>
       ''failed to parse '' @ path @ '' as an object file: '' @ show_obj source
   | MmapModule err \<Rightarrow> display_module_error err)"

text \<open>The error behind \<open>source()\<close>, one of the three types a source can have.\<close>

datatype ('io, 'obj) mmap_error_source = SourceIo 'io | SourceObject 'obj | SourceModule module_error

definition mmap_module_error_source ::
    "('io, 'obj) mmap_module_error \<Rightarrow> ('io, 'obj) mmap_error_source option" where
  "mmap_module_error_source e = (case e of
     MmapOpen _ source \<Rightarrow> Some (SourceIo source)
   | MmapMap _ source \<Rightarrow> Some (SourceIo source)
   | MmapParse _ source \<Rightarrow> Some (SourceObject source)
   | MmapModule err \<Rightarrow> Some (SourceModule err))"

section \<open>Module data\<close>

record local_section =
  ls_avma_start :: u64
  ls_avma_end :: u64
  ls_local_ptr :: ptr

record function_details =
  fd_start_ip :: u64
  fd_end_ip :: u64
  fd_cie_info :: dwarf_cie_info
  fd_lsda :: u64
  fd_handler :: u64
  fd_signal_frame :: bool

text \<open>The state of a \<open>Mutex\<close> between two critical sections.\<close>

type_synonym function_cache = "(u64, function_details) btree"

datatype cache_cell = Poisoned | Unlocked function_cache

type_synonym cache_heap = "cache_cell list"

record module_data =
  md_name :: string
  md_avma_start :: u64
  md_avma_end :: u64
  md_base_avma :: u64
  md_local_sections :: "local_section list"
  md_table :: eh_frame_table
  md_eh_frame_hdr_local_ptr :: ptr
  md_eh_frame_hdr_local_len :: usize
  md_eh_frame_local_ptr :: ptr
  md_eh_frame_local_len :: usize
  md_eh_frame_avma :: u64
  md_eh_frame_hdr_error :: "eh_frame_hdr_error option"
  md_function_cache :: nat
  md_text_base :: u64
  md_data_base :: u64

text \<open>The accessors of \<open>Module\<close>.\<close>

definition module_avma_range :: "module_data \<Rightarrow> range_u64" where
  "module_avma_range md = (md_avma_start md, md_avma_end md)"

definition module_base_avma :: "module_data \<Rightarrow> u64" where
  "module_base_avma md = md_base_avma md"

definition module_get_name :: "module_data \<Rightarrow> string" where
  "module_get_name md = md_name md"

text \<open>\<open>lock()\<close>: the protected map, or the poison error.\<close>

definition lock_cache :: "cache_heap \<Rightarrow> nat \<Rightarrow> function_cache option" where
  "lock_cache h i =
     (if i < length h then (case h ! i of Poisoned \<Rightarrow> None | Unlocked m \<Rightarrow> Some m) else None)"

section \<open>from_parts\<close>

text \<open>
  \<open>bytes.as_ptr()\<close> of a section; the section is registered as a local mirror of
  \<open>avma..avma + len\<close>.
\<close>

definition local_section_of :: "u64 \<Rightarrow> bytes \<Rightarrow> local_section" where
  "local_section_of avma bs =
     \<lparr>ls_avma_start = avma, ls_avma_end = saturating_add_u64 avma (word_of_nat (length bs)),
      ls_local_ptr = Ptr bs 0\<rparr>"

record hdr_part =
  hp_sections :: "local_section list"
  hp_table :: eh_frame_table
  hp_ptr :: ptr
  hp_len :: usize
  hp_avma :: u64
  hp_error :: "eh_frame_hdr_error option"

definition hdr_part_of ::
    "bool \<Rightarrow> ('s \<Rightarrow> (bytes, module_error) outcome) \<Rightarrow> u64 \<Rightarrow> 's option \<Rightarrow> range_u64 option \<Rightarrow>
     (hdr_part, module_error) outcome" where
  "hdr_part_of oc deref slide eh_frame_hdr eh_frame_hdr_svma =
     (case (eh_frame_hdr, eh_frame_hdr_svma) of
        (Some sec, Some svma) \<Rightarrow>
          and_then (deref sec) (\<lambda>bs.
          let avma = fst svma + slide in
          and_then
            (case eh_frame_table_parse oc bs avma of
               Ok table \<Rightarrow> Ok (table, None)
             | Err err \<Rightarrow> Ok (eh_frame_table_empty avma, Some err)
             | Panic \<Rightarrow> Panic
             | UB \<Rightarrow> UB)
            (\<lambda>(table, err).
          Ok \<lparr>hp_sections = [local_section_of avma bs], hp_table = table, hp_ptr = Ptr bs 0,
              hp_len = length bs, hp_avma = avma, hp_error = err\<rparr>))
      | _ \<Rightarrow> Ok \<lparr>hp_sections = [], hp_table = eh_frame_table_empty 0, hp_ptr = Null, hp_len = 0,
                hp_avma = 0, hp_error = None\<rparr>)"

definition eh_frame_part_of ::
    "('s \<Rightarrow> (bytes, module_error) outcome) \<Rightarrow> u64 \<Rightarrow> 's option \<Rightarrow> range_u64 option \<Rightarrow>
     (local_section list \<times> ptr \<times> usize \<times> u64, module_error) outcome" where
  "eh_frame_part_of deref slide eh_frame eh_frame_svma =
     (case (eh_frame, eh_frame_svma) of
        (Some sec, Some svma) \<Rightarrow>
          and_then (deref sec) (\<lambda>bs.
          let avma = fst svma + slide in
          Ok ([local_section_of avma bs], Ptr bs 0, length bs, avma))
      | _ \<Rightarrow> Ok ([], Null, 0, 0))"

text \<open>The new module and the heap with its (empty) cache.\<close>

definition from_parts ::
    "bool \<Rightarrow> ('s \<Rightarrow> (bytes, module_error) outcome) \<Rightarrow> 's module_parts \<Rightarrow> cache_heap \<Rightarrow>
     (module_data \<times> cache_heap, module_error) outcome" where
  "from_parts oc deref parts heap =
     (let slide = mp_base_avma parts - mp_base_svma parts in
      and_then (hdr_part_of oc deref slide (mp_eh_frame_hdr parts) (mp_eh_frame_hdr_svma parts)) (\<lambda>hp.
      and_then (eh_frame_part_of deref slide (mp_eh_frame parts) (mp_eh_frame_svma parts))
        (\<lambda>(sections, eh_ptr, eh_len, eh_avma).
      let text_base = (case mp_text_svma parts of
                         None \<Rightarrow> fst (mp_avma_range parts)
                       | Some r \<Rightarrow> fst r + slide) in
      Ok (\<lparr>md_name = mp_name parts, md_avma_start = fst (mp_avma_range parts),
           md_avma_end = snd (mp_avma_range parts), md_base_avma = mp_base_avma parts,
           md_local_sections = hp_sections hp @ sections, md_table = hp_table hp,
           md_eh_frame_hdr_local_ptr = hp_ptr hp, md_eh_frame_hdr_local_len = hp_len hp,
           md_eh_frame_local_ptr = eh_ptr, md_eh_frame_local_len = eh_len,
           md_eh_frame_avma = eh_avma, md_eh_frame_hdr_error = hp_error hp,
           md_function_cache = length heap, md_text_base = text_base,
           md_data_base = hp_avma hp\<rparr>,
          heap @ [Unlocked []]))))"

section \<open>The constructors\<close>

definition range_is_empty :: "range_u64 \<Rightarrow> bool" where
  "range_is_empty r \<longleftrightarrow> \<not> fst r < snd r"

definition validate_module_parts ::
    "bool \<Rightarrow> ('s \<Rightarrow> (bytes, module_error) outcome) \<Rightarrow> 's module_parts \<Rightarrow>
     (unit, module_error) outcome" where
  "validate_module_parts oc deref parts =
     (if range_is_empty (mp_avma_range parts) then Err EmptyAvmaRange
      else case mp_eh_frame_svma parts of
        None \<Rightarrow> Err MissingEhFrameSvma
      | Some _ \<Rightarrow>
      (case mp_eh_frame parts of
         None \<Rightarrow> Err MissingEhFrame
       | Some _ \<Rightarrow>
      (case mp_eh_frame_hdr_svma parts of
         None \<Rightarrow> Err MissingEhFrameHdrSvma
       | Some eh_frame_hdr_svma \<Rightarrow>
      (case mp_eh_frame_hdr parts of
         None \<Rightarrow> Err MissingEhFrameHdr
       | Some eh_frame_hdr \<Rightarrow>
           let slide = mp_base_avma parts - mp_base_svma parts in
           and_then (deref eh_frame_hdr) (\<lambda>bs.
           and_then (map_err ModuleInvalidEhFrameHdr
             (eh_frame_table_parse oc bs (fst eh_frame_hdr_svma + slide))) (\<lambda>_.
           Ok ()))))))"

definition module_new ::
    "bool \<Rightarrow> ('s \<Rightarrow> (bytes, module_error) outcome) \<Rightarrow> ('i, 's) section_info \<Rightarrow> string \<Rightarrow> range_u64 \<Rightarrow>
     u64 \<Rightarrow> 'i \<Rightarrow> cache_heap \<Rightarrow> (module_data \<times> cache_heap, module_error) outcome" where
  "module_new oc deref ops name avma_range base_avma s heap =
     from_parts oc deref (module_parts_from_section_info ops name avma_range base_avma s) heap"

definition from_dwarf_sections ::
    "bool \<Rightarrow> ('s \<Rightarrow> (bytes, module_error) outcome) \<Rightarrow> string \<Rightarrow> range_u64 \<Rightarrow> u64 \<Rightarrow>
     's dwarf_module_sections \<Rightarrow> cache_heap \<Rightarrow> (module_data \<times> cache_heap, module_error) outcome" where
  "from_dwarf_sections oc deref name avma_range base_avma sections heap =
     (let parts = \<lparr>mp_name = name, mp_avma_range = avma_range, mp_base_avma = base_avma,
                   mp_base_svma = dms_base_svma sections, mp_text_svma = dms_text_svma sections,
                   mp_eh_frame_svma = dms_eh_frame_svma sections,
                   mp_eh_frame = dms_eh_frame sections,
                   mp_eh_frame_hdr_svma = dms_eh_frame_hdr_svma sections,
                   mp_eh_frame_hdr = dms_eh_frame_hdr sections\<rparr> in
      and_then (validate_module_parts oc deref parts) (\<lambda>_. from_parts oc deref parts heap))"

definition try_from_section_info ::
    "bool \<Rightarrow> ('s \<Rightarrow> (bytes, module_error) outcome) \<Rightarrow> ('i, 's) section_info \<Rightarrow> string \<Rightarrow> range_u64 \<Rightarrow>
     u64 \<Rightarrow> 'i \<Rightarrow> cache_heap \<Rightarrow> (module_data \<times> cache_heap, module_error) outcome" where
  "try_from_section_info oc deref ops name avma_range base_avma s heap =
     (let parts = module_parts_from_section_info ops name avma_range base_avma s in
      and_then (validate_module_parts oc deref parts) (\<lambda>_. from_parts oc deref parts heap))"

definition fallback_only ::
    "bool \<Rightarrow> ('s \<Rightarrow> (bytes, module_error) outcome) \<Rightarrow> string \<Rightarrow> range_u64 \<Rightarrow> u64 \<Rightarrow> cache_heap \<Rightarrow>
     (module_data \<times> cache_heap, module_error) outcome" where
  "fallback_only oc deref name avma_range base_avma heap =
     from_parts oc deref \<lparr>mp_name = name, mp_avma_range = avma_range, mp_base_avma = base_avma,
       mp_base_svma = base_avma, mp_text_svma = None, mp_eh_frame_svma = None, mp_eh_frame = None,
       mp_eh_frame_hdr_svma = None, mp_eh_frame_hdr = None\<rparr> heap"

text \<open>
  \<open>open_file\<close>, \<open>map_file\<close> and \<open>parse_object\<close> stand for \<open>File::open\<close>, the \<open>memmap2\<close>
  crate and \<open>object::File::parse\<close>: a value or the error they report.
\<close>

definition mmap_file ::
    "(string \<Rightarrow> 'f + 'io) \<Rightarrow> ('f \<Rightarrow> bytes + 'io) \<Rightarrow> string \<Rightarrow>
     (bytes, ('io, 'obj) mmap_module_error) outcome" where
  "mmap_file open_file map_file path =
     (case open_file path of
        Inr source \<Rightarrow> Err (MmapOpen path source)
      | Inl file \<Rightarrow>
          (case map_file file of
             Inr source \<Rightarrow> Err (MmapMap path source)
           | Inl mmap \<Rightarrow> Ok mmap))"

definition open_object ::
    "(string \<Rightarrow> 'f + 'io) \<Rightarrow> ('f \<Rightarrow> bytes + 'io) \<Rightarrow> (bytes \<Rightarrow> object_file + 'obj) \<Rightarrow> string \<Rightarrow>
     (mmap_object_sections, ('io, 'obj) mmap_module_error) outcome" where
  "open_object open_file map_file parse_object path =
     and_then (mmap_file open_file map_file path) (\<lambda>mmap.
     case parse_object mmap of
       Inr source \<Rightarrow> Err (MmapParse path source)
     | Inl file \<Rightarrow> Ok \<lparr>mos_file = file, mos_mmap = mmap\<rparr>)"

definition from_mmap_file ::
    "bool \<Rightarrow> (string \<Rightarrow> 'f + 'io) \<Rightarrow> ('f \<Rightarrow> bytes + 'io) \<Rightarrow> (bytes \<Rightarrow> object_file + 'obj) \<Rightarrow> string \<Rightarrow>
     range_u64 \<Rightarrow> u64 \<Rightarrow> cache_heap \<Rightarrow>
     (module_data \<times> cache_heap, ('io, 'obj) mmap_module_error) outcome" where
  "from_mmap_file oc open_file map_file parse_object path avma_range base_avma heap =
     and_then (open_object open_file map_file parse_object path) (\<lambda>sections.
     map_err MmapModule
       (module_new oc mmap_bytes_deref mmap_section_info path avma_range base_avma sections heap))"

definition try_from_mmap_file ::
    "bool \<Rightarrow> (string \<Rightarrow> 'f + 'io) \<Rightarrow> ('f \<Rightarrow> bytes + 'io) \<Rightarrow> (bytes \<Rightarrow> object_file + 'obj) \<Rightarrow> string \<Rightarrow>
     range_u64 \<Rightarrow> u64 \<Rightarrow> cache_heap \<Rightarrow>
     (module_data \<times> cache_heap, ('io, 'obj) mmap_module_error) outcome" where
  "try_from_mmap_file oc open_file map_file parse_object path avma_range base_avma heap =
     and_then (open_object open_file map_file parse_object path) (\<lambda>sections.
     map_err MmapModule
       (try_from_section_info oc mmap_bytes_deref mmap_section_info path avma_range base_avma
          sections heap))"

section \<open>The invariant of a module\<close>

text \<open>A local pointer is null with length 0 or covers a whole section.\<close>

definition section_ptr_ok :: "ptr \<Rightarrow> usize \<Rightarrow> bool" where
  "section_ptr_ok p n \<longleftrightarrow>
     (case p of Null \<Rightarrow> n = 0 | Ptr bs off \<Rightarrow> off = 0 \<and> n = length bs \<and> slice_ok bs)"

definition local_section_ok :: "local_section \<Rightarrow> bool" where
  "local_section_ok s \<longleftrightarrow>
     (case ls_local_ptr s of
        Null \<Rightarrow> False
      | Ptr bs off \<Rightarrow> off = 0 \<and> slice_ok bs \<and>
          ls_avma_end s = saturating_add_u64 (ls_avma_start s) (word_of_nat (length bs)))"

text \<open>The search table fits the header bytes the module mirrors.\<close>

definition table_ok :: "ptr \<Rightarrow> eh_frame_table \<Rightarrow> bool" where
  "table_ok p t \<longleftrightarrow>
     (case p of Null \<Rightarrow> tbl_entry_count t = 0 | Ptr bs off \<Rightarrow> table_fits t bs)"

definition module_wf :: "cache_heap \<Rightarrow> module_data \<Rightarrow> bool" where
  "module_wf h md \<longleftrightarrow>
     section_ptr_ok (md_eh_frame_hdr_local_ptr md) (md_eh_frame_hdr_local_len md) \<and>
     section_ptr_ok (md_eh_frame_local_ptr md) (md_eh_frame_local_len md) \<and>
     (\<forall>s \<in> set (md_local_sections md). local_section_ok s) \<and>
     table_ok (md_eh_frame_hdr_local_ptr md) (md_table md) \<and>
     md_function_cache md < length h"

text \<open>What the constructors rely on of \<open>Deref\<close>: it gives a slice.\<close>

definition derefs :: "('s \<Rightarrow> (bytes, module_error) outcome) \<Rightarrow> 's option \<Rightarrow> bool" where
  "derefs deref sec \<longleftrightarrow>
     (case sec of None \<Rightarrow> True
      | Some s \<Rightarrow> (case deref s of Ok bs \<Rightarrow> slice_ok bs | _ \<Rightarrow> False))"

lemma derefs_Some [simp]: "derefs deref (Some s) \<longleftrightarrow> (\<exists>bs. deref s = Ok bs \<and> slice_ok bs)"
  by (simp add: derefs_def split: outcome.split)

lemma local_section_of_ok: "slice_ok bs \<Longrightarrow> local_section_ok (local_section_of a bs)"
  by (simp add: local_section_ok_def local_section_of_def)

lemma eh_frame_table_parse_defined: "slice_ok hdr \<Longrightarrow> defined (eh_frame_table_parse oc hdr avma)"
proof -
  assume ok: "slice_ok hdr"
  have rd: "n \<le> 8 \<and> n \<le> length bs" if "read_unsigned bs enc = Some (v, n)" for bs enc v n
    using that by (auto simp: read_unsigned_def Let_def not_less split: if_splits)
  have sz: "n \<le> 8" if "enc_size enc = Some n" for enc n
    using that by (auto simp: enc_size_def Let_def split: if_splits)
  show ?thesis
    unfolding eh_frame_table_parse_def Let_def
    by (auto split: option.split intro!: defined_and_then
        simp: slice_from_def saturating_add_usize_def not_less dest!: rd sz)
qed

lemma table_empty_ok: "table_ok p (eh_frame_table_empty a)"
  by (cases p) (simp_all add: table_ok_def table_fits_def eh_frame_table_empty_def)

lemma hdr_part_cases:
  assumes "derefs deref sec"
  obtains (absent) "sec = None \<or> svma = None"
    "hdr_part_of oc deref slide sec svma = Ok \<lparr>hp_sections = [], hp_table = eh_frame_table_empty 0,
       hp_ptr = Null, hp_len = 0, hp_avma = 0, hp_error = None\<rparr>"
  | (parsed) s r bs t where "sec = Some s" "svma = Some r" "deref s = Ok bs" "slice_ok bs"
    "eh_frame_table_parse oc bs (fst r + slide) = Ok t"
    "hdr_part_of oc deref slide sec svma = Ok \<lparr>hp_sections = [local_section_of (fst r + slide) bs],
       hp_table = t, hp_ptr = Ptr bs 0, hp_len = length bs, hp_avma = fst r + slide,
       hp_error = None\<rparr>"
  | (invalid) s r bs e where "sec = Some s" "svma = Some r" "deref s = Ok bs" "slice_ok bs"
    "eh_frame_table_parse oc bs (fst r + slide) = Err e"
    "hdr_part_of oc deref slide sec svma = Ok \<lparr>hp_sections = [local_section_of (fst r + slide) bs],
       hp_table = eh_frame_table_empty (fst r + slide), hp_ptr = Ptr bs 0, hp_len = length bs,
       hp_avma = fst r + slide, hp_error = Some e\<rparr>"
proof (cases "sec = None \<or> svma = None")
  case True
  then show ?thesis by (intro absent) (auto simp: hdr_part_of_def split: option.splits)
next
  case False
  then obtain s r where sr: "sec = Some s" "svma = Some r" by auto
  with assms obtain bs where bs: "deref s = Ok bs" "slice_ok bs" by auto
  show ?thesis
  proof (cases "eh_frame_table_parse oc bs (fst r + slide)")
    case (Ok t)
    then show ?thesis by (intro parsed [OF sr bs]) (simp_all add: hdr_part_of_def sr bs Let_def)
  next
    case (Err e)
    then show ?thesis by (intro invalid [OF sr bs]) (simp_all add: hdr_part_of_def sr bs Let_def)
  qed (use eh_frame_table_parse_defined [OF bs(2), of oc "fst r + slide"] in simp_all)
qed

lemma eh_frame_part_cases:
  assumes "derefs deref sec"
  obtains (absent) "sec = None \<or> svma = None"
    "eh_frame_part_of deref slide sec svma = Ok ([], Null, 0, 0)"
  | (present) s r bs where "sec = Some s" "svma = Some r" "deref s = Ok bs" "slice_ok bs"
    "eh_frame_part_of deref slide sec svma =
       Ok ([local_section_of (fst r + slide) bs], Ptr bs 0, length bs, fst r + slide)"
proof (cases "sec = None \<or> svma = None")
  case True
  then show ?thesis by (intro absent) (auto simp: eh_frame_part_of_def split: option.splits)
next
  case False
  then obtain s r where sr: "sec = Some s" "svma = Some r" by auto
  with assms obtain bs where bs: "deref s = Ok bs" "slice_ok bs" by auto
  show ?thesis by (intro present [OF sr bs]) (simp add: eh_frame_part_of_def sr bs Let_def)
qed

lemma from_parts_wf:
  assumes "derefs deref (mp_eh_frame_hdr parts)" and "derefs deref (mp_eh_frame parts)"
  shows "\<exists>md. from_parts oc deref parts h = Ok (md, h @ [Unlocked []]) \<and>
    module_wf (h @ [Unlocked []]) md \<and> md_function_cache md = length h \<and>
    md_avma_start md = fst (mp_avma_range parts) \<and> md_avma_end md = snd (mp_avma_range parts)"
proof -
  let ?slide = "mp_base_avma parts - mp_base_svma parts"
  obtain hp where hp: "hdr_part_of oc deref ?slide (mp_eh_frame_hdr parts) (mp_eh_frame_hdr_svma parts) = Ok hp"
    and hp_ok: "section_ptr_ok (hp_ptr hp) (hp_len hp)" "table_ok (hp_ptr hp) (hp_table hp)"
      "\<forall>s \<in> set (hp_sections hp). local_section_ok s"
    by (rule hdr_part_cases [OF assms(1), of "mp_eh_frame_hdr_svma parts" oc ?slide])
      (auto simp: section_ptr_ok_def table_empty_ok local_section_of_ok table_ok_def
        eh_frame_table_empty_def table_fits_def dest: eh_frame_table_parse_Ok(1))
  obtain secs p n a where ep: "eh_frame_part_of deref ?slide (mp_eh_frame parts) (mp_eh_frame_svma parts) =
      Ok (secs, p, n, a)"
    and ep_ok: "section_ptr_ok p n" "\<forall>s \<in> set secs. local_section_ok s"
    by (rule eh_frame_part_cases [OF assms(2), of "mp_eh_frame_svma parts" ?slide])
      (auto simp: section_ptr_ok_def local_section_of_ok)
  from hp hp_ok ep ep_ok show ?thesis
    by (auto simp: from_parts_def module_wf_def Let_def)
qed

text \<open>Validation accepts the parts of a non-empty range with both sections and a header that parsed.\<close>

definition complete_sections :: "module_data \<Rightarrow> bool" where
  "complete_sections md \<longleftrightarrow> md_avma_start md < md_avma_end md \<and> \<not> is_null (md_eh_frame_local_ptr md) \<and>
     \<not> is_null (md_eh_frame_hdr_local_ptr md) \<and> md_eh_frame_hdr_error md = None"

lemma validate_iff:
  assumes "derefs deref (mp_eh_frame_hdr parts)" and "derefs deref (mp_eh_frame parts)"
    and "from_parts oc deref parts h = Ok (md, h')"
  shows "validate_module_parts oc deref parts = Ok () \<longleftrightarrow> complete_sections md"
proof -
  let ?slide = "mp_base_avma parts - mp_base_svma parts"
  from assms(3) obtain hp secs p n a where
    hp: "hdr_part_of oc deref ?slide (mp_eh_frame_hdr parts) (mp_eh_frame_hdr_svma parts) = Ok hp" and
    ep: "eh_frame_part_of deref ?slide (mp_eh_frame parts) (mp_eh_frame_svma parts) = Ok (secs, p, n, a)" and
    md: "md_eh_frame_local_ptr md = p" "md_eh_frame_hdr_local_ptr md = hp_ptr hp"
      "md_eh_frame_hdr_error md = hp_error hp" "md_avma_start md = fst (mp_avma_range parts)"
      "md_avma_end md = snd (mp_avma_range parts)"
    by (auto simp: from_parts_def Let_def)
  have eh: "is_null p \<longleftrightarrow> mp_eh_frame parts = None \<or> mp_eh_frame_svma parts = None"
    by (rule eh_frame_part_cases [OF assms(2), of "mp_eh_frame_svma parts" ?slide]) (use ep in auto)
  have hdr: "\<not> is_null (hp_ptr hp) \<and> hp_error hp = None \<longleftrightarrow>
      (\<exists>s r bs t. mp_eh_frame_hdr parts = Some s \<and> mp_eh_frame_hdr_svma parts = Some r \<and>
        deref s = Ok bs \<and> eh_frame_table_parse oc bs (fst r + ?slide) = Ok t)"
    by (rule hdr_part_cases [OF assms(1), of "mp_eh_frame_hdr_svma parts" oc ?slide]) (use hp in auto)
  have "validate_module_parts oc deref parts = Ok () \<longleftrightarrow>
      fst (mp_avma_range parts) < snd (mp_avma_range parts) \<and>
      \<not> (mp_eh_frame parts = None \<or> mp_eh_frame_svma parts = None) \<and>
      (\<exists>s r bs t. mp_eh_frame_hdr parts = Some s \<and> mp_eh_frame_hdr_svma parts = Some r \<and>
        deref s = Ok bs \<and> eh_frame_table_parse oc bs (fst r + ?slide) = Ok t)"
    by (auto simp: validate_module_parts_def range_is_empty_def Let_def split: option.splits)
  then show ?thesis unfolding complete_sections_def md hdr [symmetric] eh [symmetric] .
qed

lemma try_from_iff:
  assumes "derefs deref (mp_eh_frame_hdr parts)" and "derefs deref (mp_eh_frame parts)"
  shows "and_then (validate_module_parts oc deref parts) (\<lambda>_. from_parts oc deref parts h) = Ok (md, h') \<longleftrightarrow>
    from_parts oc deref parts h = Ok (md, h') \<and> complete_sections md"
  using validate_iff [OF assms, of oc h md h'] by auto

text \<open>A table with entries comes from a header that parsed.\<close>

lemma broken_table_empty:
  assumes "derefs deref (mp_eh_frame_hdr parts)" and "from_parts oc deref parts h = Ok (md, h')"
    and "tbl_entry_count (md_table md) \<noteq> 0"
  shows "md_eh_frame_hdr_error md = None"
proof -
  let ?slide = "mp_base_avma parts - mp_base_svma parts"
  from assms(2) obtain hp where
    hp: "hdr_part_of oc deref ?slide (mp_eh_frame_hdr parts) (mp_eh_frame_hdr_svma parts) = Ok hp"
    and md: "md_table md = hp_table hp" "md_eh_frame_hdr_error md = hp_error hp"
    by (auto simp: from_parts_def Let_def)
  show ?thesis
    by (rule hdr_part_cases [OF assms(1), of "mp_eh_frame_hdr_svma parts" oc ?slide])
      (use hp md assms(3) in \<open>auto simp: eh_frame_table_empty_def\<close>)
qed

lemma module_parts_range [simp]: "mp_avma_range (module_parts_from_section_info ops name r b s) = r"
  by (simp add: module_parts_from_section_info_def Let_def split: prod.split)

section \<open>A sample module\<close>

text \<open>
  The sample \<open>.eh_frame\<close> of \<open>Dwarf_Entries\<close> at \<open>0x3000\<close> with its one-row header at
  \<open>0x4000\<close>, for an image mapped at \<open>0x1000..0x2000\<close>.
\<close>

definition sample_hdr :: bytes where
  "sample_hdr = encode_hdr 0 [(0xffffd000, 0xfffff014)]"

definition sample_sections :: "bytes dwarf_module_sections" where
  "sample_sections =
     \<lparr>dms_base_svma = 0, dms_text_svma = Some (0x1000, 0x2000), dms_text = None,
      dms_eh_frame_svma = Some (0x3000, 0x3028), dms_eh_frame = Some sample_eh_frame,
      dms_eh_frame_hdr_svma = Some (0x4000, 0x4014), dms_eh_frame_hdr = Some sample_hdr\<rparr>"

definition sample_table :: eh_frame_table where
  "sample_table = \<lparr>tbl_table_data_offset = 12, tbl_entry_count = 1, tbl_eh_frame_hdr_avma = 0x4000\<rparr>"

definition sample_module :: "nat \<Rightarrow> module_data" where
  "sample_module i =
     \<lparr>md_name = ''sample'', md_avma_start = 0x1000, md_avma_end = 0x2000, md_base_avma = 0,
      md_local_sections = [local_section_of 0x4000 sample_hdr, local_section_of 0x3000 sample_eh_frame],
      md_table = sample_table, md_eh_frame_hdr_local_ptr = Ptr sample_hdr 0,
      md_eh_frame_hdr_local_len = length sample_hdr,
      md_eh_frame_local_ptr = Ptr sample_eh_frame 0,
      md_eh_frame_local_len = length sample_eh_frame, md_eh_frame_avma = 0x3000,
      md_eh_frame_hdr_error = None, md_function_cache = i, md_text_base = 0x1000,
      md_data_base = 0x4000\<rparr>"

lemma sample_hdr_ok: "slice_ok sample_hdr"
  by (simp add: slice_ok_def sample_hdr_def encode_hdr_def)

lemma sample_hdr_parses: "eh_frame_table_parse oc sample_hdr 0x4000 = Ok sample_table"
  using parse_encode_hdr [of "[(0xffffd000, 0xfffff014)]" 0 "[]" oc "0x4000"] sample_hdr_ok
  by (simp add: sample_hdr_def sample_table_def)

lemma sample_table_entries: "table_entries sample_table sample_hdr = [(0x1000, 0x3014)]"
  using table_entries_encode_hdr [of "[(0xffffd000, 0xfffff014)]" sample_table "0x4000" 0 "[]"]
  by (simp add: sample_hdr_def sample_table_def)

lemma sample_module_built:
  "from_dwarf_sections oc Ok ''sample'' (0x1000, 0x2000) 0 sample_sections h =
     Ok (sample_module (length h), h @ [Unlocked []])"
  by (simp add: from_dwarf_sections_def validate_module_parts_def from_parts_def hdr_part_of_def
      eh_frame_part_of_def sample_sections_def sample_module_def range_is_empty_def
      sample_hdr_parses Let_def)

lemma sample_module_wf: "i < length h \<Longrightarrow> module_wf h (sample_module i)"
  using sample_hdr_ok sample_slice_ok eh_frame_table_parse_Ok(1) [OF sample_hdr_parses sample_hdr_ok]
  by (simp add: module_wf_def sample_module_def section_ptr_ok_def local_section_of_ok table_ok_def)

section \<open>Properties\<close>

text \<open>C27: Building a module never fails and never leaves a bad pointer.  For sections of
  any content, \<open>Module::new\<close> returns a module without a panic in every build profile; its
  two local pointers are null with length 0 or cover exactly the bytes of a section it owns,
  its mirrored sections end where their bytes end (saturating at the top of the address
  space), its search table fits the header bytes, and its function cache is a fresh empty
  one.\<close>

theorem module_new_wf:
  assumes "derefs deref (mp_eh_frame_hdr (module_parts_from_section_info ops name r b s))"
    and "derefs deref (mp_eh_frame (module_parts_from_section_info ops name r b s))"
  shows "\<exists>md. module_new oc deref ops name r b s h = Ok (md, h @ [Unlocked []]) \<and>
    module_wf (h @ [Unlocked []]) md \<and> md_function_cache md = length h \<and>
    lock_cache (h @ [Unlocked []]) (md_function_cache md) = Some []"
proof -
  obtain md where "from_parts oc deref (module_parts_from_section_info ops name r b s) h =
      Ok (md, h @ [Unlocked []])" "module_wf (h @ [Unlocked []]) md" "md_function_cache md = length h"
    using from_parts_wf [OF assms] by blast
  then show ?thesis by (auto simp: module_new_def lock_cache_def)
qed

theorem module_new_wf_witness:
  "\<exists>md. module_new True Ok dwarf_section_info ''m'' (0x1000, 0x2000) 0
      \<lparr>dms_base_svma = 0, dms_text_svma = None, dms_text = None, dms_eh_frame_svma = Some (0x1100, 0x1104),
       dms_eh_frame = Some [0x11, 0x22, 0x33, 0x44], dms_eh_frame_hdr_svma = Some (0x1200, 0x1203),
       dms_eh_frame_hdr = Some [1, 0, 0]\<rparr> [] = Ok (md, [] @ [Unlocked []]) \<and>
    module_wf ([] @ [Unlocked []]) md \<and> md_function_cache md = length ([] :: cache_heap) \<and>
    lock_cache ([] @ [Unlocked []]) (md_function_cache md) = Some []"
  by (rule module_new_wf) (simp_all add: dwarf_parts slice_ok_def)

text \<open>The strict constructors accept exactly complete sections.
  \<open>try_from_section_info\<close> returns a module if and only if \<open>Module::new\<close> returns that same
  module and it has a non-empty address range, both unwind sections and a header that
  parsed; it rejects everything else.\<close>

theorem try_from_section_info_iff:
  assumes "derefs deref (mp_eh_frame_hdr (module_parts_from_section_info ops name r b s))"
    and "derefs deref (mp_eh_frame (module_parts_from_section_info ops name r b s))"
  shows "try_from_section_info oc deref ops name r b s h = Ok (md, h') \<longleftrightarrow>
    module_new oc deref ops name r b s h = Ok (md, h') \<and> complete_sections md"
  unfolding try_from_section_info_def module_new_def Let_def by (rule try_from_iff [OF assms])

text \<open>The section adapters are interchangeable.  Typed DWARF sections give the same
  module, or the same error, whether they are passed to \<open>from_dwarf_sections\<close>, through the
  \<open>ModuleSectionInfo\<close> interface, or as an explicit section bag with the same contents: the
  order of the queries and the fact that a query moves the bytes out make no difference.\<close>

theorem section_adapters_agree:
  "from_dwarf_sections oc deref name r b d h =
      try_from_section_info oc deref dwarf_section_info name r b d h \<and>
   try_from_section_info oc deref dwarf_section_info name r b d h =
      try_from_section_info oc deref explicit_section_info name r b (explicit_of_dwarf d) h \<and>
   module_new oc deref dwarf_section_info name r b d h =
      module_new oc deref explicit_section_info name r b (explicit_of_dwarf d) h"
  by (simp add: from_dwarf_sections_def try_from_section_info_def module_new_def dwarf_parts
      explicit_parts explicit_of_dwarf_def)

end
