(* ===== verification/Module_Set.thy ===== *)
theory Module_Set
  imports Module
begin

text \<open>
  \<open>module_set.rs\<close>: the registry of loaded modules and of the local mirrors of their
  unwind sections.  Both indices are \<open>BTreeMap\<close>s keyed by a start address and are queried
  through \<open>range(..=addr).next_back()\<close>, so both are interval indices in the sense of
  \<open>Btree\<close>.
\<close>

section \<open>The registry\<close>

record redirect_entry =
  re_section :: local_section
  re_owner :: module_data

record module_set =
  ms_modules :: "(u64, module_data) btree"
  ms_redirects :: "(u64, redirect_entry) btree"

definition module_set_new :: module_set where
  "module_set_new = \<lparr>ms_modules = [], ms_redirects = []\<rparr>"

definition insert_redirects ::
    "module_data \<Rightarrow> local_section list \<Rightarrow> (u64, redirect_entry) btree \<Rightarrow> (u64, redirect_entry) btree" where
  "insert_redirects data sections redirects =
     fold (\<lambda>sec. bt_insert (ls_avma_start sec)
       \<lparr>re_section = \<lparr>ls_avma_start = ls_avma_start sec, ls_avma_end = ls_avma_end sec,
          ls_local_ptr = ls_local_ptr sec\<rparr>, re_owner = data\<rparr>) sections redirects"

definition module_set_add :: "module_set \<Rightarrow> module_data \<Rightarrow> module_set" where
  "module_set_add ms data =
     (let key = md_avma_start data;
          redirects = insert_redirects data (md_local_sections data) (ms_redirects ms)
      in \<lparr>ms_modules = bt_insert key data (ms_modules ms), ms_redirects = redirects\<rparr>)"

definition remove_redirects ::
    "local_section list \<Rightarrow> (u64, redirect_entry) btree \<Rightarrow> (u64, redirect_entry) btree" where
  "remove_redirects sections redirects =
     fold (\<lambda>sec m. snd (bt_remove (ls_avma_start sec) m)) sections redirects"

definition module_set_remove :: "module_set \<Rightarrow> u64 \<Rightarrow> module_set" where
  "module_set_remove ms avma_start =
     (case bt_remove avma_start (ms_modules ms) of
        (Some data, modules) \<Rightarrow>
          \<lparr>ms_modules = modules,
           ms_redirects = remove_redirects (md_local_sections data) (ms_redirects ms)\<rparr>
      | (None, modules) \<Rightarrow> ms\<lparr>ms_modules := modules\<rparr>)"

definition max_known_code_address :: "module_set \<Rightarrow> u64" where
  "max_known_code_address ms = fold max (map md_avma_end (bt_values (ms_modules ms))) 0"

definition find_module :: "module_set \<Rightarrow> u64 \<Rightarrow> module_data option" where
  "find_module ms addr =
     (case bt_floor addr (ms_modules ms) of
        None \<Rightarrow> None
      | Some (_, data) \<Rightarrow>
          if addr \<ge> md_avma_start data \<and> addr < md_avma_end data then Some data else None)"

definition has_unwind_info :: "module_set \<Rightarrow> u64 \<Rightarrow> bool" where
  "has_unwind_info ms addr =
     (case find_module ms addr of
        None \<Rightarrow> False
      | Some md \<Rightarrow> tbl_entry_count (md_table md) \<noteq> 0 \<and> \<not> is_null (md_eh_frame_hdr_local_ptr md) \<and>
          \<not> is_null (md_eh_frame_local_ptr md))"

definition contains_address :: "module_set \<Rightarrow> u64 \<Rightarrow> bool" where
  "contains_address ms addr = (find_module ms addr \<noteq> None)"

definition module_set_unwind_info_error :: "module_set \<Rightarrow> u64 \<Rightarrow> unwind_info_error option" where
  "module_set_unwind_info_error ms addr =
     (case find_module ms addr of
        None \<Rightarrow> None
      | Some md \<Rightarrow> map_option (InvalidEhFrameHdr (md_name md)) (md_eh_frame_hdr_error md))"

definition module_set_is_signal_frame :: "cache_heap \<Rightarrow> module_set \<Rightarrow> u64 \<Rightarrow> bool" where
  "module_set_is_signal_frame h ms addr =
     (case find_module ms addr of
        None \<Rightarrow> False
      | Some md \<Rightarrow>
          (case lock_cache h (md_function_cache md) of
             None \<Rightarrow> False
           | Some cache \<Rightarrow>
               (case bt_floor addr cache of
                  None \<Rightarrow> False
                | Some (_, details) \<Rightarrow> addr < fd_end_ip details \<and> fd_signal_frame details)))"

definition lookup_local :: "module_set \<Rightarrow> u64 \<Rightarrow> ptr option" where
  "lookup_local ms addr =
     (case bt_floor addr (ms_redirects ms) of
        None \<Rightarrow> None
      | Some (_, entry) \<Rightarrow>
          let sec = re_section entry in
          if addr \<ge> ls_avma_start sec \<and> saturating_add_u64 addr 8 \<le> ls_avma_end sec then
            Some (ptr_add (ls_local_ptr sec) (unat (addr - ls_avma_start sec)))
          else None)"

definition module_set_clone :: "module_set \<Rightarrow> module_set" where
  "module_set_clone ms = fold (\<lambda>md acc. module_set_add acc md) (bt_values (ms_modules ms)) module_set_new"

section \<open>The two indices\<close>

interpretation modules_index: interval_index "[]" bt_get bt_insert bt_remove bt_floor bt_wf md_avma_end
  by unfold_locales

interpretation redirects_index: interval_index "[]" bt_get bt_insert bt_remove bt_floor bt_wf
  "\<lambda>e. ls_avma_end (re_section e)"
  by unfold_locales

text \<open>The invariant of the registry, over the heap its modules keep their caches in.\<close>

definition modules_wf :: "cache_heap \<Rightarrow> (u64, module_data) btree \<Rightarrow> bool" where
  "modules_wf h m \<longleftrightarrow> bt_wf m \<and> (\<forall>(k, md) \<in> set m. md_avma_start md = k \<and> module_wf h md)"

definition redirects_wf :: "(u64, redirect_entry) btree \<Rightarrow> bool" where
  "redirects_wf m \<longleftrightarrow> bt_wf m \<and>
     (\<forall>(k, e) \<in> set m. ls_avma_start (re_section e) = k \<and> local_section_ok (re_section e))"

definition module_set_wf :: "cache_heap \<Rightarrow> module_set \<Rightarrow> bool" where
  "module_set_wf h ms \<longleftrightarrow> modules_wf h (ms_modules ms) \<and> redirects_wf (ms_redirects ms)"

text \<open>The mapped images of one address space do not overlap.\<close>

definition modules_disjoint :: "module_set \<Rightarrow> bool" where
  "modules_disjoint ms \<longleftrightarrow> ivals_disjoint (\<lambda>k. bt_get k (ms_modules ms)) md_avma_end"

definition registered :: "module_set \<Rightarrow> module_data \<Rightarrow> bool" where
  "registered ms md \<longleftrightarrow> md \<in> set (bt_values (ms_modules ms))"

lemma modules_wf_get:
  "modules_wf h m \<Longrightarrow> bt_get k m = Some md \<Longrightarrow> md_avma_start md = k \<and> module_wf h md"
  by (force simp: modules_wf_def dest: bt_get_in_set)

lemma registered_iff:
  assumes "module_set_wf h ms"
  shows "registered ms md \<longleftrightarrow> bt_get (md_avma_start md) (ms_modules ms) = Some md"
proof -
  have wf: "modules_wf h (ms_modules ms)" using assms by (simp add: module_set_wf_def)
  then have "registered ms md \<longleftrightarrow> (\<exists>k. bt_get k (ms_modules ms) = Some md)"
    by (simp add: registered_def bt_values_set modules_wf_def)
  with modules_wf_get [OF wf] show ?thesis by blast
qed

lemma find_module_sound:
  assumes "module_set_wf h ms" and "find_module ms addr = Some md"
  shows "registered ms md" and "md_avma_start md \<le> addr" and "addr < md_avma_end md"
    and "module_wf h md"
proof -
  from assms have wf: "bt_wf (ms_modules ms)" "modules_wf h (ms_modules ms)"
    by (simp_all add: module_set_wf_def modules_wf_def)
  from assms(2) obtain k where k: "bt_floor addr (ms_modules ms) = Some (k, md)"
    and r: "md_avma_start md \<le> addr" "addr < md_avma_end md"
    by (auto simp: find_module_def split: option.splits if_splits)
  note g = modules_index.floor_hit_sound [OF wf(1) k r(2)]
  with wf(1) show "registered ms md" by (auto simp: registered_def bt_values_set)
  show "module_wf h md" using modules_wf_get [OF wf(2) g(1)] by simp
qed (use assms in \<open>auto simp: find_module_def split: option.splits if_splits\<close>)

lemma find_module_complete:
  assumes "module_set_wf h ms" and "modules_disjoint ms" and "registered ms md"
    and "md_avma_start md \<le> addr" and "addr < md_avma_end md"
  shows "find_module ms addr = Some md"
proof -
  have "bt_floor addr (ms_modules ms) = Some (md_avma_start md, md)"
    using assms by (intro modules_index.floor_hit_complete)
      (auto simp: modules_disjoint_def registered_iff module_set_wf_def modules_wf_def)
  with assms show ?thesis by (simp add: find_module_def)
qed

section \<open>Registering and removing\<close>

text \<open>Redirects inserted and removed, by what is found afterwards.\<close>

lemma redirects_wf_insert:
  assumes "redirects_wf m" and "\<forall>s \<in> set secs. local_section_ok s"
  shows "redirects_wf (insert_redirects md secs m)"
  using assms
proof (induction secs arbitrary: m)
  case Nil
  then show ?case by (simp add: insert_redirects_def)
next
  case (Cons s secs)
  have "redirects_wf (bt_insert (ls_avma_start s) \<lparr>re_section = \<lparr>ls_avma_start = ls_avma_start s,
      ls_avma_end = ls_avma_end s, ls_local_ptr = ls_local_ptr s\<rparr>, re_owner = md\<rparr> m)"
    using Cons.prems
    by (auto simp: redirects_wf_def bt_wf_insert set_bt_insert local_section_ok_def
        split: ptr.splits)
  with Cons show ?case by (simp add: insert_redirects_def)
qed

lemma redirects_wf_remove: "redirects_wf m \<Longrightarrow> redirects_wf (remove_redirects secs m)"
proof (induction secs arbitrary: m)
  case Nil
  then show ?case by (simp add: remove_redirects_def)
next
  case (Cons s secs)
  then have "redirects_wf (snd (bt_remove (ls_avma_start s) m))"
    using set_bt_remove [of "ls_avma_start s" m] by (auto simp: redirects_wf_def bt_wf_remove)
  with Cons show ?case by (simp add: remove_redirects_def)
qed

lemma bt_wf_insert_redirects: "bt_wf m \<Longrightarrow> bt_wf (insert_redirects md secs m)"
  unfolding insert_redirects_def by (induction secs arbitrary: m) (auto intro: bt_wf_insert)

lemma bt_get_insert_redirects_other:
  "bt_wf m \<Longrightarrow> k \<notin> ls_avma_start ` set secs \<Longrightarrow> bt_get k (insert_redirects md secs m) = bt_get k m"
  unfolding insert_redirects_def
  by (induction secs arbitrary: m) (simp_all add: bt_wf_insert bt_get_insert)

lemma bt_get_remove_redirects:
  "bt_wf m \<Longrightarrow> bt_get k (remove_redirects secs m) =
     (if k \<in> ls_avma_start ` set secs then None else bt_get k m)"
  unfolding remove_redirects_def
  by (induction secs arbitrary: m) (simp_all add: bt_wf_remove bt_get_remove)

lemma bt_wf_remove_redirects: "bt_wf m \<Longrightarrow> bt_wf (remove_redirects secs m)"
  unfolding remove_redirects_def by (induction secs arbitrary: m) (simp_all add: bt_wf_remove)

lemma module_set_new_wf: "module_set_wf h module_set_new"
  by (simp add: module_set_wf_def modules_wf_def redirects_wf_def module_set_new_def)

lemma module_set_add_wf:
  assumes "module_set_wf h ms" and "module_wf h md"
  shows "module_set_wf h (module_set_add ms md)"
  using assms
  by (auto simp: module_set_wf_def module_set_add_def modules_wf_def bt_wf_insert set_bt_insert
      Let_def module_wf_def intro: redirects_wf_insert)

lemma module_set_remove_wf:
  assumes "module_set_wf h ms"
  shows "module_set_wf h (module_set_remove ms a)"
proof -
  obtain r m where rm: "bt_remove a (ms_modules ms) = (r, m)" by fastforce
  have "modules_wf h m"
    using assms set_bt_remove [of a "ms_modules ms"] bt_wf_remove [of "ms_modules ms" a]
    by (auto simp: module_set_wf_def modules_wf_def rm)
  with assms rm show ?thesis
    by (auto simp: module_set_wf_def module_set_remove_def redirects_wf_remove split: option.split)
qed

lemma find_module_remove:
  assumes "module_set_wf h ms" and "modules_disjoint ms"
  shows "modules_disjoint (module_set_remove ms a)"
    and "registered (module_set_remove ms a) md \<longleftrightarrow> registered ms md \<and> md_avma_start md \<noteq> a"
proof -
  have wf: "bt_wf (ms_modules ms)" using assms by (simp add: module_set_wf_def modules_wf_def)
  have m: "ms_modules (module_set_remove ms a) = snd (bt_remove a (ms_modules ms))"
    by (simp add: module_set_remove_def split: prod.split option.split)
  show "modules_disjoint (module_set_remove ms a)"
    using assms(2) modules_index.disjoint_del [OF wf] by (simp add: modules_disjoint_def m)
  show "registered (module_set_remove ms a) md \<longleftrightarrow> registered ms md \<and> md_avma_start md \<noteq> a"
    unfolding registered_iff [OF module_set_remove_wf [OF assms(1)]] registered_iff [OF assms(1)]
    by (simp add: m bt_get_remove [OF wf])
qed

text \<open>A module whose range and mirrors are new to the registry.\<close>

definition no_overlap :: "module_set \<Rightarrow> module_data \<Rightarrow> bool" where
  "no_overlap ms md \<longleftrightarrow>
     (\<forall>x \<in> set (bt_values (ms_modules ms)).
        (md_avma_start x < md_avma_start md \<longrightarrow> md_avma_end x \<le> md_avma_start md) \<and>
        (md_avma_start md < md_avma_start x \<longrightarrow> md_avma_end md \<le> md_avma_start x))"

definition fresh_module :: "module_set \<Rightarrow> module_data \<Rightarrow> bool" where
  "fresh_module ms md \<longleftrightarrow>
     bt_get (md_avma_start md) (ms_modules ms) = None \<and>
     (\<forall>s \<in> set (md_local_sections md). bt_get (ls_avma_start s) (ms_redirects ms) = None)"

lemma modules_disjoint_add:
  assumes "module_set_wf h ms" and "modules_disjoint ms" and "no_overlap ms md"
  shows "modules_disjoint (module_set_add ms md)"
proof -
  have wf: "bt_wf (ms_modules ms)" using assms(1) by (simp add: module_set_wf_def modules_wf_def)
  have start: "md_avma_start x = k \<and> x \<in> set (bt_values (ms_modules ms))"
    if "bt_get k (ms_modules ms) = Some x" for k x
    using that assms(1) modules_wf_get [of h "ms_modules ms" k x]
    by (auto simp: module_set_wf_def bt_values_set [OF wf])
  have "ivals_disjoint (\<lambda>k. bt_get k (bt_insert (md_avma_start md) md (ms_modules ms))) md_avma_end"
    using wf assms(2,3) start
    by (intro modules_index.disjoint_put) (auto simp: modules_disjoint_def no_overlap_def)
  then show ?thesis by (simp add: modules_disjoint_def module_set_add_def)
qed

lemma module_set_remove_add:
  assumes "bt_wf (ms_modules ms)" and "bt_wf (ms_redirects ms)" and "fresh_module ms md"
  shows "module_set_remove (module_set_add ms md) (md_avma_start md) = ms"
proof -
  define m where "m = bt_insert (md_avma_start md) md (ms_modules ms)"
  define r where "r = insert_redirects md (md_local_sections md) (ms_redirects ms)"
  have wf: "bt_wf m" "bt_wf r"
    using assms(1,2) by (simp_all add: m_def r_def bt_wf_insert bt_wf_insert_redirects)
  have m': "snd (bt_remove (md_avma_start md) m) = ms_modules ms"
    using assms(1,3) wf
    by (intro bt_ext) (auto simp: bt_wf_remove bt_get_remove m_def bt_get_insert fresh_module_def)
  have r': "remove_redirects (md_local_sections md) r = ms_redirects ms"
  proof (rule bt_ext)
    show "bt_get k (remove_redirects (md_local_sections md) r) = bt_get k (ms_redirects ms)" for k
      unfolding bt_get_remove_redirects [OF wf(2)] using assms(2,3)
      by (auto simp: fresh_module_def r_def bt_get_insert_redirects_other)
  qed (simp_all add: wf assms bt_wf_remove_redirects)
  have "fst (bt_remove (md_avma_start md) m) = Some md"
    using wf assms(1) by (simp add: fst_bt_remove m_def bt_get_insert)
  then have "bt_remove (md_avma_start md) m = (Some md, ms_modules ms)"
    using m' by (metis prod.collapse)
  with r' show ?thesis
    by (simp add: module_set_remove_def module_set_add_def m_def r_def Let_def)
qed

text \<open>Cloning re-registers every module in order.\<close>

lemma clone_fold:
  "bt_wf (m @ n) \<Longrightarrow> \<forall>(k, md) \<in> set (m @ n). md_avma_start md = k \<Longrightarrow> ms_modules acc = m \<Longrightarrow>
     ms_modules (fold (\<lambda>md acc. module_set_add acc md) (map snd n) acc) = m @ n"
proof (induction n arbitrary: m acc)
  case Nil
  then show ?case by simp
next
  case (Cons e n)
  have last: "bt_insert k v m = m @ [(k, v)]" if "\<forall>x \<in> set m. fst x < k" for k :: u64 and v :: module_data
    using that by (induction m) auto
  have "\<forall>x \<in> set m. fst x < fst e"
    using Cons.prems(1) by (auto simp: bt_wf_def sorted_wrt_append)
  moreover have "md_avma_start (snd e) = fst e" using Cons.prems(2) by (cases e) auto
  ultimately have "ms_modules (module_set_add acc (snd e)) = m @ [e]"
    using Cons.prems(3) last [of "fst e" "snd e"] by (simp add: module_set_add_def Let_def)
  with Cons.IH [of "m @ [e]"] Cons.prems show ?case by simp
qed

lemma clone_modules:
  assumes "module_set_wf h ms"
  shows "ms_modules (module_set_clone ms) = ms_modules ms"
  using assms clone_fold [of "[]" "ms_modules ms" module_set_new]
  by (auto simp: module_set_clone_def module_set_wf_def modules_wf_def bt_values_def
      module_set_new_def)

lemma module_set_clone_wf:
  assumes "module_set_wf h ms"
  shows "module_set_wf h (module_set_clone ms)"
proof -
  have "\<forall>md \<in> set (bt_values (ms_modules ms)). module_wf h md"
    using assms by (auto simp: module_set_wf_def modules_wf_def bt_values_def)
  moreover have "module_set_wf h (fold (\<lambda>md acc. module_set_add acc md) mds acc)"
    if "module_set_wf h acc" "\<forall>md \<in> set mds. module_wf h md" for mds acc
    using that by (induction mds arbitrary: acc) (auto intro: module_set_add_wf)
  ultimately show ?thesis
    unfolding module_set_clone_def using module_set_new_wf by blast
qed

lemma max_known_eq: "max_known_code_address ms = Max (set (0 # map md_avma_end (bt_values (ms_modules ms))))"
  unfolding max_known_code_address_def by (rule Max.set_eq_fold [symmetric])

lemma max_known_above:
  assumes "registered ms md" and "a < md_avma_end md"
  shows "a < max_known_code_address ms"
proof -
  have "md_avma_end md \<le> max_known_code_address ms"
    using assms(1) unfolding max_known_eq registered_def by (intro Max_ge) auto
  with assms(2) show ?thesis by simp
qed

section \<open>Local reads\<close>

text \<open>The word a mirrored section holds at an address inside it.\<close>

lemma lookup_local_read:
  assumes "redirects_wf (ms_redirects ms)" and "lookup_local ms addr = Some p"
    and "\<forall>e \<in> set (bt_values (ms_redirects ms)). ls_avma_end (re_section e) \<noteq> - 1"
  obtains e bs where "e \<in> set (bt_values (ms_redirects ms))" and "ls_local_ptr (re_section e) = Ptr bs 0"
    and "ls_avma_start (re_section e) \<le> addr"
    and "p = Ptr bs (unat (addr - ls_avma_start (re_section e)))"
    and "unat (addr - ls_avma_start (re_section e)) + 8 \<le> length bs"
proof -
  have wf: "bt_wf (ms_redirects ms)" using assms(1) by (simp add: redirects_wf_def)
  from assms(2) obtain k e where f: "bt_floor addr (ms_redirects ms) = Some (k, e)"
    and c: "ls_avma_start (re_section e) \<le> addr" "saturating_add_u64 addr 8 \<le> ls_avma_end (re_section e)"
    and p: "p = ptr_add (ls_local_ptr (re_section e)) (unat (addr - ls_avma_start (re_section e)))"
    by (auto simp: lookup_local_def Let_def split: option.splits if_splits)
  note d = bt_floor_SomeD [OF wf f]
  have e: "e \<in> set (bt_values (ms_redirects ms))" using d(1) by (force simp: bt_values_def)
  have ok: "local_section_ok (re_section e)" using d(1) assms(1) by (auto simp: redirects_wf_def)
  obtain bs where bs: "ls_local_ptr (re_section e) = Ptr bs 0" and sl: "slice_ok bs"
    and en: "ls_avma_end (re_section e) = saturating_add_u64 (ls_avma_start (re_section e)) (word_of_nat (length bs))"
    using ok by (auto simp: local_section_ok_def split: ptr.splits)
  have len: "unat (word_of_nat (length bs) :: u64) = length bs" using sl by (simp add: slice_ok_def)
  have ne: "ls_avma_end (re_section e) \<noteq> - 1" using assms(3) e by blast
  have "unat (ls_avma_end (re_section e)) = unat (ls_avma_start (re_section e)) + length bs"
    using en ne len unat_add_no_overflow [of "ls_avma_start (re_section e)" "word_of_nat (length bs)"]
    by (auto simp: saturating_add_u64_def split: if_splits)
  moreover have "unat addr + 8 \<le> unat (ls_avma_end (re_section e))"
  proof -
    have "\<not> - 1 \<le> ls_avma_end (re_section e)" using ne word_order.extremum_uniqueI by blast
    with c(2) have "unat addr + unat (8 :: u64) < usize_limit"
      by (auto simp: saturating_add_u64_def split: if_splits)
    with c(2) unat_add_no_overflow [OF this] show ?thesis
      by (simp add: saturating_add_u64_def word_le_nat_alt)
  qed
  moreover have "unat (addr - ls_avma_start (re_section e)) = unat addr - unat (ls_avma_start (re_section e))"
    using c(1) by (simp add: unat_sub)
  ultimately have "unat (addr - ls_avma_start (re_section e)) + 8 \<le> length bs"
    using c(1) by (simp add: word_le_nat_alt)
  with that e bs c(1) p show ?thesis by simp
qed

text \<open>Past the last word of a section the check holds only when the end saturates.\<close>

lemma saturating_past_end:
  assumes "slice_ok bs" and "avma \<le> a \<and> length bs < unat (a - avma) + 8"
  shows "saturating_add_u64 a 8 \<le> saturating_add_u64 avma (word_of_nat (length bs)) \<longleftrightarrow>
    2 ^ 64 - 1 \<le> unat avma + length bs"
proof -
  have len: "unat (word_of_nat (length bs) :: u64) = length bs" using assms(1) by (simp add: slice_ok_def)
  have a: "unat (a - avma) = unat a - unat avma" "unat avma \<le> unat a"
    using assms(2) by (simp_all add: unat_sub word_le_nat_alt)
  have s: "unat (saturating_add_u64 x y) = min (unat x + unat y) (2 ^ 64 - 1)" for x y :: u64
    using unat_add_no_overflow [of x y] unsigned_less [of "x + y", where 'a = nat]
    by (auto simp: saturating_add_u64_def min_def)
  show ?thesis
    unfolding word_le_nat_alt s len using a assms(2) by (auto simp: min_def)
qed

text \<open>The word at \<open>addr\<close> in a registered mirror: its section's bytes and the offset there.\<close>

definition mirror_at :: "module_set \<Rightarrow> u64 \<Rightarrow> bytes \<Rightarrow> nat \<Rightarrow> bool" where
  "mirror_at ms addr bs off \<longleftrightarrow>
     (\<exists>e \<in> set (bt_values (ms_redirects ms)). ls_local_ptr (re_section e) = Ptr bs 0 \<and>
        unat addr = unat (ls_avma_start (re_section e)) + off \<and> off + 8 \<le> length bs)"

text \<open>The mirrored sections of one address space do not overlap.\<close>

definition mirrors_disjoint :: "module_set \<Rightarrow> bool" where
  "mirrors_disjoint ms \<longleftrightarrow> ivals_disjoint (\<lambda>k. bt_get k (ms_redirects ms)) (\<lambda>e. ls_avma_end (re_section e))"

lemma lookup_local_complete:
  assumes wf: "redirects_wf (ms_redirects ms)" and dis: "mirrors_disjoint ms"
    and ends: "\<forall>e \<in> set (bt_values (ms_redirects ms)). ls_avma_end (re_section e) \<noteq> - 1"
    and at: "mirror_at ms addr bs off"
  shows "lookup_local ms addr = Some (Ptr bs off)"
proof -
  from at obtain e where e: "e \<in> set (bt_values (ms_redirects ms))" "ls_local_ptr (re_section e) = Ptr bs 0"
    "unat addr = unat (ls_avma_start (re_section e)) + off" "off + 8 \<le> length bs"
    by (auto simp: mirror_at_def)
  let ?s = "ls_avma_start (re_section e)"
  have bt: "bt_wf (ms_redirects ms)" using wf by (simp add: redirects_wf_def)
  from e(1) obtain k where k: "bt_get k (ms_redirects ms) = Some e" by (auto simp: bt_values_set [OF bt])
  then have "ls_avma_start (re_section e) = k" and ok: "local_section_ok (re_section e)"
    using wf by (auto simp: redirects_wf_def dest: bt_get_in_set)
  from ok e(2) have sl: "slice_ok bs"
    and en: "ls_avma_end (re_section e) = saturating_add_u64 ?s (word_of_nat (length bs))"
    by (simp_all add: local_section_ok_def)
  have len: "unat (word_of_nat (length bs) :: u64) = length bs" using sl by (simp add: slice_ok_def)
  have fits: "unat ?s + length bs < 2 ^ 64" and ue: "unat (ls_avma_end (re_section e)) = unat ?s + length bs"
    using en ends e(1) len unat_add_no_overflow [of ?s "word_of_nat (length bs)"]
    by (auto simp: saturating_add_u64_def split: if_splits)
  have "bt_floor addr (ms_redirects ms) = Some (k, e)"
    using dis k e(3,4) ue \<open>ls_avma_start (re_section e) = k\<close>
    by (intro redirects_index.floor_hit_complete [OF bt])
      (auto simp: mirrors_disjoint_def word_le_nat_alt word_less_nat_alt)
  moreover have "saturating_add_u64 addr 8 \<le> ls_avma_end (re_section e)"
    using e(3,4) ue fits unat_add_no_overflow [of addr 8] by (simp add: saturating_add_u64_def word_le_nat_alt)
  moreover have "?s \<le> addr" "unat (addr - ?s) = off" using e(3) by (simp_all add: word_le_nat_alt unat_sub)
  ultimately show ?thesis using e(2) by (simp add: lookup_local_def Let_def)
qed

lemma lookup_local_iff:
  assumes "redirects_wf (ms_redirects ms)" and "mirrors_disjoint ms"
    and "\<forall>e \<in> set (bt_values (ms_redirects ms)). ls_avma_end (re_section e) \<noteq> - 1"
  shows "lookup_local ms addr = Some p \<longleftrightarrow> (\<exists>bs off. p = Ptr bs off \<and> mirror_at ms addr bs off)"
proof
  assume "lookup_local ms addr = Some p"
  from lookup_local_read [OF assms(1) this assms(3)] obtain e bs where
    "e \<in> set (bt_values (ms_redirects ms))" "ls_local_ptr (re_section e) = Ptr bs 0"
    "ls_avma_start (re_section e) \<le> addr" "p = Ptr bs (unat (addr - ls_avma_start (re_section e)))"
    "unat (addr - ls_avma_start (re_section e)) + 8 \<le> length bs" by blast
  then show "\<exists>bs off. p = Ptr bs off \<and> mirror_at ms addr bs off"
    by (force simp: mirror_at_def unat_sub word_le_nat_alt)
qed (use lookup_local_complete [OF assms] in blast)

section \<open>A sample registry\<close>

definition sample_set :: module_set where
  "sample_set = module_set_add module_set_new (sample_module 0)"

text \<open>A second module at the start address of the sample.\<close>

definition moved_module :: module_data where
  "moved_module = (sample_module 0)\<lparr>md_local_sections := [local_section_of 0x8000 sample_eh_frame]\<rparr>"

lemma sample_set_wf: "module_set_wf [Unlocked []] sample_set"
  unfolding sample_set_def
  by (intro module_set_add_wf module_set_new_wf) (simp add: sample_module_wf)

lemma sample_set_disjoint: "modules_disjoint sample_set"
  unfolding sample_set_def
  by (rule modules_disjoint_add [OF module_set_new_wf [of "[]"]])
    (simp_all add: module_set_new_def modules_disjoint_def no_overlap_def bt_values_def
      ivals_disjoint_def)

lemma sample_registered: "registered sample_set (sample_module 0)"
  by (simp add: registered_def sample_set_def module_set_add_def module_set_new_def bt_values_def)

lemma sample_lookup_local:
  "lookup_local sample_set 0x3008 = Some (Ptr sample_eh_frame 8)"
  by (simp add: lookup_local_def sample_set_def module_set_add_def module_set_new_def
      insert_redirects_def sample_module_def local_section_of_def saturating_add_u64_def
      sample_eh_frame_def sample_hdr_def encode_hdr_def Let_def)

lemma sample_redirect_ends:
  "\<forall>e \<in> set (bt_values (ms_redirects sample_set)). ls_avma_end (re_section e) \<noteq> - 1"
  by (simp add: sample_set_def module_set_add_def module_set_new_def bt_values_def
      insert_redirects_def sample_module_def local_section_of_def saturating_add_u64_def
      sample_eh_frame_def sample_hdr_def encode_hdr_def Let_def)

lemma sample_mirrors_disjoint: "mirrors_disjoint sample_set"
  by (auto simp: mirrors_disjoint_def ivals_disjoint_def sample_set_def module_set_add_def module_set_new_def
      insert_redirects_def sample_module_def local_section_of_def saturating_add_u64_def
      sample_eh_frame_def sample_hdr_def encode_hdr_def Let_def split: if_splits)

lemma sample_mirror_at: "mirror_at sample_set 0x3008 sample_eh_frame 8"
  by (simp add: mirror_at_def sample_set_def module_set_add_def module_set_new_def bt_values_def
      insert_redirects_def sample_module_def local_section_of_def saturating_add_u64_def
      sample_eh_frame_def sample_hdr_def encode_hdr_def Let_def)

section \<open>Properties\<close>

text \<open>C7: Module lookup is exact.  In a well-formed registry of images that do not overlap,
  \<open>find_module(addr)\<close> returns a module if and only if it is registered and its address range
  contains \<open>addr\<close>; in particular it finds it in one ordered-map query whatever the order in
  which modules were added and removed.\<close>

theorem find_module_correct:
  assumes "module_set_wf h ms" and "modules_disjoint ms"
  shows "find_module ms addr = Some md \<longleftrightarrow>
    registered ms md \<and> md_avma_start md \<le> addr \<and> addr < md_avma_end md"
  using find_module_sound [OF assms(1)] find_module_complete [OF assms] by blast

theorem find_module_correct_witness:
  "find_module sample_set 0x1008 = Some (sample_module 0)"
  unfolding find_module_correct [OF sample_set_wf sample_set_disjoint]
  by (simp add: sample_registered) (simp add: sample_module_def)

text \<open>C29: Every operation of the registry keeps its invariant (both maps ordered and keyed by
  the start address, every module and every mirrored section well formed), and the images
  stay disjoint when each added image overlaps none already registered.\<close>

theorem module_set_invariant:
  assumes "module_set_wf h ms" and "module_wf h md"
  shows "module_set_wf h module_set_new \<and> module_set_wf h (module_set_add ms md) \<and>
    module_set_wf h (module_set_remove ms a) \<and> module_set_wf h (module_set_clone ms) \<and>
    modules_disjoint module_set_new \<and>
    (modules_disjoint ms \<and> no_overlap ms md \<longrightarrow> modules_disjoint (module_set_add ms md)) \<and>
    (modules_disjoint ms \<longrightarrow> modules_disjoint (module_set_remove ms a))"
  using assms module_set_new_wf module_set_add_wf module_set_remove_wf module_set_clone_wf
    modules_disjoint_add find_module_remove(1) modules_index.disjoint_new
  by (auto simp: modules_disjoint_def module_set_new_def)

theorem module_set_invariant_witness:
  "module_set_wf [Unlocked []] (module_set_add sample_set (sample_module 0)) \<and>
   modules_disjoint (module_set_remove sample_set 0x1000)"
  using module_set_invariant [OF sample_set_wf sample_module_wf [of 0 "[Unlocked []]"], of "0x1000"]
    sample_set_disjoint by simp

text \<open>C30: Removing undoes adding.  Adding a module whose start address and mirrored sections
  are new to the registry and removing it again gives back the very same registry: no
  redirect and no module is lost or left behind.\<close>

theorem module_set_add_remove:
  assumes "module_set_wf h ms" and "fresh_module ms md"
  shows "module_set_remove (module_set_add ms md) (md_avma_start md) = ms"
  using assms by (intro module_set_remove_add)
    (simp_all add: module_set_wf_def modules_wf_def redirects_wf_def)

theorem module_set_add_remove_witness:
  "module_set_remove (module_set_add module_set_new (sample_module 0)) 0x1000 = module_set_new"
  using module_set_add_remove [OF module_set_new_wf [of "[]"], of "sample_module 0"]
  by (simp add: fresh_module_def module_set_new_def sample_module_def)

text \<open>C21: Local reads stay inside the section.  When no mirrored section ends at the very top
  of the address space, every pointer \<open>lookup_local\<close> returns can be read for 8 bytes without
  undefined behaviour, and the bytes are those the section holds at that address.\<close>

theorem lookup_local_safe:
  assumes "module_set_wf h ms" and "lookup_local ms addr = Some p"
    and "\<forall>e \<in> set (bt_values (ms_redirects ms)). ls_avma_end (re_section e) \<noteq> - 1"
  shows "\<exists>e bs. e \<in> set (bt_values (ms_redirects ms)) \<and> ls_local_ptr (re_section e) = Ptr bs 0 \<and>
    ls_avma_start (re_section e) \<le> addr \<and>
    from_raw_parts p 8 = Ok (take 8 (drop (unat (addr - ls_avma_start (re_section e))) bs)) \<and>
    unat (addr - ls_avma_start (re_section e)) + 8 \<le> length bs"
proof -
  have "redirects_wf (ms_redirects ms)" using assms(1) by (simp add: module_set_wf_def)
  from lookup_local_read [OF this assms(2,3)] show ?thesis by (metis from_raw_parts.simps(2))
qed

theorem lookup_local_safe_witness:
  "\<exists>e bs. e \<in> set (bt_values (ms_redirects sample_set)) \<and> ls_local_ptr (re_section e) = Ptr bs 0 \<and>
    ls_avma_start (re_section e) \<le> 0x3008 \<and>
    from_raw_parts (Ptr sample_eh_frame 8) 8 =
      Ok (take 8 (drop (unat (0x3008 - ls_avma_start (re_section e))) bs)) \<and>
    unat (0x3008 - ls_avma_start (re_section e)) + 8 \<le> length bs"
  by (rule lookup_local_safe [OF sample_set_wf sample_lookup_local sample_redirect_ends])



text \<open>C28: What the strict constructor promises the unwinder.  Register the module \<open>Module::new\<close>
  builds from any sections among images it does not overlap.  Inside its range DWARF unwinding is
  then used if and only if \<open>try_from_section_info\<close> accepts the same sections (and returns the same
  module) and the search table has at least one entry; and for accepted sections no address of
  the range reports a broken table.\<close>

theorem strict_modules_unwind:
  assumes "derefs deref (mp_eh_frame_hdr (module_parts_from_section_info ops name r b s))"
    and "derefs deref (mp_eh_frame (module_parts_from_section_info ops name r b s))"
    and "module_new oc deref ops name r b s h = Ok (md, h')"
    and "module_set_wf h' ms" and "modules_disjoint ms" and "no_overlap ms md"
    and "fst r \<le> a" and "a < snd r"
  shows "(has_unwind_info (module_set_add ms md) a \<longleftrightarrow>
      try_from_section_info oc deref ops name r b s h = Ok (md, h') \<and> tbl_entry_count (md_table md) \<noteq> 0) \<and>
    (try_from_section_info oc deref ops name r b s h = Ok (md, h') \<longrightarrow>
      module_set_unwind_info_error (module_set_add ms md) a = None)"
proof -
  let ?parts = "module_parts_from_section_info ops name r b s"
  have fp: "from_parts oc deref ?parts h = Ok (md, h')" using assms(3) by (simp add: module_new_def)
  have wf: "module_wf h' md" and rng: "md_avma_start md = fst r" "md_avma_end md = snd r"
    using from_parts_wf [OF assms(1,2), of oc h] fp by (auto simp: module_parts_range)
  have "registered (module_set_add ms md) md"
    using registered_iff [OF module_set_add_wf [OF assms(4) wf]] assms(4)
    by (simp add: module_set_add_def bt_get_insert module_set_wf_def modules_wf_def)
  then have find: "find_module (module_set_add ms md) a = Some md"
    using assms(7,8) rng
    by (intro find_module_complete [OF module_set_add_wf [OF assms(4) wf] modules_disjoint_add [OF assms(4-6)]])
      simp_all
  have strict: "try_from_section_info oc deref ops name r b s h = Ok (md, h') \<longleftrightarrow> complete_sections md"
    unfolding try_from_section_info_def Let_def using try_from_iff [OF assms(1,2), of oc h md h'] fp by simp
  have "md_eh_frame_hdr_error md = None" if "tbl_entry_count (md_table md) \<noteq> 0"
    using fp that broken_table_empty [OF assms(1)] by blast
  with find assms(7,8) rng show ?thesis
    unfolding strict
    by (auto simp: has_unwind_info_def complete_sections_def module_set_unwind_info_error_def)
qed

theorem strict_modules_unwind_witness:
  "has_unwind_info (module_set_add module_set_new (sample_module 0)) 0x1008 \<and>
   try_from_section_info True Ok dwarf_section_info ''sample'' (0x1000, 0x2000) 0 sample_sections [] =
     Ok (sample_module 0, [Unlocked []])"
proof -
  have acc: "try_from_section_info True Ok dwarf_section_info ''sample'' (0x1000, 0x2000) 0 sample_sections [] =
      Ok (sample_module 0, [Unlocked []])"
    using sample_module_built [of True "[]"] section_adapters_agree [of True Ok "''sample''" "(0x1000, 0x2000)" 0
        sample_sections "[]"] by simp
  then have "module_new True Ok dwarf_section_info ''sample'' (0x1000, 0x2000) 0 sample_sections [] =
      Ok (sample_module 0, [Unlocked []])"
    by (auto simp: try_from_section_info_def module_new_def Let_def)
  from strict_modules_unwind [OF _ _ this module_set_new_wf, of "0x1008"] acc
  show ?thesis
    by (simp add: dwarf_parts sample_sections_def sample_slice_ok sample_hdr_ok modules_disjoint_def
        module_set_new_def ivals_disjoint_def no_overlap_def bt_values_def)
      (simp add: sample_module_def sample_table_def)
qed

text \<open>A clone answers module queries like the original: it has the same modules, so
  \<open>find_module\<close>, \<open>has_unwind_info\<close>, \<open>contains_address\<close>, \<open>unwind_info_error\<close>,
  \<open>is_signal_frame\<close> and \<open>max_known_code_address\<close> agree at every address.\<close>

theorem module_set_clone_agrees:
  assumes "module_set_wf h ms"
  shows "find_module (module_set_clone ms) a = find_module ms a \<and>
    has_unwind_info (module_set_clone ms) a = has_unwind_info ms a \<and>
    contains_address (module_set_clone ms) a = contains_address ms a \<and>
    module_set_unwind_info_error (module_set_clone ms) a = module_set_unwind_info_error ms a \<and>
    module_set_is_signal_frame h (module_set_clone ms) a = module_set_is_signal_frame h ms a \<and>
    max_known_code_address (module_set_clone ms) = max_known_code_address ms"
  using clone_modules [OF assms]
  by (simp add: find_module_def has_unwind_info_def contains_address_def
      module_set_unwind_info_error_def module_set_is_signal_frame_def max_known_code_address_def)

theorem module_set_clone_agrees_witness:
  "find_module (module_set_clone sample_set) 0x1008 = find_module sample_set 0x1008"
  using module_set_clone_agrees [OF sample_set_wf, of "0x1008"] by blast

text \<open>Replacing a module leaves stale mirrors.  When a second module is added at the start
  address of the first, the first module's mirrored section stays registered although the
  module is gone: \<open>lookup_local\<close> still serves its bytes, a clone of the registry does not,
  and removing the address does not clear it either.\<close>

theorem module_set_stale_redirect:
  "lookup_local (module_set_add sample_set moved_module) 0x3008 = Some (Ptr sample_eh_frame 8) \<and>
   lookup_local (module_set_clone (module_set_add sample_set moved_module)) 0x3008 = None \<and>
   lookup_local (module_set_remove (module_set_add sample_set moved_module) 0x1000) 0x3008 =
     Some (Ptr sample_eh_frame 8) \<and>
   find_module (module_set_remove (module_set_add sample_set moved_module) 0x1000) 0x1008 = None"
  by (simp add: lookup_local_def module_set_clone_def find_module_def sample_set_def
      module_set_add_def module_set_remove_def module_set_new_def bt_values_def
      insert_redirects_def remove_redirects_def moved_module_def sample_module_def
      local_section_of_def saturating_add_u64_def sample_eh_frame_def sample_hdr_def
      encode_hdr_def Let_def)

text \<open>The highest known code address bounds every code address the registry can resolve,
  and it is itself the end of a registered module unless there is none (then it is 0).\<close>

theorem max_known_code_address_spec:
  assumes "module_set_wf h ms"
  shows "(find_module ms a = Some md \<longrightarrow> a < max_known_code_address ms) \<and>
    (max_known_code_address ms = 0 \<or>
     (\<exists>md. registered ms md \<and> max_known_code_address ms = md_avma_end md))"
proof
  show "find_module ms a = Some md \<longrightarrow> a < max_known_code_address ms"
    using find_module_sound [OF assms] max_known_above by blast
  have "max_known_code_address ms \<in> set (0 # map md_avma_end (bt_values (ms_modules ms)))"
    unfolding max_known_eq by (rule Max_in) simp_all
  then show "max_known_code_address ms = 0 \<or>
      (\<exists>md. registered ms md \<and> max_known_code_address ms = md_avma_end md)"
    by (auto simp: registered_def)
qed

theorem max_known_code_address_spec_witness:
  "0x1008 < max_known_code_address sample_set"
  using max_known_code_address_spec [OF sample_set_wf, of "0x1008" "sample_module 0"]
    find_module_complete [OF sample_set_wf sample_set_disjoint sample_registered, of "0x1008"]
  by (simp add: sample_module_def)

end
