(* ===== verification/Callbacks.thy ===== *)
theory Callbacks
  imports Module_Set
begin

text \<open>
  \<open>callbacks.rs\<close> and \<open>unwind_ctx.rs\<close>: the accessor callbacks libunwind calls during a
  step, and the per-function cache behind \<open>find_proc_info\<close>.

  An \<open>extern "C"\<close> callback returns its status code and writes through pointers; here it
  returns the status together with everything it may have written (the \<open>pi\<close> record or the
  word behind \<open>val\<close>, the context, and the heap of function caches).  The user's
  \<open>read_fn: FnMut\<close> is a function over a state of the user's choice.
\<close>

section \<open>The per-step context\<close>

type_synonym 's reader_fn = "'s \<Rightarrow> u64 \<Rightarrow> u64 option \<times> 's"

record ('r, 's) unwind_ctx =
  ctx_modules :: module_set
  ctx_regs :: 'r
  ctx_lookup_ip :: u64
  ctx_reader :: 's
  ctx_last_failed_read_addr :: "u64 option"
  ctx_unwind_info_error :: "unwind_info_error option"

section \<open>Function details\<close>

text \<open>The CIE an FDE names: the block that computes \<open>cie_offset\<close>.\<close>

definition cie_offset_of ::
    "bool \<Rightarrow> string \<Rightarrow> bytes \<Rightarrow> usize \<Rightarrow> (usize, unwind_info_error) outcome" where
  "cie_offset_of oc name eh_frame_bytes fde_offset =
     and_then (usize_add oc fde_offset 4) (\<lambda>len_end.
     and_then (ok_or (slice_range eh_frame_bytes fde_offset len_end)
       (FdeLengthPrefixTruncated name fde_offset (length eh_frame_bytes))) (\<lambda>len_prefix.
     let len32 = u32_from_le len_prefix in
     and_then
       (if len32 = 0xffffffff then and_then (usize_add oc fde_offset 12) (\<lambda>p. Ok (p, 8))
        else and_then (usize_add oc fde_offset 4) (\<lambda>p. Ok (p, 4))) (\<lambda>(cie_ptr_pos, cie_ptr_len).
     and_then (usize_add oc cie_ptr_pos cie_ptr_len) (\<lambda>cie_ptr_end.
     and_then (ok_or (slice_range eh_frame_bytes cie_ptr_pos cie_ptr_end)
       (CiePointerTruncated name cie_ptr_pos (length eh_frame_bytes))) (\<lambda>cie_ptr_bytes.
     let cie_ptr = (if cie_ptr_len = 8 then u64_from_le cie_ptr_bytes
                    else ucast (u32_from_le cie_ptr_bytes)) in
     ok_or (checked_sub_usize cie_ptr_pos (unat cie_ptr))
       (CiePointerUnderflow name cie_ptr_pos cie_ptr))))))"

definition parse_function_details ::
    "bool \<Rightarrow> module_data \<Rightarrow> u64 \<Rightarrow> (function_details, unwind_info_error) outcome" where
  "parse_function_details oc md ip =
     (if is_null (md_eh_frame_local_ptr md) \<or> is_null (md_eh_frame_hdr_local_ptr md) then
        Err (MissingLocalUnwindSections (md_name md) ip)
      else
      and_then (from_raw_parts (md_eh_frame_hdr_local_ptr md) (md_eh_frame_hdr_local_len md)) (\<lambda>hdr_bytes.
      and_then (eh_frame_table_lookup oc (md_table md) hdr_bytes ip) (\<lambda>hit.
      and_then (ok_or hit (EhFrameHeaderLookupMiss (md_name md) ip)) (\<lambda>(_, fde_avma).
      and_then (from_raw_parts (md_eh_frame_local_ptr md) (md_eh_frame_local_len md)) (\<lambda>eh_frame_bytes.
      and_then (ok_or (checked_sub_u64 fde_avma (md_eh_frame_avma md))
        (FdeOffsetBeforeEhFrame (md_name md) fde_avma (md_eh_frame_avma md))) (\<lambda>d.
      let fde_offset = unat d in
      if fde_offset \<ge> length eh_frame_bytes then
        Err (FdeOffsetOutOfRange (md_name md) fde_offset (length eh_frame_bytes))
      else
      and_then (cie_offset_of oc (md_name md) eh_frame_bytes fde_offset) (\<lambda>cie_offset.
      and_then (map_err (CieParse (md_name md) cie_offset)
        (parse_cie oc eh_frame_bytes cie_offset (md_eh_frame_avma md))) (\<lambda>cie.
      and_then (map_err (FdeParse (md_name md) fde_offset)
        (parse_fde oc eh_frame_bytes fde_offset (md_eh_frame_avma md)
          \<lparr>cfg_fde_encoding = cie_fde_encoding cie, cfg_lsda_encoding = cie_lsda_encoding cie,
           cfg_has_z = cie_has_z cie, cfg_text_base = md_text_base md,
           cfg_data_base = md_data_base md\<rparr>)) (\<lambda>fde.
      case checked_add_u64 (fde_initial_pc fde) (fde_address_range fde) of
        None \<Rightarrow> Err (EhFrameHeaderLookupMiss (md_name md) ip)
      | Some end_ip \<Rightarrow>
          if ip < fde_initial_pc fde \<or> ip \<ge> end_ip then
            Err (EhFrameHeaderLookupMiss (md_name md) ip)
          else
            let cie_info = build_dwarf_cie_info cie fde (md_eh_frame_avma md) in
            Ok \<lparr>fd_start_ip = fde_initial_pc fde, fd_end_ip = end_ip, fd_cie_info = cie_info,
                fd_lsda = fde_lsda fde, fd_handler = cie_personality cie,
                fd_signal_frame = cie_signal_frame cie\<rparr>)))))))))"

section \<open>The function cache\<close>

text \<open>The first critical section: a cached function that covers \<open>ip\<close>.\<close>

definition cache_hit :: "function_cache \<Rightarrow> u64 \<Rightarrow> function_details option" where
  "cache_hit cache ip =
     (case bt_floor ip cache of
        None \<Rightarrow> None
      | Some (_, details) \<Rightarrow> if ip < fd_end_ip details then Some details else None)"

definition get_or_parse_function_details ::
    "bool \<Rightarrow> cache_heap \<Rightarrow> module_data \<Rightarrow> u64 \<Rightarrow>
     (function_details, unwind_info_error) outcome \<times> cache_heap" where
  "get_or_parse_function_details oc h md ip =
     (case lock_cache h (md_function_cache md) of
        None \<Rightarrow> (Err (FunctionCachePoisoned (md_name md)), h)
      | Some cache \<Rightarrow>
          (case cache_hit cache ip of
             Some details \<Rightarrow> (Ok details, h)
           | None \<Rightarrow>
               (case parse_function_details oc md ip of
                  Ok details \<Rightarrow>
                    (case lock_cache h (md_function_cache md) of
                       None \<Rightarrow> (Err (FunctionCachePoisoned (md_name md)), h)
                     | Some cache \<Rightarrow>
                         (Ok details, h[md_function_cache md :=
                            Unlocked (bt_insert (fd_start_ip details) details cache)]))
                | r \<Rightarrow> (r, h))))"

section \<open>The callbacks\<close>

text \<open>Status, the record behind \<open>pi\<close>, the context and the heap.\<close>

definition find_proc_info ::
    "bool \<Rightarrow> cache_heap \<Rightarrow> ('r, 's) unwind_ctx \<Rightarrow> unw_proc_info \<Rightarrow>
     (i32 \<times> unw_proc_info \<times> ('r, 's) unwind_ctx, unwind_info_error) outcome \<times> cache_heap" where
  "find_proc_info oc h ctx pinfo =
     (let lookup_ip = ctx_lookup_ip ctx in
      case find_module (ctx_modules ctx) lookup_ip of
        None \<Rightarrow>
          (Ok (- UNW_ENOINFO, pinfo,
             ctx\<lparr>ctx_unwind_info_error := Some (ModuleNotFound lookup_ip)\<rparr>), h)
      | Some md \<Rightarrow>
          (case get_or_parse_function_details oc h md lookup_ip of
             (Err err, h) \<Rightarrow>
               (Ok (- UNW_ENOINFO, pinfo, ctx\<lparr>ctx_unwind_info_error := Some err\<rparr>), h)
           | (Ok details, h) \<Rightarrow>
               (Ok (UNW_ESUCCESS,
                  pinfo\<lparr>pi_start_ip := fd_start_ip details, pi_end_ip := fd_end_ip details,
                    pi_lsda := fd_lsda details, pi_handler := fd_handler details, pi_gp := 0,
                    pi_flags := 0, pi_format := UNW_INFO_FORMAT_REMOTE_TABLE,
                    pi_unwind_info_size := dwarf_cie_info_size,
                    pi_unwind_info := Some (fd_cie_info details)\<rparr>, ctx), h)
           | (Panic, h) \<Rightarrow> (Panic, h)
           | (UB, h) \<Rightarrow> (UB, h)))"

definition put_unwind_info :: "('r, 's) unwind_ctx \<Rightarrow> ('r, 's) unwind_ctx" where
  "put_unwind_info ctx = ctx"

definition get_dyn_info_list_addr :: "i32" where
  "get_dyn_info_list_addr = - UNW_ENOINFO"

text \<open>Status, the word behind \<open>val\<close> and the context.\<close>

definition access_mem ::
    "'s reader_fn \<Rightarrow> ('r, 's) unwind_ctx \<Rightarrow> u64 \<Rightarrow> u64 \<Rightarrow> i32 \<Rightarrow>
     (i32 \<times> u64 \<times> ('r, 's) unwind_ctx, unwind_info_error) outcome" where
  "access_mem read_fn ctx addr val wr =
     (if wr \<noteq> 0 then Ok (- UNW_EINVAL, val, ctx)
      else case lookup_local (ctx_modules ctx) addr of
        Some local_ptr \<Rightarrow>
          and_then (from_raw_parts local_ptr 8) (\<lambda>bs. Ok (UNW_ESUCCESS, u64_from_le bs, ctx))
      | None \<Rightarrow>
          (case read_fn (ctx_reader ctx) addr of
             (Some v, s) \<Rightarrow> Ok (UNW_ESUCCESS, v, ctx\<lparr>ctx_reader := s\<rparr>)
           | (None, s) \<Rightarrow>
               Ok (- UNW_EINVAL, val,
                 ctx\<lparr>ctx_reader := s, ctx_last_failed_read_addr := Some addr\<rparr>)))"

text \<open>
  \<open>access_reg\<close> dispatches to the architecture's register file, which is the parameter
  \<open>arch_access_reg\<close>: status, the word behind \<open>val\<close> and the registers.
\<close>

definition callback_access_reg ::
    "('r \<Rightarrow> i32 \<Rightarrow> u64 \<Rightarrow> i32 \<Rightarrow> i32 \<times> u64 \<times> 'r) \<Rightarrow> ('r, 's) unwind_ctx \<Rightarrow> i32 \<Rightarrow> u64 \<Rightarrow> i32 \<Rightarrow>
     i32 \<times> u64 \<times> ('r, 's) unwind_ctx" where
  "callback_access_reg arch_access_reg ctx reg val wr =
     (case arch_access_reg (ctx_regs ctx) reg val wr of
        (status, val, regs) \<Rightarrow> (status, val, ctx\<lparr>ctx_regs := regs\<rparr>))"

definition access_fpreg :: i32 where
  "access_fpreg = - UNW_EBADREG"

section \<open>Safety of the parse\<close>

interpretation fn_index: interval_index "[]" bt_get bt_insert bt_remove bt_floor bt_wf fd_end_ip
  by unfold_locales

lemma module_wf_bytes:
  assumes "module_wf h md" and "\<not> is_null (md_eh_frame_local_ptr md)"
    and "\<not> is_null (md_eh_frame_hdr_local_ptr md)"
  obtains hdr eh where "from_raw_parts (md_eh_frame_hdr_local_ptr md) (md_eh_frame_hdr_local_len md) =
      (Ok hdr :: (bytes, unwind_info_error) outcome)"
    and "from_raw_parts (md_eh_frame_local_ptr md) (md_eh_frame_local_len md) =
      (Ok eh :: (bytes, unwind_info_error) outcome)"
    and "slice_ok hdr" and "slice_ok eh" and "table_fits (md_table md) hdr"
  using assms
  by (cases "md_eh_frame_local_ptr md"; cases "md_eh_frame_hdr_local_ptr md")
    (auto simp: module_wf_def section_ptr_ok_def table_ok_def)

lemma cie_offset_of_defined:
  assumes "slice_ok bs" and "off < length bs"
  shows "defined (cie_offset_of oc name bs off)"
proof -
  have small: "off + n < usize_limit" if "n \<le> 24" for n
    using assms that by (simp add: slice_ok_def)
  show ?thesis
    unfolding cie_offset_of_def Let_def
    using small [of 4] small [of 12] small [of 8] small [of 20]
    by (auto intro!: defined_and_then split: if_splits)
qed

lemma cie_offset_of_bound:
  assumes "cie_offset_of oc name bs off = Ok c"
  shows "c \<le> length bs"
proof -
  from assms obtain pos len e s p where
    "slice_range bs pos e = Some s" and "checked_sub_usize pos p = Some c"
    unfolding cie_offset_of_def Let_def and_then_Ok_iff ok_or_iffs split_beta by blast
  then show ?thesis
    by (auto simp: slice_range_Some_iff checked_sub_usize_def split: if_splits)
qed

lemma parse_function_details_panic_only:
  assumes "module_wf h md"
  shows "panic_only oc (parse_function_details oc md ip)"
proof (cases "is_null (md_eh_frame_local_ptr md) \<or> is_null (md_eh_frame_hdr_local_ptr md)")
  case True
  then show ?thesis by (simp add: parse_function_details_def)
next
  case False
  obtain hdr eh where b:
    "from_raw_parts (md_eh_frame_hdr_local_ptr md) (md_eh_frame_hdr_local_len md) =
      (Ok hdr :: (bytes, unwind_info_error) outcome)"
    "from_raw_parts (md_eh_frame_local_ptr md) (md_eh_frame_local_len md) =
      (Ok eh :: (bytes, unwind_info_error) outcome)"
    "slice_ok hdr" "slice_ok eh" "table_fits (md_table md) hdr"
    using module_wf_bytes [OF assms] False by blast
  have lk: "panic_only oc (eh_frame_table_lookup oc (md_table md) hdr ip)"
    using lookup_total [OF b(5,3), of oc ip] by auto
  have cie: "panic_only oc (map_err f (parse_cie oc eh c a))" if "c \<le> length eh" for c a f
    using parse_cie_panic_only [OF b(4) that, of oc a] by (cases "parse_cie oc eh c a") simp_all
  have fde: "panic_only oc (map_err f (parse_fde oc eh c a g))" if "c < length eh" for c a f g
    using parse_fde_panic_only [OF b(4), of c oc g a] that
    by (cases "parse_fde oc eh c a g") simp_all
  show ?thesis
    unfolding parse_function_details_def Let_def
    using False b lk
    by (auto intro!: panic_only_and_then cie fde cie_offset_of_bound
        panic_only_defined [OF cie_offset_of_defined] split: option.split)
qed

section \<open>What a parse returns\<close>

text \<open>The FDE configuration \<open>parse_function_details\<close> takes from the CIE and the module.\<close>

abbreviation fde_config :: "module_data \<Rightarrow> parsed_cie \<Rightarrow> fde_parse_config" where
  "fde_config md cie \<equiv>
     \<lparr>cfg_fde_encoding = cie_fde_encoding cie, cfg_lsda_encoding = cie_lsda_encoding cie,
      cfg_has_z = cie_has_z cie, cfg_text_base = md_text_base md, cfg_data_base = md_data_base md\<rparr>"

text \<open>
  The details the FDE at an address describes, whatever instruction pointer led to it: the
  module's \<open>.eh_frame\<close> holds an FDE there, it names a CIE, both parse, and the details are
  built from the two.
\<close>

definition describes :: "bool \<Rightarrow> module_data \<Rightarrow> u64 \<Rightarrow> function_details \<Rightarrow> bool" where
  "describes oc md fde_avma d \<longleftrightarrow>
     (\<exists>eh cie_offset cie fde end_ip.
        from_raw_parts (md_eh_frame_local_ptr md) (md_eh_frame_local_len md) =
          (Ok eh :: (bytes, unwind_info_error) outcome) \<and>
        md_eh_frame_avma md \<le> fde_avma \<and> unat (fde_avma - md_eh_frame_avma md) < length eh \<and>
        cie_offset_of oc (md_name md) eh (unat (fde_avma - md_eh_frame_avma md)) = Ok cie_offset \<and>
        parse_cie oc eh cie_offset (md_eh_frame_avma md) = Ok cie \<and>
        parse_fde oc eh (unat (fde_avma - md_eh_frame_avma md)) (md_eh_frame_avma md)
          (fde_config md cie) = Ok fde \<and>
        checked_add_u64 (fde_initial_pc fde) (fde_address_range fde) = Some end_ip \<and>
        d = \<lparr>fd_start_ip = fde_initial_pc fde, fd_end_ip = end_ip,
             fd_cie_info = build_dwarf_cie_info cie fde (md_eh_frame_avma md),
             fd_lsda = fde_lsda fde, fd_handler = cie_personality cie,
             fd_signal_frame = cie_signal_frame cie\<rparr>)"

definition fd_covers :: "function_details \<Rightarrow> u64 \<Rightarrow> bool" where
  "fd_covers d ip \<longleftrightarrow> fd_start_ip d \<le> ip \<and> ip < fd_end_ip d"

definition module_lookup ::
    "bool \<Rightarrow> module_data \<Rightarrow> u64 \<Rightarrow> ((u64 \<times> u64) option, unwind_info_error) outcome" where
  "module_lookup oc md ip =
     and_then (from_raw_parts (md_eh_frame_hdr_local_ptr md) (md_eh_frame_hdr_local_len md))
       (\<lambda>hdr. eh_frame_table_lookup oc (md_table md) hdr ip)"

lemma parse_function_details_iff:
  "parse_function_details oc md ip = Ok d \<longleftrightarrow>
     \<not> is_null (md_eh_frame_local_ptr md) \<and> \<not> is_null (md_eh_frame_hdr_local_ptr md) \<and>
     (\<exists>pc fde_avma. module_lookup oc md ip = Ok (Some (pc, fde_avma)) \<and>
        describes oc md fde_avma d) \<and> fd_covers d ip"
  (is "?l \<longleftrightarrow> ?r")
proof
  assume ?l
  then show ?r
    by (auto simp: parse_function_details_def module_lookup_def describes_def fd_covers_def
        checked_sub_u64_def Let_def not_less not_le split: if_splits option.splits)
next
  assume r: ?r
  then obtain hdr pc a where
    "from_raw_parts (md_eh_frame_hdr_local_ptr md) (md_eh_frame_hdr_local_len md) =
      (Ok hdr :: (bytes, unwind_info_error) outcome)"
    "eh_frame_table_lookup oc (md_table md) hdr ip = Ok (Some (pc, a))" "describes oc md a d"
    by (auto simp: module_lookup_def)
  with r show ?l
    by (auto simp: parse_function_details_def describes_def fd_covers_def checked_sub_u64_def
        Let_def not_less not_le simp del: and_then_Ok_iff)
qed

lemma describes_unique: "describes oc md a d \<Longrightarrow> describes oc md a d' \<Longrightarrow> d = d'"
  unfolding describes_def by auto

section \<open>The cache is transparent\<close>

definition module_entries :: "module_data \<Rightarrow> (u64 \<times> u64) list" where
  "module_entries md =
     (case md_eh_frame_hdr_local_ptr md of
        Null \<Rightarrow> []
      | Ptr hdr off \<Rightarrow> table_entries (md_table md) hdr)"

text \<open>
  A table as a linker writes it: sorted, every entry at or below the function its FDE
  describes, and every function ending at or below the entries that follow.
\<close>

definition table_consistent :: "bool \<Rightarrow> module_data \<Rightarrow> bool" where
  "table_consistent oc md \<longleftrightarrow>
     sorted (map fst (module_entries md)) \<and>
     (\<forall>i < length (module_entries md). \<forall>d. describes oc md (snd (module_entries md ! i)) d \<longrightarrow>
        fst (module_entries md ! i) \<le> fd_start_ip d \<and>
        (\<forall>j < length (module_entries md). i < j \<longrightarrow> fd_end_ip d \<le> fst (module_entries md ! j)))"

lemma last_not_above_SomeD:
  assumes "last_not_above ip es = Some e"
  obtains r where "r < length es" and "e = es ! r" and "fst e \<le> ip"
    and "\<And>j. r < j \<Longrightarrow> j < length es \<Longrightarrow> ip < fst (es ! j)"
proof -
  have "\<exists>r < length es. e = es ! r \<and> fst e \<le> ip \<and> (\<forall>j < length es. r < j \<longrightarrow> ip < fst (es ! j))"
    using assms
  proof (induction es rule: rev_induct)
    case Nil
    then show ?case by (simp add: last_not_above_def)
  next
    case (snoc x es)
    show ?case
    proof (cases "fst x \<le> ip")
      case True
      with snoc.prems have "e = x" by (simp add: last_not_above_def)
      with True show ?thesis by (intro exI [of _ "length es"]) simp
    next
      case False
      with snoc.prems have "last_not_above ip es = Some e" by (simp add: last_not_above_def)
      then obtain r where r: "r < length es" "e = es ! r" "fst e \<le> ip"
        "\<forall>j < length es. r < j \<longrightarrow> ip < fst (es ! j)" using snoc.IH by blast
      with False show ?thesis
        by (intro exI [of _ r]) (auto simp: nth_append less_Suc_eq not_le)
    qed
  qed
  with that show ?thesis by blast
qed

lemma module_lookup_sorted:
  assumes "module_wf h md" and "sorted (map fst (module_entries md))"
    and "\<not> is_null (md_eh_frame_hdr_local_ptr md)"
  shows "module_lookup oc md ip = Ok (last_not_above ip (module_entries md))"
proof -
  obtain hdr where hdr: "md_eh_frame_hdr_local_ptr md = Ptr hdr 0"
    "md_eh_frame_hdr_local_len md = length hdr" "slice_ok hdr" "table_fits (md_table md) hdr"
    using assms(1,3) by (cases "md_eh_frame_hdr_local_ptr md")
      (auto simp: module_wf_def section_ptr_ok_def table_ok_def)
  with lookup_sorted [OF hdr(4,3)] assms(2) show ?thesis
    by (simp add: module_lookup_def module_entries_def)
qed

text \<open>Every address of a function parses to the same details.\<close>

lemma parse_function_details_stable:
  assumes wf: "module_wf h md" and tc: "table_consistent oc md"
    and d: "parse_function_details oc md ip = Ok d" and c: "fd_covers d ip'"
  shows "parse_function_details oc md ip' = Ok d"
proof -
  from d obtain pc a where n: "\<not> is_null (md_eh_frame_local_ptr md)" "\<not> is_null (md_eh_frame_hdr_local_ptr md)"
    and l: "module_lookup oc md ip = Ok (Some (pc, a))" and desc: "describes oc md a d"
    by (auto simp: parse_function_details_iff)
  have srt: "sorted (map fst (module_entries md))" using tc by (simp add: table_consistent_def)
  note lk = module_lookup_sorted [OF wf srt n(2)]
  have "last_not_above ip (module_entries md) = Some (pc, a)" using l lk [of oc ip] by simp
  then obtain r where r: "r < length (module_entries md)" "module_entries md ! r = (pc, a)"
    by (rule last_not_above_SomeD) simp
  from tc r desc have b: "pc \<le> fd_start_ip d"
    "Suc r < length (module_entries md) \<Longrightarrow> fd_end_ip d \<le> fst (module_entries md ! Suc r)"
    by (auto simp: table_consistent_def dest!: spec [of _ r])
  have "last_not_above ip' (module_entries md) = Some (module_entries md ! r)"
    using b c r by (intro last_not_above_sorted [OF srt]) (auto simp: fd_covers_def)
  with lk [of oc ip'] r n desc c show ?thesis by (auto simp: parse_function_details_iff)
qed

text \<open>The invariant of a cache: every entry is what parsing any of its addresses gives.\<close>

definition cache_sound :: "bool \<Rightarrow> module_data \<Rightarrow> function_cache \<Rightarrow> bool" where
  "cache_sound oc md cache \<longleftrightarrow>
     bt_wf cache \<and>
     (\<forall>k d. bt_get k cache = Some d \<longrightarrow> k = fd_start_ip d \<and> fd_start_ip d < fd_end_ip d \<and>
        (\<forall>ip. fd_covers d ip \<longrightarrow> parse_function_details oc md ip = Ok d))"

lemma cache_hit_Some:
  assumes "bt_wf cache" and "cache_hit cache ip = Some d"
  obtains k where "bt_get k cache = Some d" and "k \<le> ip" and "ip < fd_end_ip d"
proof -
  from assms(2) obtain k where k: "bt_floor ip cache = Some (k, d)" "ip < fd_end_ip d"
    by (auto simp: cache_hit_def split: option.splits if_splits)
  from fn_index.floor_hit_sound [OF assms(1) k] k(2) that show ?thesis by blast
qed

lemma cache_sound_hit:
  assumes "cache_sound oc md cache" and "cache_hit cache ip = Some d"
  shows "parse_function_details oc md ip = Ok d"
proof -
  have "bt_wf cache" using assms(1) by (simp add: cache_sound_def)
  from this assms(2) obtain k where "bt_get k cache = Some d" "k \<le> ip" "ip < fd_end_ip d"
    by (rule cache_hit_Some)
  with assms(1) show ?thesis by (auto simp: cache_sound_def fd_covers_def)
qed

lemma cache_sound_insert:
  assumes "module_wf h md" and "table_consistent oc md" and "cache_sound oc md cache"
    and "parse_function_details oc md ip = Ok d"
  shows "cache_sound oc md (bt_insert (fd_start_ip d) d cache)"
proof -
  have "fd_start_ip d < fd_end_ip d"
    using assms(4) by (auto simp: parse_function_details_iff fd_covers_def)
  with assms parse_function_details_stable [OF assms(1,2,4)] show ?thesis
    by (auto simp: cache_sound_def bt_wf_insert bt_get_insert)
qed

text \<open>A cached function is found from every address it covers.\<close>

lemma cache_sound_finds:
  assumes cs: "cache_sound oc md cache" and d: "bt_get (fd_start_ip d) cache = Some d"
    and c: "fd_covers d ip"
  shows "cache_hit cache ip = Some d"
proof -
  have wf: "bt_wf cache" using cs by (simp add: cache_sound_def)
  have "bt_floor ip cache \<noteq> None"
    using d c by (auto simp: bt.floor_None [OF wf] fd_covers_def not_less)
  then obtain k e where f: "bt_floor ip cache = Some (k, e)" by auto
  then have "bt_get k cache = Some e" "k \<le> ip"
    "\<forall>b w. bt_get b cache = Some w \<longrightarrow> b \<le> ip \<longrightarrow> b \<le> k"
    by (simp_all add: bt.floor_Some [OF wf])
  moreover from this d c have "fd_start_ip d \<le> k" by (simp add: fd_covers_def)
  ultimately have k: "bt_get k cache = Some e" "k \<le> ip" "fd_start_ip d \<le> k" by simp_all
  from k(1) cs have "k = fd_start_ip e" "fd_covers e k"
    unfolding cache_sound_def fd_covers_def by auto
  with k(1) cs have "parse_function_details oc md k = Ok e" unfolding cache_sound_def by blast
  moreover have "fd_covers d k" using c k(2,3) by (auto simp: fd_covers_def)
  then have "parse_function_details oc md k = Ok d" using cs d unfolding cache_sound_def by blast
  ultimately have "e = d" by simp
  with f c show ?thesis by (simp add: cache_hit_def fd_covers_def)
qed

lemma get_or_parse_eq:
  assumes "lock_cache h (md_function_cache md) = Some cache" and "cache_sound oc md cache"
  shows "fst (get_or_parse_function_details oc h md ip) = parse_function_details oc md ip"
proof (cases "cache_hit cache ip")
  case None
  with assms(1) show ?thesis
    by (simp add: get_or_parse_function_details_def split: outcome.split)
next
  case (Some d)
  with cache_sound_hit [OF assms(2) Some] assms(1) show ?thesis
    by (simp add: get_or_parse_function_details_def)
qed

text \<open>The heap after a lookup: unchanged, or one more entry in this module's cache.\<close>

lemma get_or_parse_heap:
  assumes "lock_cache h (md_function_cache md) = Some cache"
  shows "snd (get_or_parse_function_details oc h md ip) = h \<or>
    (\<exists>d. parse_function_details oc md ip = Ok d \<and>
      snd (get_or_parse_function_details oc h md ip) =
        h[md_function_cache md := Unlocked (bt_insert (fd_start_ip d) d cache)])"
  using assms
  by (cases "cache_hit cache ip")
    (auto simp: get_or_parse_function_details_def split: outcome.split)

lemma lock_cache_Some: "lock_cache h i = Some c \<longleftrightarrow> i < length h \<and> h ! i = Unlocked c"
  by (auto simp: lock_cache_def split: cache_cell.split)

lemma lock_cache_update:
  "i < length h \<Longrightarrow> lock_cache (h[i := Unlocked c]) j = (if j = i then Some c else lock_cache h j)"
  by (auto simp: lock_cache_def)

text \<open>Without any assumption on the tables a cache entry still lies where it says.\<close>

definition cache_keyed :: "function_cache \<Rightarrow> bool" where
  "cache_keyed cache \<longleftrightarrow> bt_wf cache \<and> (\<forall>k d. bt_get k cache = Some d \<longrightarrow> k = fd_start_ip d)"

definition heap_ok :: "cache_heap \<Rightarrow> bool" where
  "heap_ok h \<longleftrightarrow> (\<forall>i < length h. \<exists>c. h ! i = Unlocked c \<and> cache_keyed c)"

lemma cache_keyed_insert: "cache_keyed c \<Longrightarrow> cache_keyed (bt_insert (fd_start_ip d) d c)"
  by (auto simp: cache_keyed_def bt_wf_insert bt_get_insert)

lemma heap_ok_lock: "heap_ok h \<Longrightarrow> i < length h \<Longrightarrow> \<exists>c. lock_cache h i = Some c \<and> cache_keyed c"
  by (auto simp: heap_ok_def lock_cache_Some)

lemma get_or_parse_heap_ok:
  assumes "heap_ok h" and "md_function_cache md < length h"
  shows "heap_ok (snd (get_or_parse_function_details oc h md ip))"
    and "length (snd (get_or_parse_function_details oc h md ip)) = length h"
proof -
  obtain c where c: "lock_cache h (md_function_cache md) = Some c" "cache_keyed c"
    using heap_ok_lock [OF assms] by blast
  from get_or_parse_heap [OF c(1), of oc ip] c(2) assms
  show "heap_ok (snd (get_or_parse_function_details oc h md ip))"
    "length (snd (get_or_parse_function_details oc h md ip)) = length h"
    by (auto simp: heap_ok_def nth_list_update cache_keyed_insert)
qed

lemma get_or_parse_covers:
  assumes "heap_ok h" and "md_function_cache md < length h"
    and "fst (get_or_parse_function_details oc h md ip) = Ok d"
  shows "fd_covers d ip"
proof -
  obtain c where c: "lock_cache h (md_function_cache md) = Some c" "cache_keyed c"
    using heap_ok_lock [OF assms(1,2)] by blast
  show ?thesis
  proof (cases "cache_hit c ip")
    case None
    with assms(3) c show ?thesis
      by (auto simp: get_or_parse_function_details_def parse_function_details_iff
          split: outcome.splits)
  next
    case (Some d')
    with assms(3) c have "d' = d" by (simp add: get_or_parse_function_details_def)
    moreover have "bt_wf c" using c(2) by (simp add: cache_keyed_def)
    ultimately obtain k where "bt_get k c = Some d" "k \<le> ip" "ip < fd_end_ip d"
      using cache_hit_Some Some by metis
    with c(2) show ?thesis by (auto simp: cache_keyed_def fd_covers_def)
  qed
qed

lemma get_or_parse_panic_only:
  assumes "heap_ok h" and "module_wf h md"
  shows "panic_only oc (fst (get_or_parse_function_details oc h md ip))"
proof -
  obtain c where "lock_cache h (md_function_cache md) = Some c"
    using heap_ok_lock [OF assms(1)] assms(2) by (auto simp: module_wf_def)
  with parse_function_details_panic_only [OF assms(2), of oc ip] show ?thesis
    by (auto simp: get_or_parse_function_details_def split: option.split outcome.splits)
qed

lemma cache_after_lookup:
  assumes "module_wf h md" and "table_consistent oc md"
    and lk: "lock_cache h (md_function_cache md) = Some cache" and cs: "cache_sound oc md cache"
    and r: "get_or_parse_function_details oc h md ip = (r, h')"
  obtains cache' where "lock_cache h' (md_function_cache md) = Some cache'"
    and "cache_sound oc md cache'" and "\<And>d. r = Ok d \<Longrightarrow> bt_get (fd_start_ip d) cache' = Some d"
    and "\<And>j. j \<noteq> md_function_cache md \<Longrightarrow> lock_cache h' j = lock_cache h j"
proof (cases "cache_hit cache ip")
  case (Some d)
  have "bt_wf cache" using cs by (simp add: cache_sound_def)
  from this Some obtain k where "bt_get k cache = Some d" by (rule cache_hit_Some)
  with cs have "bt_get (fd_start_ip d) cache = Some d" by (auto simp: cache_sound_def)
  with Some lk r cs show ?thesis
    by (intro that [of cache]) (auto simp: get_or_parse_function_details_def)
next
  case None
  have i: "md_function_cache md < length h" using lk by (simp add: lock_cache_Some)
  show ?thesis
  proof (cases "parse_function_details oc md ip")
    case (Ok d)
    have wf: "bt_wf cache" using cs by (simp add: cache_sound_def)
    have "r = Ok d" "h' = h[md_function_cache md := Unlocked (bt_insert (fd_start_ip d) d cache)]"
      using r None lk Ok by (simp_all add: get_or_parse_function_details_def)
    with that [of "bt_insert (fd_start_ip d) d cache"] cache_sound_insert [OF assms(1,2) cs Ok] i wf
    show ?thesis by (simp add: lock_cache_update bt_get_insert)
  qed (rule that [of cache],
      use r None lk cs in \<open>auto simp: get_or_parse_function_details_def\<close>)+
qed

section \<open>The callbacks keep their contracts\<close>

lemma find_proc_info_cases:
  assumes "heap_ok h" and "module_set_wf h (ctx_modules ctx)"
    and "find_proc_info oc h ctx pinfo = (Ok (status, pinfo', ctx'), h')"
  shows "heap_ok h' \<and> length h' = length h \<and>
    (status = UNW_ESUCCESS \<and> ctx' = ctx \<and> pi_start_ip pinfo' \<le> ctx_lookup_ip ctx \<and>
       ctx_lookup_ip ctx < pi_end_ip pinfo' \<and> pi_format pinfo' = UNW_INFO_FORMAT_REMOTE_TABLE \<and>
       pi_unwind_info_size pinfo' = dwarf_cie_info_size \<and> pi_unwind_info pinfo' \<noteq> None \<or>
     status = - UNW_ENOINFO \<and> pinfo' = pinfo \<and>
       (\<exists>e. ctx' = ctx\<lparr>ctx_unwind_info_error := Some e\<rparr>))"
proof (cases "find_module (ctx_modules ctx) (ctx_lookup_ip ctx)")
  case None
  with assms show ?thesis by (auto simp: find_proc_info_def)
next
  case (Some md)
  have i: "md_function_cache md < length h"
    using find_module_sound(4) [OF assms(2) Some] by (simp add: module_wf_def)
  obtain r h1 where g: "get_or_parse_function_details oc h md (ctx_lookup_ip ctx) = (r, h1)"
    by fastforce
  have "heap_ok h1" "length h1 = length h"
    using get_or_parse_heap_ok [OF assms(1) i, of oc "ctx_lookup_ip ctx"] g by simp_all
  moreover have "fd_covers d (ctx_lookup_ip ctx)" if "r = Ok d" for d
    using get_or_parse_covers [OF assms(1) i, of oc "ctx_lookup_ip ctx" d] g that by simp
  ultimately show ?thesis
    using assms(3) Some g
    by (auto simp: find_proc_info_def fd_covers_def split: outcome.splits)
qed

lemma find_proc_info_panic_only:
  assumes "heap_ok h" and "module_set_wf h (ctx_modules ctx)"
  shows "panic_only oc (fst (find_proc_info oc h ctx pinfo))"
proof (cases "find_module (ctx_modules ctx) (ctx_lookup_ip ctx)")
  case None
  then show ?thesis by (simp add: find_proc_info_def)
next
  case (Some md)
  have "panic_only oc (fst (get_or_parse_function_details oc h md (ctx_lookup_ip ctx)))"
    using get_or_parse_panic_only [OF assms(1) find_module_sound(4) [OF assms(2) Some]] .
  with Some show ?thesis
    by (auto simp: find_proc_info_def split: prod.splits outcome.splits)
qed

section \<open>The sample module\<close>

definition sample_details :: function_details where
  "sample_details =
     \<lparr>fd_start_ip = 0x1000, fd_end_ip = 0x1010,
      fd_cie_info = build_dwarf_cie_info sample_cie sample_fde 0x3000, fd_lsda = 0, fd_handler = 0,
      fd_signal_frame = False\<rparr>"

lemma sample_cie_offset: "cie_offset_of oc name sample_eh_frame 20 = Ok 0"
  by (simp add: cie_offset_of_def sample_eh_frame_def slice_range_def checked_sub_usize_def
      u32_from_le_def Let_def)

lemma sample_fde_config:
  "parse_fde oc sample_eh_frame 20 0x3000 (fde_config (sample_module i) sample_cie) = Ok sample_fde"
  by (simp add: parse_fde_def sample_eh_frame_def sample_fde_def sample_cie_def sample_module_def
      entry_eval read_fde_augmentation_def read_lsda_def)

lemma sample_describes: "describes oc (sample_module i) 0x3014 d \<longleftrightarrow> d = sample_details"
proof -
  have len: "length sample_eh_frame = 40" by (simp add: sample_eh_frame_def)
  have md: "md_eh_frame_local_ptr (sample_module i) = Ptr sample_eh_frame 0"
    "md_eh_frame_local_len (sample_module i) = 40" "md_eh_frame_avma (sample_module i) = 0x3000"
    by (simp_all add: sample_module_def len)
  show ?thesis
    unfolding describes_def md
    by (simp add: sample_cie_offset sample_cie_parses sample_fde_config len)
      (auto simp: sample_fde_def sample_cie_def checked_add_u64_def sample_details_def)
qed

lemma sample_entries: "module_entries (sample_module i) = [(0x1000, 0x3014)]"
  by (simp add: module_entries_def sample_module_def sample_table_entries)

lemma sample_consistent: "table_consistent oc (sample_module i)"
  by (simp add: table_consistent_def sample_entries sample_describes) (simp add: sample_details_def)

lemma sample_parse:
  assumes "0x1000 \<le> ip" and "ip < 0x1010"
  shows "parse_function_details oc (sample_module i) ip = Ok sample_details"
proof -
  have "module_lookup oc (sample_module i) ip = Ok (Some (0x1000, 0x3014))"
    using module_lookup_sorted [OF sample_module_wf [of i "replicate (Suc i) Poisoned"], of oc ip] assms(1)
    by (simp add: sample_entries last_not_above_def) (simp add: sample_module_def)
  then show ?thesis
    using assms unfolding parse_function_details_iff
    by (simp add: sample_describes fd_covers_def) (simp add: sample_module_def sample_details_def)
qed

definition sample_ctx :: "(unit, unit) unwind_ctx" where
  "sample_ctx = \<lparr>ctx_modules = sample_set, ctx_regs = (), ctx_lookup_ip = 0x1008, ctx_reader = (),
     ctx_last_failed_read_addr = None, ctx_unwind_info_error = None\<rparr>"

definition sample_pi :: unw_proc_info where
  "sample_pi = \<lparr>pi_start_ip = 0, pi_end_ip = 0, pi_lsda = 0, pi_handler = 0, pi_gp = 0, pi_flags = 0,
     pi_format = 0, pi_unwind_info_size = 0, pi_unwind_info = None\<rparr>"

lemma sample_heap_ok: "heap_ok [Unlocked []]"
  by (simp add: heap_ok_def cache_keyed_def)

lemma sample_cache_sound: "cache_sound oc md []"
  by (simp add: cache_sound_def)

section \<open>Properties\<close>

text \<open>C3: The function cache is transparent.  On a module whose search table is consistent,
  a lookup through the cache gives exactly what a fresh parse gives, value or error; the
  cache stays sound, and no other module's cache changes.\<close>

theorem function_cache_transparent:
  assumes "module_wf h md" and "table_consistent oc md"
    and "lock_cache h (md_function_cache md) = Some cache" and "cache_sound oc md cache"
    and "get_or_parse_function_details oc h md ip = (r, h')"
  shows "r = parse_function_details oc md ip \<and>
    (\<exists>cache'. lock_cache h' (md_function_cache md) = Some cache' \<and> cache_sound oc md cache') \<and>
    (\<forall>j. j \<noteq> md_function_cache md \<longrightarrow> lock_cache h' j = lock_cache h j)"
proof -
  have r: "r = parse_function_details oc md ip"
    using get_or_parse_eq [OF assms(3,4), of ip] assms(5) by simp
  show ?thesis by (rule cache_after_lookup [OF assms]) (use r in auto)
qed

theorem function_cache_transparent_witness:
  "fst (get_or_parse_function_details True [Unlocked []] (sample_module 0) 0x1008) =
     parse_function_details True (sample_module 0) 0x1008 \<and>
   parse_function_details True (sample_module 0) 0x1008 = Ok sample_details"
  using function_cache_transparent [OF sample_module_wf sample_consistent _ sample_cache_sound
      prod.collapse [symmetric], of 0 "[Unlocked []]" True "0x1008"]
  by (simp add: lock_cache_def sample_parse) (simp add: sample_module_def lock_cache_def)

text \<open>Each function is parsed once.  After a successful lookup, every later lookup of any
  address of the same function is answered from the cache: it returns the same details and
  leaves the heap untouched.\<close>

theorem function_parsed_once:
  assumes "module_wf h md" and "table_consistent oc md"
    and "lock_cache h (md_function_cache md) = Some cache" and "cache_sound oc md cache"
    and "get_or_parse_function_details oc h md ip = (Ok d, h')" and "fd_covers d ip'"
  shows "get_or_parse_function_details oc h' md ip' = (Ok d, h')"
proof (rule cache_after_lookup [OF assms(1-5)])
  fix cache'
  assume c: "lock_cache h' (md_function_cache md) = Some cache'" "cache_sound oc md cache'"
    "\<And>d'. Ok d = (Ok d' :: (function_details, unwind_info_error) outcome) \<Longrightarrow>
      bt_get (fd_start_ip d') cache' = Some d'"
  have "cache_hit cache' ip' = Some d" using cache_sound_finds [OF c(2) c(3) assms(6)] by simp
  with c(1) show ?thesis by (simp add: get_or_parse_function_details_def)
qed

theorem function_parsed_once_witness:
  "get_or_parse_function_details True [Unlocked [(0x1000, sample_details)]] (sample_module 0) 0x100f =
     (Ok sample_details, [Unlocked [(0x1000, sample_details)]])"
proof (rule function_parsed_once [where h = "[Unlocked []]" and ip = "0x1008" and cache = "[]"])
  show "module_wf [Unlocked []] (sample_module 0)" by (simp add: sample_module_wf)
  show "table_consistent True (sample_module 0)" by (rule sample_consistent)
  show "lock_cache [Unlocked []] (md_function_cache (sample_module 0)) = Some []"
    by (simp add: sample_module_def lock_cache_def)
  show "cache_sound True (sample_module 0) []" by (rule sample_cache_sound)
  have "md_function_cache (sample_module 0) = 0" by (simp add: sample_module_def)
  then show "get_or_parse_function_details True [Unlocked []] (sample_module 0) 0x1008 =
      (Ok sample_details, [Unlocked [(0x1000, sample_details)]])"
    by (simp add: get_or_parse_function_details_def lock_cache_def cache_hit_def sample_parse)
      (simp add: sample_details_def)
  show "fd_covers sample_details 0x100f" by (simp add: fd_covers_def sample_details_def)
qed

text \<open>What a successful parse returns.  \<open>parse_function_details\<close> succeeds if and only if
  both local sections are there, the header table has an entry for the address, the FDE that
  entry points at and its CIE parse, and the function they describe covers the address; the
  details are exactly those of that FDE and CIE.\<close>

theorem parse_function_details_spec:
  "parse_function_details oc md ip = Ok d \<longleftrightarrow>
     \<not> is_null (md_eh_frame_local_ptr md) \<and> \<not> is_null (md_eh_frame_hdr_local_ptr md) \<and>
     (\<exists>pc fde_avma. module_lookup oc md ip = Ok (Some (pc, fde_avma)) \<and>
        describes oc md fde_avma d) \<and> fd_covers d ip"
  by (rule parse_function_details_iff)

text \<open>C11: \<open>find_proc_info\<close> keeps its contract with libunwind on every module, however hostile
  its sections.  It never has undefined behaviour and in a release build never panics.  When
  it reports success the function it describes contains the lookup address and the record
  carries parsed CIE data in the remote-table format; otherwise it reports \<open>-UNW_ENOINFO\<close>,
  leaves the record alone and records why in the context.  The caches stay well formed.\<close>

theorem find_proc_info_contract:
  assumes "heap_ok h" and "module_set_wf h (ctx_modules ctx)"
  shows "panic_only oc (fst (find_proc_info oc h ctx pinfo)) \<and>
    (\<forall>status pinfo' ctx' h'. find_proc_info oc h ctx pinfo = (Ok (status, pinfo', ctx'), h') \<longrightarrow>
       heap_ok h' \<and> length h' = length h \<and>
       (status = UNW_ESUCCESS \<and> ctx' = ctx \<and> pi_start_ip pinfo' \<le> ctx_lookup_ip ctx \<and>
          ctx_lookup_ip ctx < pi_end_ip pinfo' \<and>
          pi_format pinfo' = UNW_INFO_FORMAT_REMOTE_TABLE \<and>
          pi_unwind_info_size pinfo' = dwarf_cie_info_size \<and> pi_unwind_info pinfo' \<noteq> None \<or>
        status = - UNW_ENOINFO \<and> pinfo' = pinfo \<and>
          (\<exists>e. ctx' = ctx\<lparr>ctx_unwind_info_error := Some e\<rparr>)))"
  using find_proc_info_panic_only [OF assms] find_proc_info_cases [OF assms] by blast

theorem find_proc_info_contract_witness:
  "panic_only True (fst (find_proc_info True [Unlocked []] sample_ctx sample_pi))"
  using find_proc_info_contract [OF sample_heap_ok, of sample_ctx True sample_pi] sample_set_wf
  by (simp add: sample_ctx_def)

text \<open>C31: \<open>access_mem\<close> against the sections themselves, in a registry whose mirrors do not overlap
  and end below \<open>u64::MAX\<close>.  When one of the registered mirrors holds the eight bytes from \<open>addr\<close>
  on, wherever it stands among the others, a read returns the little-endian word at that offset of
  its bytes, without calling the user's reader.  When none does (a word that runs past the end of a
  mirror included), the reader is called once; its word is returned, or its failure is reported as
  \<open>-UNW_EINVAL\<close> with the address kept for the caller.  A write is refused without touching anything.\<close>

theorem access_mem_contract:
  assumes "module_set_wf h (ctx_modules ctx)" and "mirrors_disjoint (ctx_modules ctx)"
    and "\<forall>e \<in> set (bt_values (ms_redirects (ctx_modules ctx))). ls_avma_end (re_section e) \<noteq> - 1"
  shows "(\<forall>bs off. mirror_at (ctx_modules ctx) addr bs off \<longrightarrow>
      access_mem read_fn ctx addr val 0 = Ok (UNW_ESUCCESS, u64_from_le (take 8 (drop off bs)), ctx)) \<and>
    ((\<nexists>bs off. mirror_at (ctx_modules ctx) addr bs off) \<longrightarrow>
      access_mem read_fn ctx addr val 0 =
        (case read_fn (ctx_reader ctx) addr of
           (Some v, s) \<Rightarrow> Ok (UNW_ESUCCESS, v, ctx\<lparr>ctx_reader := s\<rparr>)
         | (None, s) \<Rightarrow> Ok (- UNW_EINVAL, val,
             ctx\<lparr>ctx_reader := s, ctx_last_failed_read_addr := Some addr\<rparr>))) \<and>
    (wr \<noteq> 0 \<longrightarrow> access_mem read_fn ctx addr val wr = Ok (- UNW_EINVAL, val, ctx))"
proof -
  have wf: "redirects_wf (ms_redirects (ctx_modules ctx))" using assms(1) by (simp add: module_set_wf_def)
  note look = lookup_local_iff [OF wf assms(2,3), of addr]
  have "access_mem read_fn ctx addr val 0 = Ok (UNW_ESUCCESS, u64_from_le (take 8 (drop off bs)), ctx)"
    if at: "mirror_at (ctx_modules ctx) addr bs off" for bs off
  proof -
    have "off + 8 \<le> length bs" using at by (auto simp: mirror_at_def)
    with at look [of "Ptr bs off"] show ?thesis by (simp add: access_mem_def)
  qed
  moreover have "lookup_local (ctx_modules ctx) addr = None" if "\<nexists>bs off. mirror_at (ctx_modules ctx) addr bs off"
    using that look by (cases "lookup_local (ctx_modules ctx) addr") auto
  ultimately show ?thesis by (simp add: access_mem_def)
qed

theorem access_mem_contract_witness:
  "access_mem (\<lambda>s a. (None, s)) sample_ctx 0x3008 0 0 =
     Ok (UNW_ESUCCESS, u64_from_le (take 8 (drop 8 sample_eh_frame)), sample_ctx)"
  using access_mem_contract [of "[Unlocked []]" sample_ctx "0x3008" "\<lambda>s a. (None, s)" 0 1]
    sample_set_wf sample_redirect_ends sample_mirrors_disjoint sample_mirror_at
  by (simp add: sample_ctx_def)

end
