(* ===== verification/Address_Space.thy ===== *)
theory Address_Space
  imports Callbacks
begin

text \<open>
  \<open>address_space.rs\<close>: one remote step of libunwind.

  libunwind is a C library outside the Rust sources.  What the crate sees of a call into it
  is the callbacks it makes and what it finally returns, so a call is a tree: either its
  result, or a callback with a continuation that receives what the callback answered.  The
  three entry points are the fields of a record \<open>libunwind\<close>, a parameter of every
  definition below; nothing is assumed of them, so what is proved holds for any behaviour
  of the library that returns.

  \<open>run\<close> executes such a tree with the crate's own callbacks from \<open>Callbacks\<close>, threading the
  context and the heap of function caches.
\<close>

section \<open>Calls into libunwind\<close>

datatype 'a unw =
    UDone 'a
  | UFindProcInfo unw_proc_info "i32 \<times> unw_proc_info \<Rightarrow> 'a unw"
  | UPutUnwindInfo "unit \<Rightarrow> 'a unw"
  | UGetDynInfo "i32 \<Rightarrow> 'a unw"
  | UAccessMem u64 u64 i32 "i32 \<times> u64 \<Rightarrow> 'a unw"
  | UAccessReg i32 u64 i32 "i32 \<times> u64 \<Rightarrow> 'a unw"
  | UAccessFpreg "i32 \<Rightarrow> 'a unw"

text \<open>The entry points, over the contents \<open>'c\<close> of a cursor; each returns its status.\<close>

record 'c libunwind =
  lu_create_addr_space_ok :: bool
  lu_init_remote :: "(i32 \<times> 'c) unw"
  lu_step :: "'c \<Rightarrow> (i32 \<times> 'c) unw"
  lu_get_reg :: "'c \<Rightarrow> i32 \<Rightarrow> (i32 \<times> u64 \<times> 'c) unw"

text \<open>What the accessor table binds: the build profile, the registers and the stack reader.\<close>

record ('r, 's) accessors =
  acc_oc :: bool
  acc_read_fn :: "'s reader_fn"
  acc_access_reg :: "'r \<Rightarrow> i32 \<Rightarrow> u64 \<Rightarrow> i32 \<Rightarrow> i32 \<times> u64 \<times> 'r"

type_synonym ('r, 's) cb_state = "('r, 's) unwind_ctx \<times> cache_heap"

text \<open>
  A callback that does not return ends the call; the callbacks return no \<open>Err\<close>, so the first
  two equations are never used.
\<close>

primrec abort_of :: "('a, 'e) outcome \<Rightarrow> ('b, 'f) outcome" where
  "abort_of (Ok x) = Panic"
| "abort_of (Err e) = Panic"
| "abort_of Panic = Panic"
| "abort_of UB = UB"

primrec run :: "('r, 's) accessors \<Rightarrow> 'a unw \<Rightarrow> ('r, 's) cb_state \<Rightarrow>
    ('a, libunwind_error) outcome \<times> ('r, 's) cb_state" where
  "run acc (UDone x) = (\<lambda>st. (Ok x, st))"
| "run acc (UFindProcInfo pinfo k) = (\<lambda>(ctx, h).
     case find_proc_info (acc_oc acc) h ctx pinfo of
       (Ok (status, pinfo', ctx'), h') \<Rightarrow> run acc (k (status, pinfo')) (ctx', h')
     | (r, h') \<Rightarrow> (abort_of r, (ctx, h')))"
| "run acc (UPutUnwindInfo k) = (\<lambda>(ctx, h). run acc (k ()) (put_unwind_info ctx, h))"
| "run acc (UGetDynInfo k) = run acc (k get_dyn_info_list_addr)"
| "run acc (UAccessMem addr val wr k) = (\<lambda>(ctx, h).
     case access_mem (acc_read_fn acc) ctx addr val wr of
       Ok (status, val', ctx') \<Rightarrow> run acc (k (status, val')) (ctx', h)
     | r \<Rightarrow> (abort_of r, (ctx, h)))"
| "run acc (UAccessReg reg val wr k) = (\<lambda>(ctx, h).
     case callback_access_reg (acc_access_reg acc) ctx reg val wr of
       (status, val', ctx') \<Rightarrow> run acc (k (status, val')) (ctx', h))"
| "run acc (UAccessFpreg k) = run acc (k access_fpreg)"

section \<open>init_and_step\<close>

datatype step_outcome = Stepped u64 "u64 list" | EndOfStack

text \<open>Sequencing of fallible steps over a state: \<open>?\<close> on a \<open>Result\<close>.\<close>

definition seq_then ::
    "('a, 'e) outcome \<times> 'w \<Rightarrow> ('a \<Rightarrow> 'w \<Rightarrow> ('b, 'e) outcome \<times> 'w) \<Rightarrow> ('b, 'e) outcome \<times> 'w" where
  "seq_then r f =
     (case r of (Ok x, w) \<Rightarrow> f x w | (Err e, w) \<Rightarrow> (Err e, w) | (Panic, w) \<Rightarrow> (Panic, w)
      | (UB, w) \<Rightarrow> (UB, w))"

definition libunwind_failed ::
    "bool \<Rightarrow> libunwind_phase \<Rightarrow> i32 \<Rightarrow> 'w \<Rightarrow> ('a, libunwind_error) outcome \<times> 'w" where
  "libunwind_failed oc phase status w = (and_then (libunwind_error_new oc phase status) Err, w)"

text \<open>The loop over the extra registers, from position \<open>index\<close> on.\<close>

primrec read_extras ::
    "('r, 's) accessors \<Rightarrow> 'c libunwind \<Rightarrow> nat \<Rightarrow> i32 list \<Rightarrow> u64 list \<Rightarrow> 'c \<Rightarrow> ('r, 's) cb_state \<Rightarrow>
     (u64 list, libunwind_error) outcome \<times> ('r, 's) cb_state" where
  "read_extras acc lu index [] extras c st = (Ok extras, st)"
| "read_extras acc lu index (reg # regs) extras c st =
     seq_then (run acc (lu_get_reg lu c reg) st) (\<lambda>(ret, val, c) st.
       if ret < 0 then
         (if index = 0 then libunwind_failed (acc_oc acc) (GetRegister reg) ret st
          else read_extras acc lu (index + 1) regs extras c st)
       else read_extras acc lu (index + 1) regs (extras[index := val]) c st)"

definition init_and_step ::
    "('r, 's) accessors \<Rightarrow> 'c libunwind \<Rightarrow> i32 \<Rightarrow> i32 list \<Rightarrow> ('r, 's) cb_state \<Rightarrow>
     (step_outcome, libunwind_error) outcome \<times> ('r, 's) cb_state" where
  "init_and_step acc lu reg_ip extra_regs st =
     (if \<not> lu_create_addr_space_ok lu then (Panic, st)
      else
      seq_then (run acc (lu_init_remote lu) st) (\<lambda>(init_ret, c) st.
      if init_ret < 0 then libunwind_failed (acc_oc acc) InitRemote init_ret st
      else
      seq_then (run acc (lu_step lu c) st) (\<lambda>(step_ret, c) st.
      if step_ret < 0 then libunwind_failed (acc_oc acc) Step step_ret st
      else if step_ret = 0 then (Ok EndOfStack, st)
      else
      seq_then (run acc (lu_get_reg lu c reg_ip) st) (\<lambda>(ret, new_ip, c) st.
      if ret < 0 then libunwind_failed (acc_oc acc) GetInstructionPointer ret st
      else
      seq_then (read_extras acc lu 0 (take (min (length extra_regs) 4) extra_regs) [0, 0, 0, 0] c st)
        (\<lambda>extras st. (Ok (Stepped new_ip extras), st))))))"

section \<open>Any behaviour of libunwind is safe\<close>

text \<open>
  A result that is no undefined behaviour, a panic only when \<open>b\<close> allows it, and that leaves
  a state with \<open>I\<close> unless it panicked.
\<close>

definition settles :: "bool \<Rightarrow> ('w \<Rightarrow> bool) \<Rightarrow> ('a, 'e) outcome \<times> 'w \<Rightarrow> bool" where
  "settles b I r \<longleftrightarrow> panic_only b (fst r) \<and> (fst r \<noteq> Panic \<longrightarrow> I (snd r))"

lemma settles_Ok [simp]: "settles b I (Ok x, w) \<longleftrightarrow> I w"
  and settles_Err [simp]: "settles b I (Err e, w) \<longleftrightarrow> I w"
  and settles_Panic [simp]: "settles b I (Panic, w) \<longleftrightarrow> b"
  and settles_UB [simp]: "\<not> settles b I (UB, w)"
  by (simp_all add: settles_def)

lemma settles_seq:
  assumes "settles b I r" and "\<And>x w. fst r = Ok x \<Longrightarrow> I w \<Longrightarrow> settles b I (f x w)"
  shows "settles b I (seq_then r f)"
  using assms by (cases r) (auto simp: seq_then_def settles_def split: outcome.splits)

text \<open>No mirrored section ends at the top of the address space.\<close>

definition mirrors_ok :: "module_set \<Rightarrow> bool" where
  "mirrors_ok ms \<longleftrightarrow>
     (\<forall>e \<in> set (bt_values (ms_redirects ms)). ls_avma_end (re_section e) \<noteq> - 1)"

text \<open>What a step never changes: the registry and the lookup address; and what it keeps.\<close>

definition cb_inv :: "module_set \<Rightarrow> u64 \<Rightarrow> nat \<Rightarrow> ('r, 's) cb_state \<Rightarrow> bool" where
  "cb_inv ms ip n st \<longleftrightarrow>
     ctx_modules (fst st) = ms \<and> ctx_lookup_ip (fst st) = ip \<and> length (snd st) = n \<and>
     heap_ok (snd st) \<and> module_set_wf (snd st) ms \<and> mirrors_ok ms"

lemma module_set_wf_length: "length h = length h' \<Longrightarrow> module_set_wf h ms = module_set_wf h' ms"
  by (simp add: module_set_wf_def modules_wf_def module_wf_def)

lemma find_proc_info_no_Err: "fst (find_proc_info oc h ctx pinfo) \<noteq> Err e"
  by (auto simp: find_proc_info_def Let_def split: option.split prod.split outcome.split)

lemma from_raw_parts_no_Err [simp]: "from_raw_parts p n \<noteq> Err e" "from_raw_parts p n \<noteq> Panic"
  by (cases p; simp)+

lemma access_mem_no_Err: "access_mem rf ctx addr val wr \<noteq> Err e"
  by (auto simp: access_mem_def outcome_simps split: option.split prod.split)

lemma access_mem_settles:
  assumes "cb_inv ms ip n (ctx, h)"
  obtains status val' ctx' where "access_mem rf ctx addr val wr = Ok (status, val', ctx')"
    and "cb_inv ms ip n (ctx', h)"
proof (cases "wr \<noteq> 0")
  case True
  with assms that show ?thesis by (simp add: access_mem_def)
next
  case False
  show ?thesis
  proof (cases "lookup_local (ctx_modules ctx) addr")
    case None
    with False assms that show ?thesis
      by (cases "rf (ctx_reader ctx) addr"; cases "fst (rf (ctx_reader ctx) addr)")
        (auto simp: access_mem_def cb_inv_def)
  next
    case (Some p)
    have "redirects_wf (ms_redirects (ctx_modules ctx))"
      "\<forall>e \<in> set (bt_values (ms_redirects (ctx_modules ctx))). ls_avma_end (re_section e) \<noteq> - 1"
      using assms by (simp_all add: cb_inv_def module_set_wf_def mirrors_ok_def)
    from lookup_local_read [OF this(1) Some this(2)] obtain bs where
      "from_raw_parts p 8 = (Ok bs :: (bytes, unwind_info_error) outcome)"
      by (metis from_raw_parts.simps(2))
    with False Some assms that show ?thesis by (simp add: access_mem_def)
  qed
qed

lemma find_proc_info_settles:
  assumes "cb_inv ms ip n (ctx, h)"
  obtains (returned) status pinfo' ctx' h' where
      "find_proc_info oc h ctx pinfo = (Ok (status, pinfo', ctx'), h')" and "cb_inv ms ip n (ctx', h')"
  | (panicked) h' where "oc" and "find_proc_info oc h ctx pinfo = (Panic, h')"
proof -
  have wf: "heap_ok h" "module_set_wf h (ctx_modules ctx)" using assms by (simp_all add: cb_inv_def)
  obtain r h' where r: "find_proc_info oc h ctx pinfo = (r, h')" by fastforce
  have po: "panic_only oc r" using find_proc_info_panic_only [OF wf, of oc pinfo] r by simp
  show ?thesis
  proof (cases r)
    case (Ok x)
    obtain status pinfo' ctx' where x: "x = (status, pinfo', ctx')" by (cases x)
    note c = find_proc_info_cases [OF wf r [unfolded Ok x]]
    have "cb_inv ms ip n (ctx', h')"
      using c assms module_set_wf_length [of h' h] by (auto simp: cb_inv_def)
    with returned r Ok x show ?thesis by simp
  next
    case (Err e)
    with find_proc_info_no_Err [of oc h ctx pinfo e] r show ?thesis by simp
  qed (use panicked po r in auto)
qed

lemma run_settles:
  assumes "cb_inv ms ip n st"
  shows "settles (acc_oc acc) (cb_inv ms ip n) (run acc t st)"
  using assms
proof (induction t arbitrary: st)
  case (UFindProcInfo pinfo k)
  obtain ctx h where st: "st = (ctx, h)" by (cases st)
  from UFindProcInfo.prems [unfolded st] show ?case
    by (rule find_proc_info_settles [where oc = "acc_oc acc" and pinfo = pinfo])
      (auto simp: st intro: UFindProcInfo.IH)
next
  case (UAccessMem addr val wr k)
  obtain ctx h where st: "st = (ctx, h)" by (cases st)
  from UAccessMem.prems [unfolded st] show ?case
    by (rule access_mem_settles [where rf = "acc_read_fn acc" and addr = addr and val = val and wr = wr])
      (auto simp: st intro: UAccessMem.IH)
next
  case (UAccessReg reg val wr k)
  obtain ctx h where st: "st = (ctx, h)" by (cases st)
  obtain status val' regs where a: "acc_access_reg acc (ctx_regs ctx) reg val wr = (status, val', regs)"
    by (cases "acc_access_reg acc (ctx_regs ctx) reg val wr")
  have "cb_inv ms ip n (ctx\<lparr>ctx_regs := regs\<rparr>, h)"
    using UAccessReg.prems by (simp add: st cb_inv_def)
  then show ?case using UAccessReg.IH by (simp add: st a callback_access_reg_def)
next
  case (UPutUnwindInfo k)
  then show ?case by (cases st) (simp add: put_unwind_info_def)
qed simp_all

lemma libunwind_failed_settles:
  assumes "I w"
  shows "settles oc I (libunwind_failed oc phase status w)"
  using assms
  by (auto simp: libunwind_failed_def libunwind_error_new_def from_status_def i32_abs_def)

lemma read_extras_settles:
  assumes "cb_inv ms ip n st"
  shows "settles (acc_oc acc) (cb_inv ms ip n) (read_extras acc lu i regs extras c st)"
  using assms
proof (induction regs arbitrary: i extras c st)
  case Nil
  then show ?case by simp
next
  case (Cons reg regs)
  show ?case
    unfolding read_extras.simps
    by (rule settles_seq [OF run_settles [OF Cons.prems]])
      (auto intro: Cons.IH libunwind_failed_settles split: prod.split)
qed

lemma init_and_step_settles:
  assumes "cb_inv ms ip n st" and "lu_create_addr_space_ok lu"
  shows "settles (acc_oc acc) (cb_inv ms ip n) (init_and_step acc lu reg_ip extra_regs st)"
  unfolding init_and_step_def using assms
  by (auto intro!: settles_seq run_settles libunwind_failed_settles read_extras_settles
      split: prod.split)

text \<open>A failed step carries the negative status libunwind returned.\<close>

lemma libunwind_failed_Err:
  "fst (libunwind_failed oc phase status w) = Err e \<Longrightarrow> lue_raw_status e = status \<and> lue_phase e = phase"
  by (auto simp: libunwind_failed_def libunwind_error_new_def outcome_simps from_status_def i32_abs_def
      split: if_splits)

lemma seq_then_Err:
  "fst (seq_then r f) = Err e \<longleftrightarrow>
     fst r = Err e \<or> (\<exists>x. fst r = Ok x \<and> fst (f x (snd r)) = Err e)"
  by (cases r; cases "fst r") (auto simp: seq_then_def)

lemma seq_then_Ok:
  "fst (seq_then r f) = Ok y \<longleftrightarrow> (\<exists>x. fst r = Ok x \<and> fst (f x (snd r)) = Ok y)"
  by (cases r; cases "fst r") (auto simp: seq_then_def)

lemma run_no_Err: "fst (run acc t st) \<noteq> Err e"
proof (induction t arbitrary: st)
  case (UFindProcInfo pinfo k)
  then show ?case
    using find_proc_info_no_Err
    by (cases st) (auto split: prod.split outcome.split)
next
  case (UAccessMem addr val wr k)
  then show ?case
    using access_mem_no_Err
    by (cases st) (auto split: prod.split outcome.split)
qed (auto split: prod.split)

section \<open>What libunwind was asked and what it answered\<close>

text \<open>
  The history of one step, without the code that reacts to it: \<open>called acc lu st cs status val c st'\<close>
  says that the entry points \<open>cs\<close>, the latest first, were called one after the other from the
  state \<open>st\<close>, each on the cursor the one before left, and that the latest of them returned
  \<open>status\<close>, the register value \<open>val\<close> (0 for calls that read none) and the cursor \<open>c\<close>.
\<close>

datatype unw_entry = InitCall | StepCall | GetRegCall i32

inductive called ::
    "('r, 's) accessors \<Rightarrow> 'c libunwind \<Rightarrow> ('r, 's) cb_state \<Rightarrow> unw_entry list \<Rightarrow> i32 \<Rightarrow> u64 \<Rightarrow> 'c \<Rightarrow>
     ('r, 's) cb_state \<Rightarrow> bool" for acc lu st where
  call_init: "run acc (lu_init_remote lu) st = (Ok (status, c), st') \<Longrightarrow>
    called acc lu st [InitCall] status 0 c st'"
| call_step: "called acc lu st cs status0 val0 c0 st0 \<Longrightarrow>
    run acc (lu_step lu c0) st0 = (Ok (status, c), st') \<Longrightarrow>
    called acc lu st (StepCall # cs) status 0 c st'"
| call_get_reg: "called acc lu st cs status0 val0 c0 st0 \<Longrightarrow>
    run acc (lu_get_reg lu c0 reg) st0 = (Ok (status, val, c), st') \<Longrightarrow>
    called acc lu st (GetRegCall reg # cs) status val c st'"

inductive_simps called_simps:
  "called acc lu st [InitCall] status val c st'"
  "called acc lu st (StepCall # cs) status val c st'"
  "called acc lu st (GetRegCall reg # cs) status val c st'"

text \<open>
  The call that failed: the first of the calls of a step that returned a negative status, after
  a step that did not end the stack.  Of the extra registers only the first one counts.
\<close>

inductive failed_at ::
    "('r, 's) accessors \<Rightarrow> 'c libunwind \<Rightarrow> i32 \<Rightarrow> i32 list \<Rightarrow> ('r, 's) cb_state \<Rightarrow> libunwind_phase \<Rightarrow> i32 \<Rightarrow> bool"
  for acc lu reg_ip extra_regs st where
  init_failed: "called acc lu st [InitCall] status v c st' \<Longrightarrow> status < 0 \<Longrightarrow>
    failed_at acc lu reg_ip extra_regs st InitRemote status"
| step_failed: "called acc lu st [InitCall] s0 v0 c0 st0 \<Longrightarrow> 0 \<le> s0 \<Longrightarrow>
    called acc lu st [StepCall, InitCall] status v c st' \<Longrightarrow> status < 0 \<Longrightarrow>
    failed_at acc lu reg_ip extra_regs st Step status"
| get_ip_failed: "called acc lu st [InitCall] s0 v0 c0 st0 \<Longrightarrow> 0 \<le> s0 \<Longrightarrow>
    called acc lu st [StepCall, InitCall] s1 v1 c1 st1 \<Longrightarrow> 0 < s1 \<Longrightarrow>
    called acc lu st [GetRegCall reg_ip, StepCall, InitCall] status v c st' \<Longrightarrow> status < 0 \<Longrightarrow>
    failed_at acc lu reg_ip extra_regs st GetInstructionPointer status"
| get_reg_failed: "called acc lu st [InitCall] s0 v0 c0 st0 \<Longrightarrow> 0 \<le> s0 \<Longrightarrow>
    called acc lu st [StepCall, InitCall] s1 v1 c1 st1 \<Longrightarrow> 0 < s1 \<Longrightarrow>
    called acc lu st [GetRegCall reg_ip, StepCall, InitCall] s2 v2 c2 st2 \<Longrightarrow> 0 \<le> s2 \<Longrightarrow>
    extra_regs = reg # regs \<Longrightarrow>
    called acc lu st [GetRegCall reg, GetRegCall reg_ip, StepCall, InitCall] status v c st' \<Longrightarrow> status < 0 \<Longrightarrow>
    failed_at acc lu reg_ip extra_regs st (GetRegister reg) status"

inductive_cases failed_atE: "failed_at acc lu reg_ip extra_regs st phase status"

text \<open>The history determines what the latest call returned.\<close>

lemma called_fun:
  "called acc lu st cs status val c st' \<Longrightarrow> called acc lu st cs status1 val1 c1 st1 \<Longrightarrow>
     status1 = status \<and> val1 = val \<and> c1 = c \<and> st1 = st'"
proof (induction cs status val c st' arbitrary: status1 val1 c1 st1 rule: called.induct)
  case (call_init status c st')
  then show ?case by (auto simp: called_simps)
next
  case (call_step cs status0 val0 c0 st0 status c st')
  from call_step.prems call_step.IH call_step.hyps show ?case by (fastforce simp: called_simps)
next
  case (call_get_reg cs status0 val0 c0 st0 reg status val c st')
  from call_get_reg.prems call_get_reg.IH call_get_reg.hyps show ?case by (fastforce simp: called_simps)
qed

text \<open>The error a negative status becomes; a checked build panics on the absolute value of \<open>i32::MIN\<close>.\<close>

definition error_of :: "bool \<Rightarrow> libunwind_phase \<Rightarrow> i32 \<Rightarrow> libunwind_error \<Rightarrow> bool" where
  "error_of oc phase status e \<longleftrightarrow>
     (libunwind_error_new oc phase status :: (libunwind_error, libunwind_error) outcome) = Ok e"

lemma libunwind_failed_Err_iff:
  "fst (libunwind_failed oc phase status w) = Err e \<longleftrightarrow> error_of oc phase status e"
  by (auto simp: libunwind_failed_def error_of_def libunwind_error_new_def from_status_def i32_abs_def
      split: if_splits)

lemma error_of_fields: "error_of oc phase status e \<Longrightarrow> lue_phase e = phase \<and> lue_raw_status e = status"
  unfolding error_of_def by (rule libunwind_error_new_Ok)

text \<open>The loop over the extra registers: it fails at its first register only.\<close>

lemma run_no_Err_pair [simp]: "run acc t st \<noteq> (Err e, st')"
  using run_no_Err [of acc t st e] by auto

lemma read_extras_no_Err: "i \<noteq> 0 \<Longrightarrow> fst (read_extras acc lu i regs extras c st) \<noteq> Err e"
  by (induction regs arbitrary: i extras c st)
    (auto simp: seq_then_Err run_no_Err split: if_splits)

lemma read_extras_Err_iff:
  "fst (read_extras acc lu 0 regs extras c st) = Err e \<longleftrightarrow>
     (\<exists>reg regs' status val c' st'. regs = reg # regs' \<and>
        run acc (lu_get_reg lu c reg) st = (Ok (status, val, c'), st') \<and> status < 0 \<and>
        error_of (acc_oc acc) (GetRegister reg) status e)"
proof (cases regs)
  case (Cons reg regs')
  then show ?thesis
    by (cases "run acc (lu_get_reg lu c reg) st"; cases "fst (run acc (lu_get_reg lu c reg) st)")
      (auto simp: seq_then_def read_extras_no_Err libunwind_failed_Err_iff split: if_splits)
qed simp

lemma run_seq_Err:
  "fst (seq_then (run acc t st) f) = Err e \<longleftrightarrow> (\<exists>x st'. run acc t st = (Ok x, st') \<and> fst (f x st') = Err e)"
  by (cases "run acc t st"; cases "fst (run acc t st)") (auto simp: seq_then_def)

lemma run_seq_Ok:
  "fst (seq_then (run acc t st) f) = Ok y \<longleftrightarrow> (\<exists>x st'. run acc t st = (Ok x, st') \<and> fst (f x st') = Ok y)"
  by (cases "run acc t st"; cases "fst (run acc t st)") (auto simp: seq_then_def)

lemma failed_at_negative: "failed_at acc lu reg_ip extra_regs st phase status \<Longrightarrow> status < 0"
  by (auto elim: failed_atE)

lemma seq_then_conv:
  "seq_then (Ok x, w) f = f x w" "seq_then (Err e, w) f = (Err e, w)"
  by (simp_all add: seq_then_def)

lemma extras_seq_Err:
  "fst (seq_then (read_extras acc lu 0 regs extras c st) (\<lambda>extras st. (Ok (Stepped ip extras), st))) = Err e \<longleftrightarrow>
     fst (read_extras acc lu 0 regs extras c st) = Err e"
  by (simp add: seq_then_Err)

lemma extras_seq_Ok:
  "fst (seq_then (read_extras acc lu 0 regs extras c st) (\<lambda>extras st. (Ok (Stepped ip extras), st))) = Ok y \<longleftrightarrow>
     (\<exists>xs. fst (read_extras acc lu 0 regs extras c st) = Ok xs \<and> y = Stepped ip xs)"
  by (auto simp: seq_then_Ok)

lemma libunwind_failed_seq_Err:
  "error_of oc phase status e \<Longrightarrow> fst (seq_then (libunwind_failed oc phase status w) f) = Err e"
  by (simp add: seq_then_Err libunwind_failed_Err_iff)

lemma take_Cons_iff: "take (min (length xs) 4) xs = x # ys \<Longrightarrow> \<exists>zs. xs = x # zs"
  by (cases xs) simp_all

text \<open>An error in terms of the calls that were made.\<close>

lemma init_and_step_Err_runs:
  assumes "fst (init_and_step acc lu reg_ip extra_regs st) = Err e"
  obtains (init) s0 c0 st0 where "run acc (lu_init_remote lu) st = (Ok (s0, c0), st0)" "s0 < 0"
      "error_of (acc_oc acc) InitRemote s0 e"
  | (step) s0 c0 st0 s1 c1 st1 where "run acc (lu_init_remote lu) st = (Ok (s0, c0), st0)" "0 \<le> s0"
      "run acc (lu_step lu c0) st0 = (Ok (s1, c1), st1)" "s1 < 0" "error_of (acc_oc acc) Step s1 e"
  | (get_ip) s0 c0 st0 s1 c1 st1 s2 v2 c2 st2 where "run acc (lu_init_remote lu) st = (Ok (s0, c0), st0)" "0 \<le> s0"
      "run acc (lu_step lu c0) st0 = (Ok (s1, c1), st1)" "0 < s1"
      "run acc (lu_get_reg lu c1 reg_ip) st1 = (Ok (s2, v2, c2), st2)" "s2 < 0"
      "error_of (acc_oc acc) GetInstructionPointer s2 e"
  | (get_reg) s0 c0 st0 s1 c1 st1 s2 v2 c2 st2 reg regs s3 v3 c3 st3 where
      "run acc (lu_init_remote lu) st = (Ok (s0, c0), st0)" "0 \<le> s0"
      "run acc (lu_step lu c0) st0 = (Ok (s1, c1), st1)" "0 < s1"
      "run acc (lu_get_reg lu c1 reg_ip) st1 = (Ok (s2, v2, c2), st2)" "0 \<le> s2" "extra_regs = reg # regs"
      "run acc (lu_get_reg lu c2 reg) st2 = (Ok (s3, v3, c3), st3)" "s3 < 0"
      "error_of (acc_oc acc) (GetRegister reg) s3 e"
proof -
  from assms obtain s0 c0 st0 where r0: "run acc (lu_init_remote lu) st = (Ok (s0, c0), st0)"
    by (auto simp: init_and_step_def seq_then_conv run_seq_Err split: if_splits)
  show ?thesis
  proof (cases "s0 < 0")
    case True
    with assms r0 show ?thesis
      by (intro init) (simp_all add: not_less init_and_step_def seq_then_conv libunwind_failed_Err_iff split: if_splits)
  next
    case False
    with assms r0 obtain s1 c1 st1 where r1: "run acc (lu_step lu c0) st0 = (Ok (s1, c1), st1)"
      by (auto simp: init_and_step_def seq_then_conv run_seq_Err split: if_splits)
    consider "s1 < 0" | "0 < s1"
      using assms r0 False r1 by (cases "s1 = 0") (auto simp: init_and_step_def seq_then_conv run_seq_Err split: if_splits)
    then show ?thesis
    proof cases
      case 1
      with assms r0 False r1 show ?thesis
        by (intro step) (simp_all add: not_less init_and_step_def seq_then_conv run_seq_Err libunwind_failed_Err_iff split: if_splits)
    next
      case 2
      with assms r0 False r1 obtain s2 v2 c2 st2 where
        r2: "run acc (lu_get_reg lu c1 reg_ip) st1 = (Ok (s2, v2, c2), st2)"
        by (auto simp: init_and_step_def seq_then_conv run_seq_Err split: if_splits)
      show ?thesis
      proof (cases "s2 < 0")
        case True
        with assms r0 False r1 2 r2 show ?thesis
          by (intro get_ip) (simp_all add: not_less init_and_step_def seq_then_conv run_seq_Err libunwind_failed_Err_iff split: if_splits)
      next
        case s2: False
        from assms r0 False r1 2 r2 s2
        have "fst (read_extras acc lu 0 (take (min (length extra_regs) 4) extra_regs) [0, 0, 0, 0] c2 st2) = Err e"
          by (simp add: init_and_step_def seq_then_conv run_seq_Err extras_seq_Err split: if_splits)
        then show ?thesis
          using r0 False r1 2 r2 s2 by (auto simp: read_extras_Err_iff dest!: take_Cons_iff intro: get_reg)
      qed
    qed
  qed
qed

lemma init_and_step_failed_at:
  assumes "fst (init_and_step acc lu reg_ip extra_regs st) = Err e"
  shows "failed_at acc lu reg_ip extra_regs st (lue_phase e) (lue_raw_status e) \<and>
    error_of (acc_oc acc) (lue_phase e) (lue_raw_status e) e"
  using assms
proof (cases rule: init_and_step_Err_runs)
  case (init s0 c0 st0)
  from init_failed [OF call_init [OF init(1)] init(2)] init(3) error_of_fields [OF init(3)] show ?thesis by simp
next
  case (step s0 c0 st0 s1 c1 st1)
  note h0 = call_init [OF step(1)]
  note h1 = call_step [OF h0 step(3)]
  from step_failed [OF h0 step(2) h1 step(4)] step(5) error_of_fields [OF step(5)] show ?thesis by simp
next
  case (get_ip s0 c0 st0 s1 c1 st1 s2 v2 c2 st2)
  note h0 = call_init [OF get_ip(1)]
  note h1 = call_step [OF h0 get_ip(3)]
  note h2 = call_get_reg [OF h1 get_ip(5)]
  from get_ip_failed [OF h0 get_ip(2) h1 get_ip(4) h2 get_ip(6)] get_ip(7) error_of_fields [OF get_ip(7)]
  show ?thesis by simp
next
  case (get_reg s0 c0 st0 s1 c1 st1 s2 v2 c2 st2 reg regs s3 v3 c3 st3)
  note h0 = call_init [OF get_reg(1)]
  note h1 = call_step [OF h0 get_reg(3)]
  note h2 = call_get_reg [OF h1 get_reg(5)]
  note h3 = call_get_reg [OF h2 get_reg(8)]
  from get_reg_failed [OF h0 get_reg(2) h1 get_reg(4) h2 get_reg(6,7) h3 get_reg(9)]
    get_reg(10) error_of_fields [OF get_reg(10)]
  show ?thesis by simp
qed

lemma init_and_step_Err:
  assumes "fst (init_and_step acc lu reg_ip extra_regs st) = Err e"
  shows "lu_create_addr_space_ok lu \<and> failed_at acc lu reg_ip extra_regs st (lue_phase e) (lue_raw_status e) \<and>
    error_of (acc_oc acc) (lue_phase e) (lue_raw_status e) e"
proof (intro conjI)
  show "lu_create_addr_space_ok lu" using assms by (simp add: init_and_step_def split: if_splits)
qed (use init_and_step_failed_at [OF assms] in blast)+

lemma init_and_step_failed:
  assumes "failed_at acc lu reg_ip extra_regs st phase status" and "lu_create_addr_space_ok lu"
    and "error_of (acc_oc acc) phase status e"
  shows "fst (init_and_step acc lu reg_ip extra_regs st) = Err e"
  using assms
proof (induction rule: failed_at.induct)
  case init_failed
  then show ?case
    by (auto simp: called_simps init_and_step_def seq_then_conv libunwind_failed_Err_iff)
next
  case step_failed
  then show ?case
    by (auto simp: called_simps init_and_step_def seq_then_conv libunwind_failed_Err_iff)
next
  case get_ip_failed
  then show ?case
    by (auto simp: called_simps init_and_step_def seq_then_conv libunwind_failed_Err_iff)
next
  case get_reg_failed
  then show ?case
    by (auto simp: called_simps init_and_step_def seq_then_conv libunwind_failed_seq_Err)
qed

text \<open>What a successful loop over the extra registers leaves, after the calls \<open>cs\<close>.\<close>

lemma read_extras_Ok:
  assumes "fst (read_extras acc lu i regs extras c st) = Ok xs"
    and "called acc lu st0 cs status0 val0 c st" and "i + length regs \<le> length extras"
  shows "length xs = length extras \<and> take i xs = take i extras \<and>
    drop (i + length regs) xs = drop (i + length regs) extras \<and>
    (\<forall>k < length regs. \<exists>status val c' st'.
       called acc lu st0 (rev (map GetRegCall (take (Suc k) regs)) @ cs) status val c' st' \<and>
       xs ! (i + k) = (if status < 0 then extras ! (i + k) else val))"
  using assms
proof (induction regs arbitrary: i extras c st cs status0 val0)
  case (Cons reg regs)
  from Cons.prems(1) obtain status val c1 st1 where
    r: "run acc (lu_get_reg lu c reg) st = (Ok (status, val, c1), st1)"
    by (auto simp: run_seq_Ok)
  define ys where "ys = (if status < 0 then extras else extras[i := val])"
  have loop: "fst (read_extras acc lu (Suc i) regs ys c1 st1) = Ok xs"
    using Cons.prems(1) r
    by (auto simp: ys_def seq_then_conv libunwind_failed_def split: if_splits)
  have len: "Suc i + length regs \<le> length ys" "i < length extras" "length ys = length extras"
    using Cons.prems(3) by (auto simp: ys_def)
  note h = call_get_reg [OF Cons.prems(2) r]
  note ih = Cons.IH [OF loop h len(1)]
  have i: "xs ! i = (if status < 0 then extras ! i else val)"
    using ih len nth_take [of i "Suc i" xs] nth_take [of i "Suc i" ys]
    by (cases "status < 0") (simp_all add: ys_def)
  have "take i (take (Suc i) xs) = take i (take (Suc i) ys)" using ih by (simp del: take_take)
  then have "take i xs = take i ys" by (simp add: min_def)
  moreover have "\<exists>s v c' st'. called acc lu st0 (rev (map GetRegCall (take (Suc k) (reg # regs))) @ cs) s v c' st' \<and>
      xs ! (i + k) = (if s < 0 then extras ! (i + k) else v)" if "k < length (reg # regs)" for k
  proof (cases k)
    case 0
    with h i show ?thesis
      by (intro exI [of _ status] exI [of _ val] exI [of _ c1] exI [of _ st1]) simp
  next
    case (Suc j)
    with ih that obtain s v c' st' where "called acc lu st0 (rev (map GetRegCall (take (Suc j) regs)) @ GetRegCall reg # cs) s v c' st'"
      "xs ! (Suc i + j) = (if s < 0 then ys ! (Suc i + j) else v)" by auto
    with Suc show ?thesis by (intro exI [of _ s] exI [of _ v] exI [of _ c'] exI [of _ st']) (simp add: ys_def)
  qed
  ultimately show ?case using ih len by (auto simp: ys_def)
qed simp

text \<open>A step that succeeds, in terms of the calls that were made.\<close>

lemma init_and_step_Stepped:
  assumes "fst (init_and_step acc lu reg_ip extra_regs st) = Ok (Stepped new_ip extras)"
  obtains s0 c0 st0 s1 c1 st1 s2 c2 st2 where
    "called acc lu st [InitCall] s0 0 c0 st0" "0 \<le> s0"
    "called acc lu st [StepCall, InitCall] s1 0 c1 st1" "0 < s1"
    "called acc lu st [GetRegCall reg_ip, StepCall, InitCall] s2 new_ip c2 st2" "0 \<le> s2"
    "fst (read_extras acc lu 0 (take (min (length extra_regs) 4) extra_regs) [0, 0, 0, 0] c2 st2) = Ok extras"
proof -
  from assms obtain s0 c0 st0 where r0: "run acc (lu_init_remote lu) st = (Ok (s0, c0), st0)" "0 \<le> s0"
    by (auto simp: init_and_step_def run_seq_Ok libunwind_failed_def split: if_splits)
  with assms obtain s1 c1 st1 where r1: "run acc (lu_step lu c0) st0 = (Ok (s1, c1), st1)" "0 < s1"
    by (auto simp: init_and_step_def seq_then_conv run_seq_Ok libunwind_failed_def split: if_splits)
  with assms r0 obtain s2 c2 st2 where r2: "run acc (lu_get_reg lu c1 reg_ip) st1 = (Ok (s2, new_ip, c2), st2)" "0 \<le> s2"
    "fst (read_extras acc lu 0 (take (min (length extra_regs) 4) extra_regs) [0, 0, 0, 0] c2 st2) = Ok extras"
    by (auto simp: init_and_step_def seq_then_conv run_seq_Ok extras_seq_Ok libunwind_failed_def split: if_splits)
  note h0 = call_init [OF r0(1)]
  note h1 = call_step [OF h0 r1(1)]
  note h2 = call_get_reg [OF h1 r2(1)]
  from that [OF h0 r0(2) h1 r1(2) h2 r2(2,3)] show ?thesis .
qed

lemma init_and_step_values:
  assumes "fst (init_and_step acc lu reg_ip extra_regs st) = Ok (Stepped new_ip extras)"
  shows "(\<exists>s1 c1 st1 s2 c2 st2. called acc lu st [StepCall, InitCall] s1 0 c1 st1 \<and> 0 < s1 \<and>
      called acc lu st [GetRegCall reg_ip, StepCall, InitCall] s2 new_ip c2 st2 \<and> 0 \<le> s2) \<and>
    length extras = 4 \<and>
    (\<forall>k < 4. if k < length extra_regs then \<exists>status val c st'.
         called acc lu st (rev (map GetRegCall (take (Suc k) extra_regs)) @ [GetRegCall reg_ip, StepCall, InitCall])
           status val c st' \<and> extras ! k = (if status < 0 then 0 else val)
       else extras ! k = 0)"
proof -
  let ?regs = "take (min (length extra_regs) 4) extra_regs"
  from assms obtain s0 c0 st0 s1 c1 st1 s2 c2 st2 where
    h1: "called acc lu st [StepCall, InitCall] s1 0 c1 st1" "0 < s1"
    and h2: "called acc lu st [GetRegCall reg_ip, StepCall, InitCall] s2 new_ip c2 st2" "0 \<le> s2"
    and loop: "fst (read_extras acc lu 0 ?regs [0, 0, 0, 0] c2 st2) = Ok extras"
    by (rule init_and_step_Stepped)
  have "0 + length ?regs \<le> length [0, 0, 0, 0 :: u64]" by simp
  note x = read_extras_Ok [OF loop h2(1) this, unfolded add_0]
  have zero: "[0, 0, 0, 0 :: u64] ! k = 0" if "k < 4" for k
    using that nth_replicate [of k 4 "0 :: u64"] by (simp add: numeral_eq_Suc)
  have "if k < length extra_regs then \<exists>status val c st'.
      called acc lu st (rev (map GetRegCall (take (Suc k) extra_regs)) @ [GetRegCall reg_ip, StepCall, InitCall])
        status val c st' \<and> extras ! k = (if status < 0 then 0 else val) else extras ! k = 0" if k: "k < 4" for k
  proof (cases "k < length extra_regs")
    case True
    with k have "take (Suc k) ?regs = take (Suc k) extra_regs" by (simp add: min_def)
    moreover from True k have "k < length ?regs" by simp
    with x obtain status val c st' where
      "called acc lu st (rev (map GetRegCall (take (Suc k) ?regs)) @ [GetRegCall reg_ip, StepCall, InitCall])
        status val c st'"
      "extras ! k = (if status < 0 then [0, 0, 0, 0] ! k else val)" by blast
    ultimately have "\<exists>status val c st'.
      called acc lu st (rev (map GetRegCall (take (Suc k) extra_regs)) @ [GetRegCall reg_ip, StepCall, InitCall])
        status val c st' \<and> extras ! k = (if status < 0 then 0 else val)"
      using zero [OF k] by (intro exI [of _ status] exI [of _ val] exI [of _ c] exI [of _ st']) simp
    with True show ?thesis by simp
  next
    case False
    with k have "length ?regs \<le> k" by simp
    moreover have "drop (length ?regs) extras = drop (length ?regs) [0, 0, 0, 0]" using x by simp
    ultimately have "extras ! k = [0, 0, 0, 0] ! k"
      using k x nth_drop [of "length ?regs" extras "k - length ?regs"]
        nth_drop [of "length ?regs" "[0, 0, 0, 0]" "k - length ?regs"] by simp
    with False zero [OF k] show ?thesis by simp
  qed
  moreover have "length extras = 4" using x by simp
  ultimately show ?thesis using h1 h2 by blast
qed

text \<open>A step says that the stack ends exactly when \<open>unw_step\<close> returns 0.\<close>

lemma init_and_step_EndOfStack:
  "fst (init_and_step acc lu reg_ip extra_regs st) = Ok EndOfStack \<longleftrightarrow>
     lu_create_addr_space_ok lu \<and>
     (\<exists>s0 v0 c0 st0 v1 c1 st1. called acc lu st [InitCall] s0 v0 c0 st0 \<and> 0 \<le> s0 \<and>
        called acc lu st [StepCall, InitCall] 0 v1 c1 st1)"
    (is "?l \<longleftrightarrow> ?r")
proof
  assume e: ?l
  then obtain s0 c0 st0 where r0: "run acc (lu_init_remote lu) st = (Ok (s0, c0), st0)" "0 \<le> s0"
    "lu_create_addr_space_ok lu"
    by (auto simp: init_and_step_def run_seq_Ok libunwind_failed_def split: if_splits)
  with e obtain c1 st1 where "run acc (lu_step lu c0) st0 = (Ok (0, c1), st1)"
    by (auto simp: init_and_step_def seq_then_conv run_seq_Ok extras_seq_Ok libunwind_failed_def split: if_splits)
  note h = call_init [OF r0(1)] call_step [OF call_init [OF r0(1)] this]
  from h r0(2,3) show ?r by blast
next
  assume ?r
  then show ?l by (auto simp: called_simps init_and_step_def seq_then_conv)
qed

section \<open>What the context remembers of a failed callback\<close>

text \<open>
  Why \<open>find_proc_info\<close> finds nothing for \<open>ip\<close>: no module, a parse of the module's sections that
  fails, or a poisoned cache.
\<close>

definition lookup_failed :: "bool \<Rightarrow> cache_heap \<Rightarrow> module_set \<Rightarrow> u64 \<Rightarrow> unwind_info_error \<Rightarrow> bool" where
  "lookup_failed oc h ms ip e =
     (case find_module ms ip of
        None \<Rightarrow> e = ModuleNotFound ip
      | Some md \<Rightarrow> parse_function_details oc md ip = Err e \<or>
          lock_cache h (md_function_cache md) = None \<and> e = FunctionCachePoisoned (md_name md))"

text \<open>Memory the crate cannot serve: no mirrored section covers the word and the reader refused it.\<close>

definition unreadable :: "'s reader_fn \<Rightarrow> module_set \<Rightarrow> u64 \<Rightarrow> bool" where
  "unreadable rf ms a \<longleftrightarrow> lookup_local ms a = None \<and> (\<exists>s. fst (rf s a) = None)"

text \<open>
  The notes in a context are true: a failed read is one nobody could serve, a lookup error is
  why the lookup fails; \<open>h0\<close> is the heap the step began with, which has the same poisoned caches.
\<close>

definition notes_true ::
    "('r, 's) accessors \<Rightarrow> cache_heap \<Rightarrow> module_set \<Rightarrow> u64 \<Rightarrow> ('r, 's) cb_state \<Rightarrow> bool" where
  "notes_true acc h0 ms ip st \<longleftrightarrow>
     ctx_modules (fst st) = ms \<and> ctx_lookup_ip (fst st) = ip \<and>
     (\<forall>i. lock_cache (snd st) i = None \<longleftrightarrow> lock_cache h0 i = None) \<and>
     (\<forall>a. ctx_last_failed_read_addr (fst st) = Some a \<longrightarrow> unreadable (acc_read_fn acc) ms a) \<and>
     (\<forall>e. ctx_unwind_info_error (fst st) = Some e \<longrightarrow> lookup_failed (acc_oc acc) h0 ms ip e)"

lemma get_or_parse_poison:
  "lock_cache (snd (get_or_parse_function_details oc h md ip)) i = None \<longleftrightarrow> lock_cache h i = None"
  by (auto simp: get_or_parse_function_details_def lock_cache_def nth_list_update
      split: option.split outcome.split cache_cell.split if_splits)

lemma get_or_parse_Err:
  "fst (get_or_parse_function_details oc h md ip) = Err e \<Longrightarrow>
     parse_function_details oc md ip = Err e \<or>
     lock_cache h (md_function_cache md) = None \<and> e = FunctionCachePoisoned (md_name md)"
  by (auto simp: get_or_parse_function_details_def split: option.splits outcome.splits)

lemma find_proc_info_notes:
  assumes "notes_true acc h0 ms ip (ctx, h)"
  shows "(\<forall>status pinfo' ctx'. fst (find_proc_info (acc_oc acc) h ctx pinfo) = Ok (status, pinfo', ctx') \<longrightarrow>
      notes_true acc h0 ms ip (ctx', snd (find_proc_info (acc_oc acc) h ctx pinfo))) \<and>
    notes_true acc h0 ms ip (ctx, snd (find_proc_info (acc_oc acc) h ctx pinfo))"
proof (cases "find_module ms ip")
  case None
  with assms show ?thesis by (auto simp: find_proc_info_def notes_true_def lookup_failed_def)
next
  case (Some md)
  obtain r h' where g: "get_or_parse_function_details (acc_oc acc) h md ip = (r, h')" by fastforce
  have poison: "lock_cache h' i = None \<longleftrightarrow> lock_cache h i = None" for i
    using get_or_parse_poison [of "acc_oc acc" h md ip i] g by simp
  have "lookup_failed (acc_oc acc) h0 ms ip e" if "r = Err e" for e
    using get_or_parse_Err [of "acc_oc acc" h md ip e] g that assms Some
    by (auto simp: lookup_failed_def notes_true_def)
  with Some g assms poison show ?thesis
    by (auto simp: find_proc_info_def notes_true_def split: outcome.split)
qed

lemma run_notes:
  assumes "notes_true acc h0 ms ip st"
  shows "notes_true acc h0 ms ip (snd (run acc t st))"
  using assms
proof (induction t arbitrary: st)
  case (UFindProcInfo pinfo k)
  obtain ctx h where st: "st = (ctx, h)" by (cases st)
  note n = find_proc_info_notes [OF UFindProcInfo.prems [unfolded st], of pinfo]
  show ?case
    by (cases "find_proc_info (acc_oc acc) h ctx pinfo"; cases "fst (find_proc_info (acc_oc acc) h ctx pinfo)")
      (use n in \<open>auto simp: st intro: UFindProcInfo.IH\<close>)
next
  case (UAccessMem addr val wr k)
  obtain ctx h where st: "st = (ctx, h)" by (cases st)
  have "notes_true acc h0 ms ip (ctx', h)"
    if "access_mem (acc_read_fn acc) ctx addr val wr = Ok (status, val', ctx')" for status val' ctx'
    using that UAccessMem.prems
    by (auto simp: st access_mem_def notes_true_def unreadable_def outcome_simps
        split: if_splits option.splits prod.splits) (metis fst_conv)
  with UAccessMem show ?case by (auto simp: st split: outcome.split)
next
  case (UAccessReg reg val wr k)
  obtain ctx h where st: "st = (ctx, h)" by (cases st)
  from UAccessReg.prems have "notes_true acc h0 ms ip (ctx\<lparr>ctx_regs := regs\<rparr>, h)" for regs
    by (simp add: st notes_true_def)
  with UAccessReg.IH show ?case by (auto simp: st callback_access_reg_def split: prod.split)
next
  case (UPutUnwindInfo k)
  then show ?case by (cases st) (simp add: put_unwind_info_def)
qed simp_all

lemma seq_notes:
  assumes "notes_true acc h0 ms ip (snd r)"
    and "\<And>x w. notes_true acc h0 ms ip w \<Longrightarrow> notes_true acc h0 ms ip (snd (f x w))"
  shows "notes_true acc h0 ms ip (snd (seq_then r f))"
  using assms by (cases r; cases "fst r") (auto simp: seq_then_def)

lemma read_extras_notes:
  "notes_true acc h0 ms ip st \<Longrightarrow> notes_true acc h0 ms ip (snd (read_extras acc lu i regs extras c st))"
proof (induction regs arbitrary: i extras c st)
  case (Cons reg regs)
  show ?case
    unfolding read_extras.simps
    by (rule seq_notes [OF run_notes [OF Cons.prems]])
      (auto simp: libunwind_failed_def intro: Cons.IH split: prod.split)
qed simp

lemma init_and_step_notes:
  assumes "notes_true acc h0 ms ip st"
  shows "notes_true acc h0 ms ip (snd (init_and_step acc lu reg_ip extra_regs st))"
  unfolding init_and_step_def using assms
  by (auto simp: libunwind_failed_def intro!: seq_notes run_notes read_extras_notes split: prod.split)

section \<open>A sample library\<close>

text \<open>
  A library that asks for the unwind information of the frame, reads one mirrored and one
  stack word, and steps; and one that fails to initialise.
\<close>

definition sample_lu :: "u64 libunwind" where
  "sample_lu = \<lparr>lu_create_addr_space_ok = True, lu_init_remote = UDone (0, 0),
     lu_step = (\<lambda>c. UFindProcInfo sample_pi (\<lambda>(status, pinfo).
        if status < 0 then UDone (status, c)
        else UAccessMem 0x3008 0 0 (\<lambda>(s1, v1). UAccessMem 0x7000 0 0 (\<lambda>(s2, v2). UDone (1, v2))))),
     lu_get_reg = (\<lambda>c reg. UDone (0, c + word_of_int reg, c))\<rparr>"

definition failing_lu :: "u64 libunwind" where
  "failing_lu = sample_lu\<lparr>lu_init_remote := UDone (- 10, 0)\<rparr>"

definition sample_acc :: "(unit, unit) accessors" where
  "sample_acc = \<lparr>acc_oc = True, acc_read_fn = (\<lambda>s a. (Some 0x2000, s)),
     acc_access_reg = (\<lambda>r reg v wr. (- UNW_EBADREG, v, r))\<rparr>"

section \<open>Properties\<close>

text \<open>No behaviour of libunwind can break the crate.  Whatever sequence of callbacks the
  library makes, with whatever arguments, and whatever it answers, one remote step has no
  undefined behaviour in the crate's own code, a release build does not panic, and the
  registry, the lookup address and the well-formedness of the function caches survive it.\<close>

theorem init_and_step_safe:
  assumes "heap_ok h" and "module_set_wf h (ctx_modules ctx)" and "mirrors_ok (ctx_modules ctx)"
    and "lu_create_addr_space_ok lu"
    and "init_and_step acc lu reg_ip extra_regs (ctx, h) = (r, (ctx', h'))"
  shows "panic_only (acc_oc acc) r \<and>
    (r \<noteq> Panic \<longrightarrow> ctx_modules ctx' = ctx_modules ctx \<and> ctx_lookup_ip ctx' = ctx_lookup_ip ctx \<and>
       heap_ok h' \<and> length h' = length h)"
  using init_and_step_settles [of "ctx_modules ctx" "ctx_lookup_ip ctx" "length h" "(ctx, h)" lu acc
      reg_ip extra_regs] assms
  by (auto simp: cb_inv_def settles_def)

theorem init_and_step_safe_witness:
  "panic_only True (fst (init_and_step sample_acc sample_lu 16 [7, 6] (sample_ctx, [Unlocked []])))"
  using init_and_step_safe [of "[Unlocked []]" sample_ctx sample_lu sample_acc 16 "[7, 6]"
      "fst (init_and_step sample_acc sample_lu 16 [7, 6] (sample_ctx, [Unlocked []]))"
      "fst (snd (init_and_step sample_acc sample_lu 16 [7, 6] (sample_ctx, [Unlocked []])))"
      "snd (snd (init_and_step sample_acc sample_lu 16 [7, 6] (sample_ctx, [Unlocked []])))"]
    sample_heap_ok sample_set_wf sample_redirect_ends
  by (simp add: sample_ctx_def mirrors_ok_def) (simp add: sample_lu_def sample_acc_def)

text \<open>C26: The outcome of a step names what really happened in libunwind.  The step returns an
  error exactly when one of the calls it makes returned a negative status after all calls
  before it went well (\<open>unw_init_remote\<close>, then \<open>unw_step\<close>, then the instruction pointer, then the
  first extra register), and the error carries the phase and the raw status of just that call.
  It reports the end of the stack exactly when \<open>unw_step\<close> returned 0.  Otherwise it returns the
  instruction pointer that \<open>unw_get_reg\<close> gave, and, for each of at most four extra registers,
  the value its own call gave, or 0 when that call failed or there is no such register.\<close>

theorem init_and_step_outcome:
  "(fst (init_and_step acc lu reg_ip extra_regs st) = Err e \<longleftrightarrow>
      lu_create_addr_space_ok lu \<and> failed_at acc lu reg_ip extra_regs st (lue_phase e) (lue_raw_status e) \<and>
      error_of (acc_oc acc) (lue_phase e) (lue_raw_status e) e) \<and>
   (fst (init_and_step acc lu reg_ip extra_regs st) = Ok EndOfStack \<longleftrightarrow>
      lu_create_addr_space_ok lu \<and>
      (\<exists>s0 v0 c0 st0 v1 c1 st1. called acc lu st [InitCall] s0 v0 c0 st0 \<and> 0 \<le> s0 \<and>
         called acc lu st [StepCall, InitCall] 0 v1 c1 st1)) \<and>
   (fst (init_and_step acc lu reg_ip extra_regs st) = Ok (Stepped new_ip extras) \<longrightarrow>
      (\<exists>s1 c1 st1 s2 c2 st2. called acc lu st [StepCall, InitCall] s1 0 c1 st1 \<and> 0 < s1 \<and>
         called acc lu st [GetRegCall reg_ip, StepCall, InitCall] s2 new_ip c2 st2 \<and> 0 \<le> s2) \<and>
      length extras = 4 \<and>
      (\<forall>k < 4. if k < length extra_regs then \<exists>status val c st'.
           called acc lu st (rev (map GetRegCall (take (Suc k) extra_regs)) @ [GetRegCall reg_ip, StepCall, InitCall])
             status val c st' \<and> extras ! k = (if status < 0 then 0 else val)
         else extras ! k = 0))"
proof (intro conjI)
  show "fst (init_and_step acc lu reg_ip extra_regs st) = Err e \<longleftrightarrow>
      lu_create_addr_space_ok lu \<and> failed_at acc lu reg_ip extra_regs st (lue_phase e) (lue_raw_status e) \<and>
      error_of (acc_oc acc) (lue_phase e) (lue_raw_status e) e"
    using init_and_step_Err init_and_step_failed by blast
qed (fact init_and_step_EndOfStack, use init_and_step_values in blast)

theorem init_and_step_outcome_witness:
  "failed_at sample_acc failing_lu 16 [7, 6] (sample_ctx, [Unlocked []]) InitRemote (- 10)"
  using init_and_step_outcome [THEN conjunct1, THEN iffD1, of sample_acc failing_lu 16 "[7, 6]"
      "(sample_ctx, [Unlocked []])" "\<lparr>lue_phase = InitRemote, lue_code = NoInfo, lue_raw_status = - 10\<rparr>"]
  by (simp add: init_and_step_def failing_lu_def sample_lu_def seq_then_def libunwind_failed_def
      libunwind_error_new_def from_status_def i32_abs_def code_of_abs_def unw_code_defs)

end
