(* ===== verification/Unwind_Iterator.thy ===== *)
theory Unwind_Iterator
  imports Frame_Address Address_Space
begin

text \<open>
  The \<open>Unwinder\<close> trait and \<open>UnwindIterator\<close> of \<open>module.rs\<close>.

  An iterator borrows an unwinder, a cache and a stack reader and owns the registers.  All
  of what a step may change (the registers, the state the reader closure captured, the
  function caches behind the unwinder's modules) is the iterator's world, of a type \<open>'w\<close>
  that each architecture chooses; \<open>unwinder_ops\<close> holds the two trait methods the iterator
  calls.

  Two locales state what the trait promises: \<open>frame_unwinder\<close>, that a step is safe and keeps
  the world's invariant, and \<open>advancing_unwinder\<close>, that every recovered frame also lowers a
  measure.  The behaviour of the iterator is proved inside them once, for both
  architectures.
\<close>

section \<open>The iterator\<close>

record 'w unwinder_ops =
  uw_unwind_frame :: "frame_address \<Rightarrow> 'w \<Rightarrow> (u64 option, error) outcome \<times> 'w"
  uw_is_signal_frame :: "frame_address \<Rightarrow> 'w \<Rightarrow> bool"

datatype unwind_iterator_state = Initial u64 | Unwinding frame_address | Done

record 'w unwind_iterator =
  it_state :: unwind_iterator_state
  it_world :: 'w

definition iter_frames :: "u64 \<Rightarrow> 'w \<Rightarrow> 'w unwind_iterator" where
  "iter_frames pc w = \<lparr>it_state = Initial pc, it_world = w\<rparr>"

text \<open>The second half of \<open>next\<close>: what the recovered return address does to the iterator.\<close>

definition next_frame ::
    "u64 option \<Rightarrow> bool \<Rightarrow> 'w unwind_iterator \<Rightarrow> frame_address option \<times> 'w unwind_iterator" where
  "next_frame return_address interrupted_instruction_pointer it =
     (case return_address of
        Some ra \<Rightarrow>
          let frame = (if interrupted_instruction_pointer then Some (InstructionPointer ra)
                       else from_return_address ra) in
          (case frame of
             Some frame \<Rightarrow> (Some frame, it\<lparr>it_state := Unwinding frame\<rparr>)
           | None \<Rightarrow> (None, it\<lparr>it_state := Done\<rparr>))
      | None \<Rightarrow> (None, it\<lparr>it_state := Done\<rparr>))"

definition iter_next ::
    "'w unwinder_ops \<Rightarrow> 'w unwind_iterator \<Rightarrow>
     (frame_address option, error) outcome \<times> 'w unwind_iterator" where
  "iter_next ops it =
     (case it_state it of
        Initial pc \<Rightarrow>
          let frame = InstructionPointer pc in
          (Ok (Some frame), it\<lparr>it_state := Unwinding frame\<rparr>)
      | Unwinding frame \<Rightarrow>
          (case uw_unwind_frame ops frame (it_world it) of
             (Ok return_address, w) \<Rightarrow>
               apfst Ok (next_frame return_address (uw_is_signal_frame ops frame w)
                 (it\<lparr>it_world := w\<rparr>))
           | (Err e, w) \<Rightarrow> (Err e, it\<lparr>it_world := w\<rparr>)
           | (Panic, w) \<Rightarrow> (Panic, it\<lparr>it_world := w\<rparr>)
           | (UB, w) \<Rightarrow> (UB, it\<lparr>it_world := w\<rparr>))
      | Done \<Rightarrow> (Ok None, it))"

text \<open>
  The loop \<open>while let Some(frame) = iter.next()?\<close> of a caller, with fuel: \<open>None\<close> when the
  fuel did not suffice, otherwise the frames and how the loop ended.
\<close>

primrec drain ::
    "'w unwinder_ops \<Rightarrow> nat \<Rightarrow> 'w unwind_iterator \<Rightarrow>
     (frame_address list \<times> (unit, error) outcome) option" where
  "drain ops 0 it = None"
| "drain ops (Suc n) it =
     (case iter_next ops it of
        (Ok (Some frame), it) \<Rightarrow> map_option (apfst (Cons frame)) (drain ops n it)
      | (Ok None, it) \<Rightarrow> Some ([], Ok ())
      | (Err e, it) \<Rightarrow> Some ([], Err e)
      | (Panic, it) \<Rightarrow> Some ([], Panic)
      | (UB, it) \<Rightarrow> Some ([], UB))"

text \<open>More fuel changes nothing once the loop has ended.\<close>

lemma drain_mono: "drain ops n it = Some r \<Longrightarrow> n \<le> m \<Longrightarrow> drain ops m it = Some r"
proof (induction n arbitrary: m it r)
  case 0
  then show ?case by simp
next
  case (Suc n)
  then obtain k where m: "m = Suc k" and "n \<le> k" by (cases m) auto
  obtain x it' where nx: "iter_next ops it = (x, it')" by fastforce
  show ?case
  proof (cases "\<exists>f. x = Ok (Some f)")
    case True
    then obtain f where "x = Ok (Some f)" ..
    with Suc.prems(1) nx Suc.IH [OF _ \<open>n \<le> k\<close>, of it'] show ?thesis by (auto simp: m)
  next
    case False
    with Suc.prems(1) nx show ?thesis by (cases x) (auto simp: m split: option.splits)
  qed
qed

lemma apfst_Ok_eq [simp]: "apfst Ok p = (Ok x, y) \<longleftrightarrow> p = (x, y)"
  by (cases p) auto

text \<open>What \<open>next\<close> does in each state.\<close>

lemma iter_next_Initial [simp]:
  "it_state it = Initial pc \<Longrightarrow> iter_next ops it =
     (Ok (Some (InstructionPointer pc)), it\<lparr>it_state := Unwinding (InstructionPointer pc)\<rparr>)"
  by (simp add: iter_next_def Let_def)

lemma iter_next_Done [simp]: "it_state it = Done \<Longrightarrow> iter_next ops it = (Ok None, it)"
  by (simp add: iter_next_def)

lemma next_frame_cases:
  assumes "next_frame ra sig it = (fr, it')"
  obtains (frame) f where "ra \<noteq> None" and "fr = Some f" and "frame_ok f" and "address f = the ra"
      and "is_return_address f \<longleftrightarrow> \<not> sig" and "it' = it\<lparr>it_state := Unwinding f\<rparr>"
  | (stop) "ra = None \<or> ra = Some 0 \<and> \<not> sig" and "fr = None" and "it' = it\<lparr>it_state := Done\<rparr>"
  using assms
  by (cases ra; cases sig)
    (auto simp: next_frame_def from_return_address_def frame_ok_def address_def is_return_address_def
      split: if_splits)

section \<open>Any safe unwinder\<close>

definition iter_inv :: "('w \<Rightarrow> bool) \<Rightarrow> 'w unwind_iterator \<Rightarrow> bool" where
  "iter_inv winv it \<longleftrightarrow> winv (it_world it) \<and>
     (case it_state it of Unwinding f \<Rightarrow> frame_ok f | _ \<Rightarrow> True)"

locale frame_unwinder =
  fixes ops :: "'w unwinder_ops"
    and winv :: "'w \<Rightarrow> bool"
    and may_panic :: bool
  assumes unwind_settles:
    "frame_ok f \<Longrightarrow> winv w \<Longrightarrow> settles may_panic winv (uw_unwind_frame ops f w)"
begin

lemma next_settles:
  assumes "iter_inv winv it"
  shows "settles may_panic (iter_inv winv) (iter_next ops it)"
proof (cases "it_state it")
  case (Unwinding f)
  obtain r w where uw: "uw_unwind_frame ops f (it_world it) = (r, w)" by fastforce
  have st: "settles may_panic winv (r, w)"
    using unwind_settles [of f "it_world it"] assms Unwinding uw by (simp add: iter_inv_def)
  show ?thesis
  proof (cases r)
    case (Ok ra)
    obtain fr it' where nf: "next_frame ra (uw_is_signal_frame ops f w) (it\<lparr>it_world := w\<rparr>) = (fr, it')"
      by fastforce
    from nf have "iter_inv winv it'"
      by (cases rule: next_frame_cases) (use st Ok in \<open>simp_all add: iter_inv_def\<close>)
    with Unwinding uw Ok nf show ?thesis by (simp add: iter_next_def)
  qed (use Unwinding uw st assms in \<open>simp_all add: iter_next_def iter_inv_def\<close>)
qed (use assms in \<open>simp_all add: iter_inv_def frame_ok_def\<close>)

text \<open>Every frame handed out satisfies the type invariant of \<open>FrameAddress\<close>.\<close>

lemma next_frame_ok: "fst (iter_next ops it) = Ok (Some f) \<Longrightarrow> frame_ok f"
  by (auto simp: iter_next_def Let_def frame_ok_def apfst_def map_prod_def
      split: unwind_iterator_state.splits prod.splits outcome.splits elim!: next_frame_cases)

lemma drain_settles:
  "iter_inv winv it \<Longrightarrow> drain ops n it = Some (fs, r) \<Longrightarrow>
     panic_only may_panic r \<and> list_all frame_ok fs"
proof (induction n arbitrary: it fs)
  case 0
  then show ?case by simp
next
  case (Suc n)
  obtain x it' where nx: "iter_next ops it = (x, it')" by fastforce
  have st: "settles may_panic (iter_inv winv) (x, it')" using next_settles [OF Suc.prems(1)] nx by simp
  show ?case
  proof (cases "\<exists>f. x = Ok (Some f)")
    case True
    then obtain f where x: "x = Ok (Some f)" ..
    with Suc.prems(2) nx obtain gs where "drain ops n it' = Some (gs, r)" and "fs = f # gs" by auto
    with Suc.IH [of it' gs] st x next_frame_ok [of it f] nx show ?thesis by simp
  next
    case False
    with Suc.prems(2) nx st show ?thesis by (cases x) (auto split: option.splits)
  qed
qed

end

text \<open>
  The iterators a caller can reach by calling \<open>next\<close>, as long as it returns.  The methods
  behind each call are any of a set \<open>opss\<close>, because the library and the reader need not behave
  the same at every call.
\<close>

inductive reachable ::
    "'w unwinder_ops set \<Rightarrow> 'w unwind_iterator \<Rightarrow> 'w unwind_iterator \<Rightarrow> bool"
  for opss :: "'w unwinder_ops set" and it0 :: "'w unwind_iterator" where
  start: "reachable opss it0 it0"
| call: "reachable opss it0 it \<Longrightarrow> ops \<in> opss \<Longrightarrow> iter_next ops it = (r, it') \<Longrightarrow> defined r \<Longrightarrow>
    reachable opss it0 it'"

inductive_simps reachable_simps: "reachable opss it0 it"

lemma reachable_inv:
  assumes "reachable opss it0 it" and "\<And>ops. ops \<in> opss \<Longrightarrow> frame_unwinder ops winv b"
    and "iter_inv winv it0"
  shows "iter_inv winv it"
  using assms(1)
proof (induction rule: reachable.induct)
  case start
  show ?case by (rule assms(3))
next
  case (call it ops r it')
  from frame_unwinder.next_settles [OF assms(2) [OF call.hyps(2)] call.IH] call.hyps(3,4)
  show ?case by (auto simp: settles_def)
qed

section \<open>Unwinders that advance\<close>

locale advancing_unwinder = frame_unwinder ops winv may_panic
  for ops :: "'w unwinder_ops" and winv :: "'w \<Rightarrow> bool" and may_panic :: bool +
  fixes measure_of :: "'w \<Rightarrow> nat"
  assumes advances:
    "frame_ok f \<Longrightarrow> winv w \<Longrightarrow> uw_unwind_frame ops f w = (Ok (Some ra), w') \<Longrightarrow>
       measure_of w' < measure_of w"
begin

lemma drain_unwinding:
  "iter_inv winv it \<Longrightarrow> it_state it = Unwinding f \<Longrightarrow> measure_of (it_world it) < n \<Longrightarrow>
     \<exists>fs r. drain ops n it = Some (fs, r) \<and> length fs \<le> measure_of (it_world it)"
proof (induction n arbitrary: it f)
  case 0
  then show ?case by simp
next
  case (Suc n)
  obtain x it' where nx: "iter_next ops it = (x, it')" by fastforce
  show ?case
  proof (cases "\<exists>g. x = Ok (Some g)")
    case True
    then obtain g where x: "x = Ok (Some g)" ..
    obtain r w where uw: "uw_unwind_frame ops f (it_world it) = (r, w)" by fastforce
    with nx x Suc.prems(2) obtain ra where r: "r = Ok ra"
      and nf: "next_frame ra (uw_is_signal_frame ops f w) (it\<lparr>it_world := w\<rparr>) = (Some g, it')"
      by (auto simp: iter_next_def split: outcome.splits prod.splits)
    from nf have it': "ra \<noteq> None" "it_state it' = Unwinding g" "it_world it' = w"
      by (cases rule: next_frame_cases; simp)+
    have winv': "iter_inv winv it'"
      using next_settles [OF Suc.prems(1)] nx x by simp
    have "measure_of w < measure_of (it_world it)"
      using advances [of f "it_world it" "the ra" w] Suc.prems(1,2) uw r it'(1)
      by (auto simp: iter_inv_def)
    with Suc.IH [OF winv' it'(2)] it'(3) Suc.prems(3) obtain fs e where
      "drain ops n it' = Some (fs, e)" "length fs \<le> measure_of w" by auto
    with nx x \<open>measure_of w < measure_of (it_world it)\<close> show ?thesis by simp
  next
    case False
    with nx show ?thesis by (cases x) (auto split: option.splits)
  qed
qed

text \<open>A whole unwinding ends, and its length is bounded by the measure.\<close>

lemma drain_terminates:
  assumes "winv w" and "measure_of w + 2 \<le> n"
  shows "\<exists>fs r. drain ops n (iter_frames pc w) = Some (fs, r) \<and> length fs \<le> measure_of w + 1"
proof -
  obtain k where n: "n = Suc k" and k: "measure_of w < k" using assms(2) by (cases n) auto
  let ?it = "\<lparr>it_state = Unwinding (InstructionPointer pc), it_world = w\<rparr>"
  have "iter_inv winv ?it" using assms(1) by (simp add: iter_inv_def frame_ok_def)
  from drain_unwinding [OF this, of "InstructionPointer pc" k] k obtain fs r where
    "drain ops k ?it = Some (fs, r)" "length fs \<le> measure_of w" by auto
  then show ?thesis by (simp add: n iter_frames_def)
qed

end

end
