(* ===== verification/Frame_Pointer.thy ===== *)
theory Frame_Pointer
  imports Unwind_Iterator
begin

text \<open>
  Frame-pointer unwinding, the fallback of both architectures for code without unwind
  information.

  The specification is the linked list of frame records a compiler with frame pointers
  leaves on the stack: \<open>fp_frame\<close> is one record, \<open>fp_chain\<close> the list of return addresses
  from a frame pointer on.  The locale \<open>fp_unwinder\<close> states what one fallback step promises
  against one record; inside it the iterator is proved to return exactly the chain.
\<close>

section \<open>Frame records\<close>

text \<open>
  The record at \<open>fp\<close> holds the caller's frame pointer and, one word above, the return
  address, from which \<open>strip\<close> removes authentication bits.  The caller's stack pointer is
  \<open>fp + 16\<close>, which must lie above \<open>sp\<close>, and the caller's frame pointer above \<open>fp\<close> or null.
\<close>

definition fp_frame ::
    "(u64 \<Rightarrow> u64 option) \<Rightarrow> (u64 \<Rightarrow> u64) \<Rightarrow> u64 \<Rightarrow> u64 \<Rightarrow> u64 \<Rightarrow> u64 \<Rightarrow> bool" where
  "fp_frame mem strip sp fp ra fp' \<longleftrightarrow>
     fp \<noteq> 0 \<and> unat fp + 16 < usize_limit \<and> sp < fp + 16 \<and>
     mem fp = Some fp' \<and> (fp' = 0 \<or> fp < fp') \<and> map_option strip (mem (fp + 8)) = Some ra"

inductive fp_chain ::
    "(u64 \<Rightarrow> u64 option) \<Rightarrow> (u64 \<Rightarrow> u64) \<Rightarrow> u64 \<Rightarrow> u64 \<Rightarrow> u64 list \<Rightarrow> bool"
  for mem :: "u64 \<Rightarrow> u64 option" and strip :: "u64 \<Rightarrow> u64" where
  outermost: "fp_chain mem strip sp 0 []"
| null_return: "fp_frame mem strip sp fp 0 fp' \<Longrightarrow> fp_chain mem strip sp fp []"
| link: "fp_frame mem strip sp fp ra fp' \<Longrightarrow> ra \<noteq> 0 \<Longrightarrow> fp_chain mem strip (fp + 16) fp' ras \<Longrightarrow>
    fp_chain mem strip sp fp (ra # ras)"

inductive_cases fp_chain_NilE: "fp_chain mem strip sp fp []"
inductive_cases fp_chain_ConsE: "fp_chain mem strip sp fp (ra # ras)"

lemma fp_frame_unique:
  "fp_frame mem strip sp fp ra fp' \<Longrightarrow> fp_frame mem strip sp fp ra2 fp2 \<Longrightarrow> ra2 = ra \<and> fp2 = fp'"
  by (auto simp: fp_frame_def)

text \<open>A reader that never fails to answer the same and keeps no state.\<close>

definition mem_reader :: "(u64 \<Rightarrow> u64 option) \<Rightarrow> 's reader_fn" where
  "mem_reader mem = (\<lambda>s a. (mem a, s))"

text \<open>
  Code the fallback is responsible for: an address whose module, if it has one, carries no
  usable unwind information, reported no broken header, and is not cached as a signal frame.
\<close>

definition bare :: "module_set \<Rightarrow> cache_heap \<Rightarrow> u64 \<Rightarrow> bool" where
  "bare ms h a \<longleftrightarrow> module_set_unwind_info_error ms a = None \<and> \<not> has_unwind_info ms a \<and>
     \<not> module_set_is_signal_frame h ms a"

lemma bare_outside: "\<not> contains_address ms a \<Longrightarrow> bare ms h a"
  by (simp add: bare_def contains_address_def module_set_unwind_info_error_def has_unwind_info_def
      module_set_is_signal_frame_def)

text \<open>
  What every error of a step says of the step: \<open>has_info\<close> tells whether the frame's code has
  unwind information, \<open>unread a\<close> that the word at \<open>a\<close> could not be had, \<open>failed phase status\<close> that
  the call of libunwind named by \<open>phase\<close> was the one that failed, with \<open>status\<close>, and \<open>missing e\<close>
  that the lookup of the frame's function fails with \<open>e\<close>.
\<close>

definition error_source_ok ::
    "bool \<Rightarrow> (u64 \<Rightarrow> bool) \<Rightarrow> (libunwind_phase \<Rightarrow> i32 \<Rightarrow> bool) \<Rightarrow> (unwind_info_error \<Rightarrow> bool) \<Rightarrow> error \<Rightarrow> bool" where
  "error_source_ok has_info unread failed missing e =
     (case e of
        CouldNotReadStack a \<Rightarrow> unread a
      | FramepointerUnwindingMovedBackwards \<Rightarrow> \<not> has_info
      | DidNotAdvance \<Rightarrow> has_info
      | IntegerOverflow \<Rightarrow> \<not> has_info
      | ReturnAddressIsNull \<Rightarrow> False
      | Libunwind err \<Rightarrow> has_info \<and> failed (lue_phase err) (lue_raw_status err)
      | UnwindInfo err \<Rightarrow> has_info \<and> missing err)"

text \<open>A word the step could not have: with unwind information the mirrored sections are tried first.\<close>

definition step_unread :: "'s reader_fn \<Rightarrow> module_set \<Rightarrow> bool \<Rightarrow> u64 \<Rightarrow> bool" where
  "step_unread rf ms has_info a \<longleftrightarrow> (\<exists>s. fst (rf s a) = None) \<and> (has_info \<longrightarrow> lookup_local ms a = None)"

lemma contains_address_top: "\<not> contains_address ms (- 1)"
  by (auto simp: contains_address_def find_module_def split: option.splits if_splits)

text \<open>
  How far a chain from \<open>fp\<close> can still go when no word at or above \<open>hi\<close> can be read: every
  link moves the frame pointer up, or ends the chain.
\<close>

definition fp_room :: "nat \<Rightarrow> u64 \<Rightarrow> nat" where
  "fp_room hi fp = (if fp = 0 then 0 else hi - unat fp)"

definition reads_below :: "nat \<Rightarrow> 's reader_fn \<Rightarrow> bool" where
  "reads_below hi rf \<longleftrightarrow> (\<forall>s a. fst (rf s a) \<noteq> None \<longrightarrow> unat a < hi)"

lemma reads_below_Some: "reads_below hi rf \<Longrightarrow> rf s a = (Some v, s') \<Longrightarrow> unat a < hi"
  unfolding reads_below_def by (metis fst_conv option.distinct(1))

lemma fp_room_less:
  "fp \<noteq> 0 \<Longrightarrow> unat fp < hi \<Longrightarrow> fp' = 0 \<or> fp < fp' \<Longrightarrow> fp_room hi fp' < fp_room hi fp"
  by (auto simp: fp_room_def word_less_nat_alt)

section \<open>The contract of a fallback step\<close>

locale fp_unwinder =
  fixes ops :: "'w unwinder_ops"
    and winv :: "'w \<Rightarrow> bool"
    and plain :: "frame_address \<Rightarrow> bool"
    and mem :: "u64 \<Rightarrow> u64 option"
    and strip :: "u64 \<Rightarrow> u64"
    and sp_of :: "'w \<Rightarrow> u64"
    and fp_of :: "'w \<Rightarrow> u64"
  assumes step_frame:
    "winv w \<Longrightarrow> plain f \<Longrightarrow> fp_frame mem strip (sp_of w) (fp_of w) ra fp' \<Longrightarrow> ra \<noteq> 0 \<Longrightarrow>
       \<exists>w'. uw_unwind_frame ops f w = (Ok (Some ra), w') \<and> winv w' \<and> sp_of w' = fp_of w + 16 \<and>
         fp_of w' = fp'"
    and step_end:
    "winv w \<Longrightarrow> plain f \<Longrightarrow> fp_of w = 0 \<or> fp_frame mem strip (sp_of w) (fp_of w) 0 fp' \<Longrightarrow>
       \<exists>w'. uw_unwind_frame ops f w = (Ok None, w')"
    and step_fails:
    "winv w \<Longrightarrow> plain f \<Longrightarrow> fp_of w \<noteq> 0 \<Longrightarrow> \<nexists>ra fp'. fp_frame mem strip (sp_of w) (fp_of w) ra fp' \<Longrightarrow>
       \<exists>e w'. uw_unwind_frame ops f w = (Err e, w')"
    and no_signal: "winv w \<Longrightarrow> plain f \<Longrightarrow> \<not> uw_is_signal_frame ops f w"
begin

text \<open>One call of \<open>next\<close> from a plain frame, in the three cases of the specification.\<close>

lemma next_link:
  assumes "winv w" and "plain f" and "fp_frame mem strip (sp_of w) (fp_of w) ra fp'" and "ra \<noteq> 0"
  obtains w' where "winv w'" and "sp_of w' = fp_of w + 16" and "fp_of w' = fp'"
    and "iter_next ops \<lparr>it_state = Unwinding f, it_world = w\<rparr> =
      (Ok (Some (ReturnAddress ra)), \<lparr>it_state = Unwinding (ReturnAddress ra), it_world = w'\<rparr>)"
proof -
  obtain w' where w': "uw_unwind_frame ops f w = (Ok (Some ra), w')" "winv w'"
    "sp_of w' = fp_of w + 16" "fp_of w' = fp'"
    using step_frame [OF assms] by blast
  have "\<not> uw_is_signal_frame ops f w'" using no_signal w'(2) assms(2) .
  with w' assms(4) that show ?thesis
    by (simp add: iter_next_def next_frame_def from_return_address_def)
qed

lemma next_end:
  assumes "winv w" and "plain f" and "fp_of w = 0 \<or> fp_frame mem strip (sp_of w) (fp_of w) 0 fp'"
  shows "fst (iter_next ops \<lparr>it_state = Unwinding f, it_world = w\<rparr>) = Ok None"
  using step_end [OF assms] by (auto simp: iter_next_def next_frame_def)

text \<open>The iterator returns the chain.\<close>

lemma drain_chain:
  "fp_chain mem strip sp fp ras \<Longrightarrow> winv w \<Longrightarrow> sp_of w = sp \<Longrightarrow> fp_of w = fp \<Longrightarrow>
     plain f \<Longrightarrow> \<forall>ra \<in> set ras. plain (ReturnAddress ra) \<Longrightarrow>
     drain ops (Suc (length ras)) \<lparr>it_state = Unwinding f, it_world = w\<rparr> =
       Some (map ReturnAddress ras, Ok ())"
proof (induction arbitrary: w f rule: fp_chain.induct)
  case (outermost sp)
  then show ?case using next_end [of w f] by (auto split: prod.split)
next
  case (null_return sp fp fp')
  then show ?case using next_end [of w f fp'] by (auto split: prod.split)
next
  case (link sp fp ra fp' ras)
  have fr: "fp_frame mem strip (sp_of w) (fp_of w) ra fp'" using link by simp
  show ?case
    by (rule next_link [OF link.prems(1,4) fr link.hyps(2)])
      (use link.IH [of _ "ReturnAddress ra"] link.prems in simp)
qed

lemma frame_cases:
  obtains (stop) fp' where "fp_of w = 0 \<or> fp_frame mem strip (sp_of w) (fp_of w) 0 fp'"
    | (link) ra fp' where "ra \<noteq> 0" "fp_frame mem strip (sp_of w) (fp_of w) ra fp'"
    | (bad) "fp_of w \<noteq> 0" "\<nexists>ra fp'. fp_frame mem strip (sp_of w) (fp_of w) ra fp'"
proof (cases "\<exists>ra fp'. fp_frame mem strip (sp_of w) (fp_of w) ra fp'")
  case True
  then obtain ra fp' where "fp_frame mem strip (sp_of w) (fp_of w) ra fp'" by blast
  with stop link show ?thesis by (cases "ra = 0") auto
next
  case False
  with stop bad show ?thesis by (cases "fp_of w = 0") auto
qed

text \<open>Conversely, what the iterator returns is the chain.\<close>

lemma drain_chain_only:
  "drain ops n \<lparr>it_state = Unwinding f, it_world = w\<rparr> = Some (fs, Ok ()) \<Longrightarrow> winv w \<Longrightarrow>
     plain f \<Longrightarrow> \<forall>g \<in> set fs. plain g \<Longrightarrow>
     \<exists>ras. fs = map ReturnAddress ras \<and> fp_chain mem strip (sp_of w) (fp_of w) ras"
proof (induction n arbitrary: w f fs)
  case 0
  then show ?case by simp
next
  case (Suc n)
  let ?it = "\<lparr>it_state = Unwinding f, it_world = w\<rparr>"
  show ?case
  proof (cases rule: frame_cases [of w])
    case (stop fp')
    with Suc.prems(1) next_end [OF Suc.prems(2,3) stop] have "fs = []"
      by (auto split: prod.splits)
    with stop show ?thesis by (auto intro: fp_chain.intros)
  next
    case (link ra fp')
    obtain w' where w': "winv w'" "sp_of w' = fp_of w + 16" "fp_of w' = fp'"
      and nx: "iter_next ops ?it =
        (Ok (Some (ReturnAddress ra)), \<lparr>it_state = Unwinding (ReturnAddress ra), it_world = w'\<rparr>)"
      using next_link [OF Suc.prems(2,3) link(2,1)] by metis
    with Suc.prems(1) obtain gs where
      gs: "drain ops n \<lparr>it_state = Unwinding (ReturnAddress ra), it_world = w'\<rparr> = Some (gs, Ok ())"
        "fs = ReturnAddress ra # gs" by auto
    from Suc.IH [OF gs(1) w'(1)] Suc.prems(4) gs(2) obtain ras where
      "gs = map ReturnAddress ras" "fp_chain mem strip (sp_of w') (fp_of w') ras" by auto
    with w' link gs(2) show ?thesis
      by (auto intro!: exI [of _ "ra # ras"] fp_chain.link)
  next
    case bad
    from step_fails [OF Suc.prems(2,3) bad] Suc.prems(1) show ?thesis
      by (auto simp: iter_next_def)
  qed
qed

text \<open>
  A whole unwinding from a program counter in plain code: it succeeds exactly on a chain,
  and then returns the program counter followed by the chain.
\<close>

lemma drain_iff_chain:
  assumes "winv w" and "plain (InstructionPointer pc)"
    and "\<forall>ra \<in> set ras. plain (ReturnAddress ra)"
  shows "(\<exists>n. drain ops n (iter_frames pc w) =
      Some (InstructionPointer pc # map ReturnAddress ras, Ok ())) \<longleftrightarrow>
    fp_chain mem strip (sp_of w) (fp_of w) ras"
    (is "?l \<longleftrightarrow> ?r")
proof
  assume ?l
  then obtain n where "drain ops n (iter_frames pc w) =
      Some (InstructionPointer pc # map ReturnAddress ras, Ok ())" ..
  then obtain k where "drain ops k \<lparr>it_state = Unwinding (InstructionPointer pc), it_world = w\<rparr> =
      Some (map ReturnAddress ras, Ok ())"
    by (cases n) (auto simp: iter_frames_def)
  from drain_chain_only [OF this assms(1,2)] assms(3) show ?r
    using inj_map_eq_map [of ReturnAddress ras] by (auto simp: inj_def)
next
  assume ?r
  from drain_chain [OF this assms(1) refl refl assms(2,3)] show ?l
    by (intro exI [of _ "Suc (Suc (length ras))"]) (simp add: iter_frames_def)
qed

end

section \<open>A sample stack\<close>

text \<open>Two frame records; the caller's frame pointer of the second is null.\<close>

definition sample_stack :: "u64 \<Rightarrow> u64 option" where
  "sample_stack a =
     (if a = 0x7000 then Some 0x7020 else if a = 0x7008 then Some 0x401234
      else if a = 0x7020 then Some 0 else if a = 0x7028 then Some 0x401300 else None)"

lemma sample_frames:
  "fp_frame sample_stack id 0x6ff0 0x7000 0x401234 0x7020"
  "fp_frame sample_stack id 0x7010 0x7020 0x401300 0"
  by (simp_all add: fp_frame_def sample_stack_def)

lemma sample_chain: "fp_chain sample_stack id 0x6ff0 0x7000 [0x401234, 0x401300]"
proof -
  have "fp_chain sample_stack id 0x7010 0x7020 [0x401300]"
    using fp_chain.link [OF sample_frames(2)] fp_chain.outermost by simp
  then show ?thesis using fp_chain.link [OF sample_frames(1)] by simp
qed

lemma sample_stack_below: "reads_below 0x7030 (mem_reader sample_stack)"
  by (auto simp: reads_below_def mem_reader_def sample_stack_def split: if_splits)

lemma bare_empty: "bare module_set_new h a"
  by (rule bare_outside) (simp add: contains_address_def find_module_def module_set_new_def)

end
