(* ===== verification/X86_64.thy ===== *)
theory X86_64
  imports Frame_Pointer
begin

text \<open>
  \<open>x86_64.rs\<close>: the register file, the accessor libunwind reads it through, the
  frame-pointer fallback and \<open>unwind_frame\<close>.

  \<open>[u64; 16]\<close> is a list of length 16 (\<open>x86_64_regs_ok\<close>), \<open>valid_regs\<close> a 16-bit word.  A
  step works on the registers, the state of the user's reader and the heap of function
  caches.
\<close>

section \<open>Registers\<close>

datatype x86_64_reg =
  RAX | RDX | RCX | RBX | RSI | RDI | RBP | RSP | R8 | R9 | R10 | R11 | R12 | R13 | R14 | R15

text \<open>\<open>reg as usize\<close>: the position of the variant.\<close>

primrec x86_64_reg_index :: "x86_64_reg \<Rightarrow> nat" where
  "x86_64_reg_index RAX = 0"
| "x86_64_reg_index RDX = 1"
| "x86_64_reg_index RCX = 2"
| "x86_64_reg_index RBX = 3"
| "x86_64_reg_index RSI = 4"
| "x86_64_reg_index RDI = 5"
| "x86_64_reg_index RBP = 6"
| "x86_64_reg_index RSP = 7"
| "x86_64_reg_index R8 = 8"
| "x86_64_reg_index R9 = 9"
| "x86_64_reg_index R10 = 10"
| "x86_64_reg_index R11 = 11"
| "x86_64_reg_index R12 = 12"
| "x86_64_reg_index R13 = 13"
| "x86_64_reg_index R14 = 14"
| "x86_64_reg_index R15 = 15"

record raw_regs_x86_64 =
  xraw_ip :: u64
  xraw_regs :: "u64 list"
  xraw_valid_regs :: u16

record unwind_regs_x86_64 =
  xr_ip :: u64
  xr_regs :: "u64 list"
  xr_valid_regs :: u16

definition x86_64_from_public :: "u64 \<Rightarrow> unwind_regs_x86_64 \<Rightarrow> raw_regs_x86_64" where
  "x86_64_from_public ip regs =
     \<lparr>xraw_ip = ip, xraw_regs = xr_regs regs, xraw_valid_regs = xr_valid_regs regs\<rparr>"

text \<open>Status, the word behind \<open>val\<close> and the registers.\<close>

definition x86_64_access_reg ::
    "raw_regs_x86_64 \<Rightarrow> i32 \<Rightarrow> u64 \<Rightarrow> i32 \<Rightarrow> i32 \<times> u64 \<times> raw_regs_x86_64" where
  "x86_64_access_reg raw reg val wr =
     (if reg = UNW_X86_64_RIP then
        (if wr \<noteq> 0 then (UNW_ESUCCESS, val, raw\<lparr>xraw_ip := val\<rparr>)
         else (UNW_ESUCCESS, xraw_ip raw, raw))
      else if \<not> (0 \<le> reg \<and> reg < 16) then (- UNW_EBADREG, val, raw)
      else
        let index = nat reg in
        if wr \<noteq> 0 then
          (UNW_ESUCCESS, val,
           raw\<lparr>xraw_regs := (xraw_regs raw)[index := val],
               xraw_valid_regs := xraw_valid_regs raw OR push_bit index 1\<rparr>)
        else if xraw_valid_regs raw AND push_bit index 1 \<noteq> 0 then
          (UNW_ESUCCESS, xraw_regs raw ! index, raw)
        else (- UNW_EBADREG, val, raw))"

definition x86_64_valid_reg_bit :: "x86_64_reg \<Rightarrow> u16" where
  "x86_64_valid_reg_bit reg = push_bit (x86_64_reg_index reg) 1"

definition x86_64_get :: "unwind_regs_x86_64 \<Rightarrow> x86_64_reg \<Rightarrow> u64" where
  "x86_64_get regs reg = xr_regs regs ! x86_64_reg_index reg"

definition x86_64_get_if_set :: "unwind_regs_x86_64 \<Rightarrow> x86_64_reg \<Rightarrow> u64 option" where
  "x86_64_get_if_set regs reg =
     (if xr_valid_regs regs AND x86_64_valid_reg_bit reg \<noteq> 0 then Some (x86_64_get regs reg) else None)"

definition x86_64_set :: "x86_64_reg \<Rightarrow> u64 \<Rightarrow> unwind_regs_x86_64 \<Rightarrow> unwind_regs_x86_64" where
  "x86_64_set reg v regs =
     regs\<lparr>xr_regs := (xr_regs regs)[x86_64_reg_index reg := v],
          xr_valid_regs := xr_valid_regs regs OR x86_64_valid_reg_bit reg\<rparr>"

definition x86_64_clear_unrestored :: "unwind_regs_x86_64 \<Rightarrow> unwind_regs_x86_64" where
  "x86_64_clear_unrestored regs =
     regs\<lparr>xr_valid_regs := x86_64_valid_reg_bit RSP OR x86_64_valid_reg_bit RBP\<rparr>"

definition x86_64_ip :: "unwind_regs_x86_64 \<Rightarrow> u64" where
  "x86_64_ip regs = xr_ip regs"

definition x86_64_set_ip :: "u64 \<Rightarrow> unwind_regs_x86_64 \<Rightarrow> unwind_regs_x86_64" where
  "x86_64_set_ip ip regs = regs\<lparr>xr_ip := ip\<rparr>"

definition x86_64_sp :: "unwind_regs_x86_64 \<Rightarrow> u64" where
  "x86_64_sp regs = x86_64_get regs RSP"

definition x86_64_set_sp :: "u64 \<Rightarrow> unwind_regs_x86_64 \<Rightarrow> unwind_regs_x86_64" where
  "x86_64_set_sp sp = x86_64_set RSP sp"

definition x86_64_bp :: "unwind_regs_x86_64 \<Rightarrow> u64" where
  "x86_64_bp regs = x86_64_get regs RBP"

definition x86_64_set_bp :: "u64 \<Rightarrow> unwind_regs_x86_64 \<Rightarrow> unwind_regs_x86_64" where
  "x86_64_set_bp bp = x86_64_set RBP bp"

definition x86_64_regs_new :: "u64 \<Rightarrow> u64 \<Rightarrow> u64 \<Rightarrow> unwind_regs_x86_64" where
  "x86_64_regs_new ip sp bp =
     x86_64_set_bp bp (x86_64_set_sp sp
       \<lparr>xr_ip = ip, xr_regs = replicate 16 0, xr_valid_regs = 0\<rparr>)"

definition x86_64_rip :: "unwind_regs_x86_64 \<Rightarrow> u64" where
  "x86_64_rip regs = x86_64_ip regs"

definition x86_64_rsp :: "unwind_regs_x86_64 \<Rightarrow> u64" where
  "x86_64_rsp regs = x86_64_sp regs"

definition x86_64_rbp :: "unwind_regs_x86_64 \<Rightarrow> u64" where
  "x86_64_rbp regs = x86_64_bp regs"

definition x86_64_set_rip :: "u64 \<Rightarrow> unwind_regs_x86_64 \<Rightarrow> unwind_regs_x86_64" where
  "x86_64_set_rip v = x86_64_set_ip v"

definition x86_64_set_rsp :: "u64 \<Rightarrow> unwind_regs_x86_64 \<Rightarrow> unwind_regs_x86_64" where
  "x86_64_set_rsp v = x86_64_set_sp v"

definition x86_64_set_rbp :: "u64 \<Rightarrow> unwind_regs_x86_64 \<Rightarrow> unwind_regs_x86_64" where
  "x86_64_set_rbp v = x86_64_set_bp v"

section \<open>The unwinder\<close>

text \<open>\<open>UnwinderX86_64\<close> holds the module registry.\<close>

record unwinder_x86_64 =
  xu_modules :: module_set

definition x86_64_unwinder_new :: unwinder_x86_64 where
  "x86_64_unwinder_new = \<lparr>xu_modules = module_set_new\<rparr>"

definition x86_64_unwinder_clone :: "unwinder_x86_64 \<Rightarrow> unwinder_x86_64" where
  "x86_64_unwinder_clone u = \<lparr>xu_modules = module_set_clone (xu_modules u)\<rparr>"

definition x86_64_add_module :: "unwinder_x86_64 \<Rightarrow> module_data \<Rightarrow> unwinder_x86_64" where
  "x86_64_add_module u data = u\<lparr>xu_modules := module_set_add (xu_modules u) data\<rparr>"

definition x86_64_remove_module :: "unwinder_x86_64 \<Rightarrow> u64 \<Rightarrow> unwinder_x86_64" where
  "x86_64_remove_module u avma_start = u\<lparr>xu_modules := module_set_remove (xu_modules u) avma_start\<rparr>"

definition x86_64_max_known_code_address :: "unwinder_x86_64 \<Rightarrow> u64" where
  "x86_64_max_known_code_address u = max_known_code_address (xu_modules u)"

type_synonym 's x86_64_world = "unwind_regs_x86_64 \<times> 's \<times> cache_heap"

definition x86_64_is_signal_frame :: "unwinder_x86_64 \<Rightarrow> frame_address \<Rightarrow> 's x86_64_world \<Rightarrow> bool" where
  "x86_64_is_signal_frame u frame = (\<lambda>(regs, s, h).
     module_set_is_signal_frame h (xu_modules u) (address_for_lookup frame))"

definition x86_64_fallback_unwind_frame ::
    "'s reader_fn \<Rightarrow> u64 \<Rightarrow> unwind_regs_x86_64 \<Rightarrow> 's \<Rightarrow>
     (u64 option, error) outcome \<times> unwind_regs_x86_64 \<times> 's" where
  "x86_64_fallback_unwind_frame read_stack current_ip regs s =
     (let sp = x86_64_sp regs; bp = x86_64_bp regs in
      if bp = 0 then (Ok None, regs, s)
      else case checked_add_u64 bp 8 of None \<Rightarrow> (Err IntegerOverflow, regs, s)
      | Some return_address_location \<Rightarrow>
      (case checked_add_u64 bp 16 of None \<Rightarrow> (Err IntegerOverflow, regs, s)
      | Some new_sp \<Rightarrow>
      if new_sp \<le> sp then (Err FramepointerUnwindingMovedBackwards, regs, s)
      else case read_stack s bp of (None, s) \<Rightarrow> (Err (CouldNotReadStack bp), regs, s)
      | (Some new_bp, s) \<Rightarrow>
      if new_bp \<noteq> 0 \<and> new_bp \<le> bp then (Err FramepointerUnwindingMovedBackwards, regs, s)
      else case read_stack s return_address_location of
        (None, s) \<Rightarrow> (Err (CouldNotReadStack return_address_location), regs, s)
      | (Some return_address, s) \<Rightarrow>
      if return_address = 0 then (Ok None, regs, s)
      else if new_sp = sp \<and> return_address = current_ip then (Err DidNotAdvance, regs, s)
      else
        (Ok (Some return_address),
         x86_64_set_bp new_bp (x86_64_set_sp new_sp (x86_64_set_ip return_address
           (x86_64_clear_unrestored regs))), s)))"

text \<open>
  The \<open>match\<close> on the outcome of the step, over the registers and the context it left; \<open>h\<close> is
  the heap after the step.
\<close>

definition x86_64_finish_step ::
    "module_set \<Rightarrow> frame_address \<Rightarrow> unwind_regs_x86_64 \<Rightarrow> cache_heap \<Rightarrow>
     (step_outcome, libunwind_error) outcome \<Rightarrow> u64 option \<Rightarrow> unwind_info_error option \<Rightarrow>
     (u64 option, error) outcome \<times> unwind_regs_x86_64" where
  "x86_64_finish_step modules frame regs h step failed_read info_error =
     (case step of
        Ok EndOfStack \<Rightarrow> (Ok None, regs)
      | Ok (Stepped new_ip extras) \<Rightarrow>
          let new_sp = extras ! 0; new_bp = extras ! 1 in
          if new_ip = 0 then (Ok None, regs)
          else
            let signal_frame = module_set_is_signal_frame h modules (address_for_lookup frame) in
            (case (if is_return_address frame \<and> \<not> signal_frame \<and> contains_address modules new_ip
                   then checked_add_u64 new_ip 1 else Some new_ip) of
               None \<Rightarrow> (Err IntegerOverflow, regs)
             | Some new_ip \<Rightarrow>
                 if new_ip = address frame \<and> new_sp = x86_64_sp regs then (Err DidNotAdvance, regs)
                 else
                   (Ok (Some new_ip),
                    x86_64_set_bp new_bp (x86_64_set_sp new_sp (x86_64_set_ip new_ip
                      (x86_64_clear_unrestored regs)))))
      | Err err \<Rightarrow>
          (case (failed_read, info_error) of
             (Some addr, _) \<Rightarrow> (Err (CouldNotReadStack addr), regs)
           | (None, Some e) \<Rightarrow> (Err (UnwindInfo e), regs)
           | (None, None) \<Rightarrow> (Err (Libunwind err), regs))
      | Panic \<Rightarrow> (Panic, regs)
      | UB \<Rightarrow> (UB, regs))"

definition x86_64_unwind_frame ::
    "bool \<Rightarrow> 'c libunwind \<Rightarrow> 's reader_fn \<Rightarrow> unwinder_x86_64 \<Rightarrow> frame_address \<Rightarrow> 's x86_64_world \<Rightarrow>
     (u64 option, error) outcome \<times> 's x86_64_world" where
  "x86_64_unwind_frame oc lu read_stack u frame = (\<lambda>(regs, s, h).
     let current_ip = address frame; lookup_ip = address_for_lookup frame in
     case module_set_unwind_info_error (xu_modules u) lookup_ip of
       Some err \<Rightarrow> (Err (UnwindInfo err), regs, s, h)
     | None \<Rightarrow>
       if \<not> has_unwind_info (xu_modules u) lookup_ip then
         (case x86_64_fallback_unwind_frame read_stack current_ip regs s of
            (r, regs, s) \<Rightarrow> (r, regs, s, h))
       else
         let acc = \<lparr>acc_oc = oc, acc_read_fn = read_stack, acc_access_reg = x86_64_access_reg\<rparr>;
             ctx = \<lparr>ctx_modules = xu_modules u, ctx_regs = x86_64_from_public lookup_ip regs,
                    ctx_lookup_ip = lookup_ip, ctx_reader = s, ctx_last_failed_read_addr = None,
                    ctx_unwind_info_error = None\<rparr> in
         (case init_and_step acc lu x86_64_reg_ip [x86_64_UNW_REG_SP, UNW_X86_64_RBP] (ctx, h) of
            (step, (ctx, h)) \<Rightarrow>
              (case x86_64_finish_step (xu_modules u) frame regs h step
                      (ctx_last_failed_read_addr ctx) (ctx_unwind_info_error ctx) of
                 (r, regs) \<Rightarrow> (r, regs, ctx_reader ctx, h))))"

definition x86_64_ops ::
    "bool \<Rightarrow> 'c libunwind \<Rightarrow> 's reader_fn \<Rightarrow> unwinder_x86_64 \<Rightarrow> 's x86_64_world unwinder_ops" where
  "x86_64_ops oc lu read_stack u =
     \<lparr>uw_unwind_frame = x86_64_unwind_frame oc lu read_stack u,
      uw_is_signal_frame = x86_64_is_signal_frame u\<rparr>"

section \<open>The register file\<close>

definition x86_64_regs_ok :: "unwind_regs_x86_64 \<Rightarrow> bool" where
  "x86_64_regs_ok regs \<longleftrightarrow> length (xr_regs regs) = 16"

lemma x86_64_reg_index_less [simp]: "x86_64_reg_index reg < 16"
  by (cases reg) simp_all

lemma x86_64_reg_index_inj [simp]: "x86_64_reg_index r = x86_64_reg_index r' \<longleftrightarrow> r = r'"
  by (cases r; cases r'; simp)

lemma and_bit_eq_0: "(v :: u16) AND 2 ^ i = 0 \<longleftrightarrow> \<not> bit v i"
  using bit_iff_and_push_bit_not_eq_0 [of v i] by (simp add: push_bit_of_1)

lemma x86_64_get_if_set_iff:
  "x86_64_get_if_set regs reg =
     (if bit (xr_valid_regs regs) (x86_64_reg_index reg) then Some (x86_64_get regs reg) else None)"
  by (simp add: x86_64_get_if_set_def x86_64_valid_reg_bit_def and_bit_eq_0)

lemma bit_valid_reg_bit:
  "bit (x86_64_valid_reg_bit reg) i \<longleftrightarrow> i = x86_64_reg_index reg"
  using x86_64_reg_index_less [of reg]
  by (auto simp: x86_64_valid_reg_bit_def bit_simps simp del: x86_64_reg_index_less)

lemma x86_64_set_ok [simp]: "x86_64_regs_ok (x86_64_set reg v regs) = x86_64_regs_ok regs"
  by (simp add: x86_64_regs_ok_def x86_64_set_def)

lemma x86_64_get_set:
  "x86_64_regs_ok regs \<Longrightarrow>
     x86_64_get (x86_64_set reg v regs) reg' = (if reg' = reg then v else x86_64_get regs reg')"
  by (auto simp: x86_64_regs_ok_def x86_64_set_def x86_64_get_def nth_list_update)

lemma x86_64_get_if_set_set:
  assumes "x86_64_regs_ok regs"
  shows "x86_64_get_if_set (x86_64_set reg v regs) reg' =
    (if reg' = reg then Some v else x86_64_get_if_set regs reg')"
  using assms
  by (simp add: x86_64_get_if_set_iff x86_64_get_set)
    (auto simp: x86_64_set_def bit_or_iff bit_valid_reg_bit)

text \<open>What a recovered frame leaves in the registers.\<close>

abbreviation x86_64_restored :: "u64 \<Rightarrow> u64 \<Rightarrow> u64 \<Rightarrow> unwind_regs_x86_64 \<Rightarrow> unwind_regs_x86_64" where
  "x86_64_restored ip sp bp regs \<equiv>
     x86_64_set_bp bp (x86_64_set_sp sp (x86_64_set_ip ip (x86_64_clear_unrestored regs)))"

lemma x86_64_restored_ok [simp]:
  "x86_64_regs_ok (x86_64_restored ip sp bp regs) \<longleftrightarrow> x86_64_regs_ok regs"
  by (simp add: x86_64_set_bp_def x86_64_set_sp_def)
    (simp add: x86_64_regs_ok_def x86_64_set_ip_def x86_64_clear_unrestored_def)

lemma x86_64_restored_get:
  assumes "x86_64_regs_ok regs"
  shows "x86_64_get (x86_64_restored ip sp bp regs) reg =
    (if reg = RSP then sp else if reg = RBP then bp else x86_64_get regs reg)"
proof -
  let ?c = "x86_64_set_ip ip (x86_64_clear_unrestored regs)"
  have "x86_64_regs_ok ?c" and "x86_64_get ?c reg = x86_64_get regs reg"
    using assms by (simp_all add: x86_64_regs_ok_def x86_64_set_ip_def x86_64_clear_unrestored_def
        x86_64_get_def)
  then show ?thesis by (simp add: x86_64_set_bp_def x86_64_set_sp_def x86_64_get_set)
qed

lemma x86_64_restored_simps [simp]:
  "xr_ip (x86_64_restored ip sp bp regs) = ip"
  "xr_valid_regs (x86_64_restored ip sp bp regs) = 0xC0"
  by (simp_all add: x86_64_set_bp_def x86_64_set_sp_def x86_64_set_ip_def x86_64_set_def
      x86_64_clear_unrestored_def x86_64_valid_reg_bit_def)

lemma x86_64_restored_sp_bp [simp]:
  assumes "x86_64_regs_ok regs"
  shows "x86_64_sp (x86_64_restored ip sp bp regs) = sp"
    and "x86_64_bp (x86_64_restored ip sp bp regs) = bp"
  unfolding x86_64_sp_def x86_64_bp_def x86_64_restored_get [OF assms] by simp_all

section \<open>The fallback\<close>

lemma x86_64_fallback_defined: "defined (fst (x86_64_fallback_unwind_frame rf ip regs s))"
  by (simp add: x86_64_fallback_unwind_frame_def Let_def split: option.split prod.split)

lemma x86_64_fallback_Some:
  assumes "x86_64_fallback_unwind_frame rf ip regs s = (Ok (Some ra), regs', s')"
  obtains new_bp s1 where "x86_64_bp regs \<noteq> 0" and "unat (x86_64_bp regs) + 16 < usize_limit"
    and "x86_64_sp regs < x86_64_bp regs + 16"
    and "rf s (x86_64_bp regs) = (Some new_bp, s1)" and "new_bp = 0 \<or> x86_64_bp regs < new_bp"
    and "rf s1 (x86_64_bp regs + 8) = (Some ra, s')" and "ra \<noteq> 0"
    and "regs' = x86_64_restored ra (x86_64_bp regs + 16) new_bp regs"
  using assms
  by (auto simp: x86_64_fallback_unwind_frame_def Let_def checked_add_u64_def not_le
      split: if_splits option.splits prod.splits)

lemma x86_64_fallback_keeps_regs:
  "x86_64_fallback_unwind_frame rf ip regs s = (r, regs', s') \<Longrightarrow> \<nexists>ra. r = Ok (Some ra) \<Longrightarrow> regs' = regs"
  by (auto simp: x86_64_fallback_unwind_frame_def Let_def split: if_splits option.splits prod.splits)

lemma x86_64_fallback_ok:
  assumes "x86_64_fallback_unwind_frame rf ip regs s = (r, regs', s')" and "x86_64_regs_ok regs"
  shows "x86_64_regs_ok regs'"
proof (cases "\<exists>ra. r = Ok (Some ra)")
  case True
  then obtain ra where "r = Ok (Some ra)" ..
  with assms(1) have "x86_64_fallback_unwind_frame rf ip regs s = (Ok (Some ra), regs', s')" by simp
  then show ?thesis by (rule x86_64_fallback_Some) (use assms(2) in simp)
next
  case False
  with x86_64_fallback_keeps_regs [OF assms(1)] assms(2) show ?thesis by simp
qed

text \<open>The fallback on a pure memory, against the record the frame pointer names.\<close>

lemma x86_64_fallback_frame:
  assumes "fp_frame mem id (x86_64_sp regs) (x86_64_bp regs) ra bp'"
  shows "x86_64_fallback_unwind_frame (mem_reader mem) ip regs s =
    (if ra = 0 then (Ok None, regs, s)
     else (Ok (Some ra), x86_64_restored ra (x86_64_bp regs + 16) bp' regs, s))"
  using assms
  by (auto simp: x86_64_fallback_unwind_frame_def fp_frame_def mem_reader_def checked_add_u64_def
      Let_def not_le)

lemma x86_64_fallback_no_frame:
  assumes "x86_64_bp regs \<noteq> 0" and "\<nexists>ra bp'. fp_frame mem id (x86_64_sp regs) (x86_64_bp regs) ra bp'"
  shows "\<exists>e. x86_64_fallback_unwind_frame (mem_reader mem) ip regs s = (Err e, regs, s)"
  using assms
  by (auto simp: x86_64_fallback_unwind_frame_def fp_frame_def mem_reader_def checked_add_u64_def
      Let_def not_le split: option.split)

section \<open>The contract of the iterator's unwinder\<close>

definition x86_64_inv :: "'c libunwind \<Rightarrow> unwinder_x86_64 \<Rightarrow> 's x86_64_world \<Rightarrow> bool" where
  "x86_64_inv lu u = (\<lambda>(regs, s, h). x86_64_regs_ok regs \<and> lu_create_addr_space_ok lu \<and>
     heap_ok h \<and> module_set_wf h (xu_modules u) \<and> mirrors_ok (xu_modules u))"

lemma x86_64_finish_step_cases:
  assumes "x86_64_finish_step ms f regs h step fr ie = (r, regs')"
  obtains (panic) "step = Panic" and "r = Panic" | (ub) "step = UB" and "r = UB"
  | (failed) err where "step = Err err" and "regs' = regs"
      and "r = Err (case fr of Some a \<Rightarrow> CouldNotReadStack a
             | None \<Rightarrow> (case ie of Some e \<Rightarrow> UnwindInfo e | None \<Rightarrow> Libunwind err))"
  | (stopped) "r = Ok None" and "regs' = regs"
      and "step = Ok EndOfStack \<or> (\<exists>extras. step = Ok (Stepped 0 extras))"
  | (stuck) new_ip extras where "step = Ok (Stepped new_ip extras)" and "regs' = regs"
      and "r = Err IntegerOverflow \<and> new_ip = - 1 \<or> r = Err DidNotAdvance"
  | (advanced) new_ip extras ip where "step = Ok (Stepped new_ip extras)" and "r = Ok (Some ip)"
      and "ip = new_ip \<or> ip = new_ip + 1 \<and> new_ip \<noteq> - 1" and "new_ip \<noteq> 0"
      and "ip \<noteq> address f \<or> extras ! 0 \<noteq> x86_64_sp regs"
      and "regs' = x86_64_restored ip (extras ! 0) (extras ! 1) regs"
proof (cases step)
  case (Ok st)
  show ?thesis
  proof (cases st)
    case (Stepped new_ip extras)
    let ?bump = "if is_return_address f \<and>
        \<not> module_set_is_signal_frame h ms (address_for_lookup f) \<and> contains_address ms new_ip
      then checked_add_u64 new_ip 1 else Some new_ip"
    note def = assms [unfolded x86_64_finish_step_def Ok Stepped Let_def outcome.case step_outcome.case]
    consider (zero) "new_ip = 0" | (over) "new_ip \<noteq> 0" "?bump = None"
      | (go) ip where "new_ip \<noteq> 0" "?bump = Some ip" by (cases ?bump) auto
    then show ?thesis
    proof cases
      case zero
      with def Ok Stepped stopped show ?thesis by simp
    next
      case over
      then have "new_ip = - 1" by (simp add: checked_add_u64_1 split: if_splits)
      with def over stuck [OF Ok [unfolded Stepped]] show ?thesis by simp
    next
      case go
      then have ip: "ip = new_ip \<or> ip = new_ip + 1 \<and> new_ip \<noteq> - 1"
        by (auto simp: checked_add_u64_1 split: if_splits)
      show ?thesis
      proof (cases "ip = address f \<and> extras ! 0 = x86_64_sp regs")
        case True
        with def go stuck [OF Ok [unfolded Stepped]] show ?thesis by simp
      next
        case False
        with def go have "r = Ok (Some ip)" "regs' = x86_64_restored ip (extras ! 0) (extras ! 1) regs"
          by auto
        with advanced [OF Ok [unfolded Stepped] _ ip go(1)] False show ?thesis by simp
      qed
    qed
  qed (use assms Ok stopped in \<open>simp add: x86_64_finish_step_def\<close>)
qed (use assms panic ub failed in \<open>auto simp: x86_64_finish_step_def split: option.splits\<close>)

lemma x86_64_finish_step_settles:
  assumes "x86_64_finish_step ms f regs h step fr ie = (r, regs')" and "panic_only b step"
    and "x86_64_regs_ok regs"
  shows "panic_only b r \<and> (r = Panic \<longleftrightarrow> step = Panic) \<and> x86_64_regs_ok regs'"
  using assms(1)
  by (cases rule: x86_64_finish_step_cases)
    (use assms in \<open>auto simp: x86_64_finish_step_def\<close>)

lemma x86_64_unwind_settles:
  assumes "x86_64_inv lu u w"
  shows "settles oc (x86_64_inv lu u) (x86_64_unwind_frame oc lu rf u f w)"
proof -
  obtain regs s h where w: "w = (regs, s, h)" by (cases w)
  let ?ip = "address_for_lookup f" and ?ms = "xu_modules u"
  show ?thesis
  proof (cases "module_set_unwind_info_error ?ms ?ip = None \<and> has_unwind_info ?ms ?ip")
    case False
    obtain r regs' s' where fb: "x86_64_fallback_unwind_frame rf (address f) regs s = (r, regs', s')"
      by (cases "x86_64_fallback_unwind_frame rf (address f) regs s")
    have "x86_64_regs_ok regs'" using x86_64_fallback_ok [OF fb] assms by (simp add: w x86_64_inv_def)
    moreover have "defined r" using x86_64_fallback_defined [of rf "address f" regs s] fb by simp
    ultimately show ?thesis
      using False fb assms
      by (cases r) (auto simp: w x86_64_unwind_frame_def x86_64_inv_def Let_def split: option.split)
  next
    case True
    let ?acc = "\<lparr>acc_oc = oc, acc_read_fn = rf, acc_access_reg = x86_64_access_reg\<rparr>"
    let ?ctx = "\<lparr>ctx_modules = ?ms, ctx_regs = x86_64_from_public ?ip regs, ctx_lookup_ip = ?ip,
      ctx_reader = s, ctx_last_failed_read_addr = None, ctx_unwind_info_error = None\<rparr>"
    obtain step ctx' h' where st:
      "init_and_step ?acc lu x86_64_reg_ip [x86_64_UNW_REG_SP, UNW_X86_64_RBP] (?ctx, h) =
        (step, (ctx', h'))"
      by (metis prod.exhaust)
    have "cb_inv ?ms ?ip (length h) (?ctx, h)"
      using assms by (simp add: w x86_64_inv_def cb_inv_def)
    from init_and_step_settles [OF this, of lu ?acc x86_64_reg_ip
        "[x86_64_UNW_REG_SP, UNW_X86_64_RBP]"] assms st
    have sett: "settles oc (cb_inv ?ms ?ip (length h)) (step, (ctx', h'))"
      by (simp add: w x86_64_inv_def)
    obtain r regs' where fin: "x86_64_finish_step ?ms f regs h' step
      (ctx_last_failed_read_addr ctx') (ctx_unwind_info_error ctx') = (r, regs')" by fastforce
    have "panic_only oc r \<and> (r = Panic \<longleftrightarrow> step = Panic) \<and> x86_64_regs_ok regs'"
      using x86_64_finish_step_settles [OF fin, of oc] sett assms
      by (simp add: w x86_64_inv_def settles_def)
    then show ?thesis
      using True st fin sett assms
      by (simp add: w x86_64_unwind_frame_def x86_64_inv_def settles_def cb_inv_def Let_def)
  qed
qed

interpretation x86_64: frame_unwinder "x86_64_ops oc lu rf u" "x86_64_inv lu u" oc
  for oc :: bool and lu :: "'c libunwind" and rf :: "'s reader_fn" and u :: unwinder_x86_64
  by unfold_locales (simp add: x86_64_ops_def x86_64_unwind_settles)

text \<open>Any behaviour of libunwind and of the reader, chosen anew at every call.\<close>

definition x86_64_any_ops :: "bool \<Rightarrow> 'c itself \<Rightarrow> unwinder_x86_64 \<Rightarrow> 's x86_64_world unwinder_ops set" where
  "x86_64_any_ops oc c u = {x86_64_ops oc lu rf u | (lu :: 'c libunwind) rf. lu_create_addr_space_ok lu}"

lemma x86_64_any_ops_unwinder:
  fixes c :: "'c itself" and ops :: "'s x86_64_world unwinder_ops"
  assumes "ops \<in> x86_64_any_ops oc c u"
  shows "frame_unwinder ops (x86_64_inv failing_lu u) oc"
proof -
  from assms obtain lu :: "'c libunwind" and rf where ops: "ops = x86_64_ops oc lu rf u" and "lu_create_addr_space_ok lu"
    unfolding x86_64_any_ops_def by blast
  then have "x86_64_inv failing_lu u = (x86_64_inv lu u :: 's x86_64_world \<Rightarrow> bool)"
    by (auto simp: x86_64_inv_def failing_lu_def sample_lu_def)
  then show ?thesis
    unfolding ops by unfold_locales (simp add: x86_64_ops_def x86_64_unwind_settles)
qed

lemma x86_64_session:
  assumes "x86_64_regs_ok regs" and "heap_ok h" and "module_set_wf h (xu_modules u)"
    and "mirrors_ok (xu_modules u)"
    and "reachable (x86_64_any_ops oc c u) (iter_frames pc (regs, s, h)) it"
    and "ops \<in> x86_64_any_ops oc c u"
  shows "panic_only oc (fst (iter_next ops it))"
    and "fst (iter_next ops it) = Ok (Some f) \<Longrightarrow> frame_ok f"
proof -
  note fu = x86_64_any_ops_unwinder [where c = c]
  have "iter_inv (x86_64_inv failing_lu u) (iter_frames pc (regs, s, h))"
    using assms(1-4) by (simp add: iter_inv_def iter_frames_def x86_64_inv_def failing_lu_def sample_lu_def)
  from reachable_inv [OF assms(5) fu this] have "iter_inv (x86_64_inv failing_lu u) it" by blast
  from frame_unwinder.next_settles [OF fu [OF assms(6)] this]
  show "panic_only oc (fst (iter_next ops it))" by (simp add: settles_def)
  show "frame_ok f" if "fst (iter_next ops it) = Ok (Some f)"
    using frame_unwinder.next_frame_ok [OF fu [OF assms(6)] that] .
qed

section \<open>Frame-pointer unwinding\<close>

lemma x86_64_unwind_bare:
  assumes "bare (xu_modules u) h (address_for_lookup f)"
  shows "x86_64_unwind_frame oc lu rf u f (regs, s, h) =
    (case x86_64_fallback_unwind_frame rf (address f) regs s of (r, regs, s) \<Rightarrow> (r, regs, s, h))"
  using assms by (simp add: x86_64_unwind_frame_def bare_def Let_def)

definition x86_64_fp_inv :: "cache_heap \<Rightarrow> 's x86_64_world \<Rightarrow> bool" where
  "x86_64_fp_inv h0 = (\<lambda>(regs, s, h). x86_64_regs_ok regs \<and> h = h0)"

interpretation x86_64_fp: fp_unwinder "x86_64_ops oc lu (mem_reader mem) u" "x86_64_fp_inv h"
  "\<lambda>f. bare (xu_modules u) h (address_for_lookup f)" mem id
  "\<lambda>w. x86_64_sp (fst w)" "\<lambda>w. x86_64_bp (fst w)"
  for oc :: bool and lu :: "'c libunwind" and mem and u and h
proof (unfold_locales, goal_cases)
  case (1 w f ra fp')
  then show ?case
    by (cases w) (auto simp: x86_64_fp_inv_def x86_64_ops_def x86_64_unwind_bare x86_64_fallback_frame)
next
  case (2 w f fp')
  then have "fst (x86_64_fallback_unwind_frame (mem_reader mem) (address f) (fst w) (fst (snd w))) =
      Ok None"
    by (auto simp: x86_64_fallback_frame) (simp add: x86_64_fallback_unwind_frame_def)
  with 2 show ?case
    by (cases w) (auto simp: x86_64_fp_inv_def x86_64_ops_def x86_64_unwind_bare split: prod.split)
next
  case (3 w f)
  then show ?case
    using x86_64_fallback_no_frame [of "fst w" mem "address f" "fst (snd w)"]
    by (cases w) (auto simp: x86_64_fp_inv_def x86_64_ops_def x86_64_unwind_bare)
next
  case (4 w f)
  then show ?case
    by (cases w) (simp add: x86_64_fp_inv_def x86_64_ops_def x86_64_is_signal_frame_def bare_def)
qed

text \<open>A registry without unwind information, and a reader bounded by the top of the stack.\<close>

definition x86_64_bare_inv ::
    "nat \<Rightarrow> 's reader_fn \<Rightarrow> unwinder_x86_64 \<Rightarrow> 's x86_64_world \<Rightarrow> bool" where
  "x86_64_bare_inv hi rf u = (\<lambda>(regs, s, h). x86_64_regs_ok regs \<and> reads_below hi rf \<and>
     (\<forall>a. bare (xu_modules u) h a))"

interpretation x86_64_bare: advancing_unwinder "x86_64_ops oc lu rf u" "x86_64_bare_inv hi rf u" False
  "\<lambda>w. fp_room hi (x86_64_bp (fst w))"
  for oc :: bool and lu :: "'c libunwind" and rf :: "'s reader_fn" and u :: unwinder_x86_64 and hi :: nat
proof (unfold_locales, goal_cases)
  case (1 f w)
  obtain regs s h where w: "w = (regs, s, h)" by (cases w)
  obtain r regs' s' where fb: "x86_64_fallback_unwind_frame rf (address f) regs s = (r, regs', s')"
    by (cases "x86_64_fallback_unwind_frame rf (address f) regs s")
  with 1 x86_64_fallback_ok [OF fb] x86_64_fallback_defined [of rf "address f" regs s] show ?case
    by (auto simp: w x86_64_ops_def x86_64_bare_inv_def x86_64_unwind_bare settles_def)
next
  case (2 f w ra w')
  obtain regs s h where w: "w = (regs, s, h)" by (cases w)
  obtain regs' s' where fb:
    "x86_64_fallback_unwind_frame rf (address f) regs s = (Ok (Some ra), regs', s')"
    and w': "w' = (regs', s', h)"
    using 2 by (auto simp: w x86_64_ops_def x86_64_bare_inv_def x86_64_unwind_bare split: prod.splits)
  from fb show ?case
    by (rule x86_64_fallback_Some)
      (use 2 reads_below_Some in \<open>force simp: w w' x86_64_bare_inv_def intro!: fp_room_less\<close>)
qed

section \<open>Branches of a step\<close>

text \<open>The three ways through \<open>unwind_frame\<close>.\<close>

text \<open>What a step with unwind information hands to \<open>init_and_step\<close>.\<close>

definition x86_64_acc :: "bool \<Rightarrow> 's reader_fn \<Rightarrow> (raw_regs_x86_64, 's) accessors" where
  "x86_64_acc oc rf = \<lparr>acc_oc = oc, acc_read_fn = rf, acc_access_reg = x86_64_access_reg\<rparr>"

definition x86_64_ctx ::
    "unwinder_x86_64 \<Rightarrow> frame_address \<Rightarrow> unwind_regs_x86_64 \<Rightarrow> 's \<Rightarrow> (raw_regs_x86_64, 's) unwind_ctx" where
  "x86_64_ctx u f regs s =
     \<lparr>ctx_modules = xu_modules u, ctx_regs = x86_64_from_public (address_for_lookup f) regs,
      ctx_lookup_ip = address_for_lookup f, ctx_reader = s, ctx_last_failed_read_addr = None,
      ctx_unwind_info_error = None\<rparr>"

lemma x86_64_unwind_frame_cases:
  fixes rf :: "'s reader_fn"
  assumes "x86_64_unwind_frame oc lu rf u f (regs, s, h) = (r, regs', s', h')"
  obtains (broken) err where
      "module_set_unwind_info_error (xu_modules u) (address_for_lookup f) = Some err"
      and "r = Err (UnwindInfo err)" and "regs' = regs"
  | (fallback) "module_set_unwind_info_error (xu_modules u) (address_for_lookup f) = None"
      and "\<not> has_unwind_info (xu_modules u) (address_for_lookup f)"
      and "x86_64_fallback_unwind_frame rf (address f) regs s = (r, regs', s')"
  | (stepped) step ctx' where
      "module_set_unwind_info_error (xu_modules u) (address_for_lookup f) = None"
      and "has_unwind_info (xu_modules u) (address_for_lookup f)"
      and "init_and_step (x86_64_acc oc rf) lu x86_64_reg_ip [x86_64_UNW_REG_SP, UNW_X86_64_RBP]
          (x86_64_ctx u f regs s, h) =
        (step, (ctx', h'))"
      and "x86_64_finish_step (xu_modules u) f regs h' step (ctx_last_failed_read_addr ctx')
        (ctx_unwind_info_error ctx') = (r, regs')"
proof (cases "module_set_unwind_info_error (xu_modules u) (address_for_lookup f)")
  case (Some err)
  with assms broken show ?thesis by (simp add: x86_64_unwind_frame_def)
next
  case None
  show ?thesis
  proof (cases "has_unwind_info (xu_modules u) (address_for_lookup f)")
    case False
    with None assms fallback show ?thesis
      by (auto simp: x86_64_unwind_frame_def Let_def split: prod.splits)
  next
    case True
    from assms None True show ?thesis
      by (auto simp: x86_64_unwind_frame_def x86_64_acc_def x86_64_ctx_def Let_def split: prod.splits intro: stepped)
  qed
qed

lemma x86_64_fallback_errors:
  assumes "fst (x86_64_fallback_unwind_frame rf ip regs s) = Err e"
  shows "e = IntegerOverflow \<or> e = FramepointerUnwindingMovedBackwards \<or>
    (\<exists>a. e = CouldNotReadStack a \<and> (\<exists>s'. fst (rf s' a) = None))"
  using assms
  by (auto simp: x86_64_fallback_unwind_frame_def Let_def split: if_splits option.splits prod.splits)
    (metis fst_conv option.distinct(1))+

lemma x86_64_finish_step_no_overflow:
  "fst (x86_64_finish_step ms f regs h step fr ie) \<noteq> Err IntegerOverflow"
  by (auto simp: x86_64_finish_step_def checked_add_u64_1 contains_address_top Let_def
      split: outcome.split step_outcome.split option.split if_splits)

lemma x86_64_unwind_broken:
  "module_set_unwind_info_error (xu_modules u) (address_for_lookup f) = Some err \<Longrightarrow>
     x86_64_unwind_frame oc lu rf u f (regs, s, h) = (Err (UnwindInfo err), regs, s, h)"
  by (simp add: x86_64_unwind_frame_def Let_def)

text \<open>The frame's unwind information is there, and the words, calls and lookups an error may name.\<close>

definition x86_64_error_ok ::
    "bool \<Rightarrow> 'c libunwind \<Rightarrow> 's reader_fn \<Rightarrow> unwinder_x86_64 \<Rightarrow> frame_address \<Rightarrow> 's x86_64_world \<Rightarrow> error \<Rightarrow> bool" where
  "x86_64_error_ok oc lu rf u f = (\<lambda>(regs, s, h).
     let ip = address_for_lookup f; info = has_unwind_info (xu_modules u) ip in
     error_source_ok info (step_unread rf (xu_modules u) info)
       (failed_at (x86_64_acc oc rf) lu x86_64_reg_ip [x86_64_UNW_REG_SP, UNW_X86_64_RBP]
         (x86_64_ctx u f regs s, h))
       (lookup_failed oc h (xu_modules u) ip))"

lemma x86_64_error_source:
  assumes "fst (x86_64_unwind_frame oc lu rf u f (regs, s, h)) = Err e"
    and "module_set_unwind_info_error (xu_modules u) (address_for_lookup f) = None"
  shows "x86_64_error_ok oc lu rf u f (regs, s, h) e"
proof -
  obtain regs' s' h' where "x86_64_unwind_frame oc lu rf u f (regs, s, h) = (Err e, regs', s', h')"
    using assms(1) by (metis prod.collapse)
  then show ?thesis
  proof (cases rule: x86_64_unwind_frame_cases)
    case fallback
    with x86_64_fallback_errors [of rf "address f" regs s e] show ?thesis
      by (auto simp: x86_64_error_ok_def error_source_ok_def step_unread_def)
  next
    case (stepped step ctx')
    let ?acc = "x86_64_acc oc rf" and ?st = "(x86_64_ctx u f regs s, h)"
    have "notes_true ?acc h (xu_modules u) (address_for_lookup f) ?st"
      by (simp add: notes_true_def x86_64_ctx_def)
    from init_and_step_notes [OF this, of lu x86_64_reg_ip "[x86_64_UNW_REG_SP, UNW_X86_64_RBP]"]
    have kept: "notes_true ?acc h (xu_modules u) (address_for_lookup f) (ctx', h')"
      by (simp add: stepped(3))
    have failed: "failed_at ?acc lu x86_64_reg_ip [x86_64_UNW_REG_SP, UNW_X86_64_RBP] ?st
        (lue_phase err) (lue_raw_status err)" if "step = Err err" for err
      using init_and_step_Err [of ?acc lu x86_64_reg_ip "[x86_64_UNW_REG_SP, UNW_X86_64_RBP]" ?st err]
        stepped(3) that by simp
    have "e \<noteq> IntegerOverflow"
      using x86_64_finish_step_no_overflow stepped(4) by (metis fst_conv)
    with stepped(2,4) kept failed show ?thesis
      by (auto simp: x86_64_error_ok_def error_source_ok_def step_unread_def notes_true_def unreadable_def
          x86_64_acc_def Let_def elim!: x86_64_finish_step_cases split: option.splits)
  qed (use assms in simp)
qed

section \<open>Sample registers\<close>

definition x86_64_sample_regs :: unwind_regs_x86_64 where
  "x86_64_sample_regs = x86_64_regs_new 0x401000 0x6ff0 0x7000"

lemma x86_64_sample_regs [simp]:
  "x86_64_regs_ok x86_64_sample_regs" "x86_64_sp x86_64_sample_regs = 0x6ff0"
  "x86_64_bp x86_64_sample_regs = 0x7000"
  by (simp_all add: x86_64_sample_regs_def x86_64_regs_new_def x86_64_set_sp_def x86_64_set_bp_def
      x86_64_set_def x86_64_regs_ok_def x86_64_sp_def x86_64_bp_def x86_64_get_def
      x86_64_reg_index_def)

lemma x86_64_sample_step:
  "x86_64_unwind_frame oc lu (mem_reader sample_stack) x86_64_unwinder_new
     (InstructionPointer 0x401000) (x86_64_sample_regs, (), []) =
   (Ok (Some 0x401234), x86_64_restored 0x401234 0x7010 0x7020 x86_64_sample_regs, (), [])"
  using x86_64_fallback_frame [of sample_stack x86_64_sample_regs "0x401234" "0x7020"
      "address (InstructionPointer 0x401000)" "()"] sample_frames(1)
  by (simp add: x86_64_unwind_bare bare_empty x86_64_unwinder_new_def)

section \<open>The accessor\<close>

lemma x86_64_access_public:
  assumes "x86_64_regs_ok regs"
  shows "x86_64_access_reg (x86_64_from_public ip regs) (int (x86_64_reg_index reg)) val 0 =
    (case x86_64_get_if_set regs reg of
       Some v \<Rightarrow> (UNW_ESUCCESS, v, x86_64_from_public ip regs)
     | None \<Rightarrow> (- UNW_EBADREG, val, x86_64_from_public ip regs))"
proof -
  have "int (x86_64_reg_index reg) \<noteq> UNW_X86_64_RIP" "int (x86_64_reg_index reg) < 16"
    by (cases reg; simp add: UNW_X86_64_RIP_def)+
  then show ?thesis
    by (simp add: x86_64_access_reg_def x86_64_from_public_def x86_64_get_if_set_iff x86_64_get_def
        and_bit_eq_0)
qed

lemma x86_64_access_read:
  "x86_64_access_reg raw m val 0 =
     (if m = 16 then (UNW_ESUCCESS, xraw_ip raw, raw)
      else if 0 \<le> m \<and> m < 16 \<and> bit (xraw_valid_regs raw) (nat m)
      then (UNW_ESUCCESS, xraw_regs raw ! nat m, raw) else (- UNW_EBADREG, val, raw))"
  by (simp add: x86_64_access_reg_def and_bit_eq_0 UNW_X86_64_RIP_def)

lemma x86_64_access_write_read:
  assumes "length (xraw_regs raw) = 16" and "0 \<le> n" and "n \<le> 16"
    and "x86_64_access_reg raw n v 1 = (status, v', raw')"
  shows "status = UNW_ESUCCESS \<and> x86_64_access_reg raw' m val 0 =
    (if m = n then (UNW_ESUCCESS, v, raw') else apsnd (apsnd (\<lambda>_. raw')) (x86_64_access_reg raw m val 0))"
proof (cases "n = 16")
  case True
  with assms(4) show ?thesis
    by (auto simp: x86_64_access_read) (auto simp: x86_64_access_reg_def UNW_X86_64_RIP_def)
next
  case False
  with assms(2-4) have "status = UNW_ESUCCESS"
    and raw': "raw' = raw\<lparr>xraw_regs := (xraw_regs raw)[nat n := v],
      xraw_valid_regs := xraw_valid_regs raw OR 2 ^ nat n\<rparr>"
    by (auto simp: x86_64_access_reg_def UNW_X86_64_RIP_def Let_def push_bit_of_1)
  moreover have "bit (xraw_valid_regs raw') k \<longleftrightarrow> bit (xraw_valid_regs raw) k \<or> k = nat n" for k
    using assms(2,3) False by (auto simp: raw' bit_or_iff bit_exp_iff)
  moreover have "nat m = nat n \<longleftrightarrow> m = n" if "0 \<le> m" using that assms(2) by auto
  ultimately show ?thesis
    using assms(1-3) False by (simp add: x86_64_access_read) (auto simp: raw' nth_list_update)
qed

section \<open>Properties\<close>

text \<open>C1: A whole unwinding session is safe.  However libunwind and the stack reader behave, and
  however often the caller has called \<open>next\<close> on an x86_64 iterator, the next call has no
  undefined behaviour, a release build does not panic, and a frame it returns satisfies the
  type invariant of \<open>FrameAddress\<close>.\<close>

theorem x86_64_session_safe:
  assumes "x86_64_regs_ok regs" and "heap_ok h" and "module_set_wf h (xu_modules u)"
    and "mirrors_ok (xu_modules u)"
    and "reachable (x86_64_any_ops oc c u) (iter_frames pc (regs, s, h)) it"
    and "ops \<in> x86_64_any_ops oc c u"
  shows "panic_only oc (fst (iter_next ops it)) \<and>
    (\<forall>f. fst (iter_next ops it) = Ok (Some f) \<longrightarrow> frame_ok f)"
  using x86_64_session [OF assms] by blast

theorem x86_64_session_safe_witness:
  "panic_only True (fst (iter_next (x86_64_ops True sample_lu (mem_reader sample_stack) \<lparr>xu_modules = sample_set\<rparr>)
     (iter_frames 0x1008 (x86_64_sample_regs, (), [Unlocked []]))))"
proof -
  let ?u = "\<lparr>xu_modules = sample_set\<rparr>"
  have "x86_64_ops True sample_lu (mem_reader sample_stack) ?u \<in> x86_64_any_ops True TYPE(u64) ?u"
    unfolding x86_64_any_ops_def by (auto simp: sample_lu_def)
  with x86_64_session_safe [OF x86_64_sample_regs(1) sample_heap_ok, of ?u True "TYPE(u64)" "0x1008" "()"]
    sample_set_wf sample_redirect_ends reachable.start
  show ?thesis by (fastforce simp: mirrors_ok_def)
qed

text \<open>C32: The register file.  Setting a register makes exactly that register readable with
  exactly that value; the accessor libunwind uses returns the registers that are set and
  refuses the others with \<open>UNW_EBADREG\<close>, so it can never read a register the caller did not
  supply; and a register written through the accessor reads back while the others keep
  theirs.\<close>

theorem x86_64_register_file:
  assumes "x86_64_regs_ok regs"
  shows "x86_64_regs_ok (x86_64_set reg v regs) \<and>
    x86_64_get_if_set (x86_64_set reg v regs) reg' =
      (if reg' = reg then Some v else x86_64_get_if_set regs reg') \<and>
    x86_64_access_reg (x86_64_from_public ip regs) (int (x86_64_reg_index reg)) val 0 =
      (case x86_64_get_if_set regs reg of
         Some v \<Rightarrow> (UNW_ESUCCESS, v, x86_64_from_public ip regs)
       | None \<Rightarrow> (- UNW_EBADREG, val, x86_64_from_public ip regs)) \<and>
    (\<forall>n status v' raw' m. 0 \<le> n \<and> n \<le> 16 \<and>
       x86_64_access_reg (x86_64_from_public ip regs) n v 1 = (status, v', raw') \<longrightarrow>
       status = UNW_ESUCCESS \<and> x86_64_access_reg raw' m val 0 =
         (if m = n then (UNW_ESUCCESS, v, raw')
          else apsnd (apsnd (\<lambda>_. raw')) (x86_64_access_reg (x86_64_from_public ip regs) m val 0)))"
proof (intro conjI allI impI)
  fix n status v' raw' m
  assume "0 \<le> n \<and> n \<le> 16 \<and> x86_64_access_reg (x86_64_from_public ip regs) n v 1 = (status, v', raw')"
  then show "status = UNW_ESUCCESS" and "x86_64_access_reg raw' m val 0 =
      (if m = n then (UNW_ESUCCESS, v, raw')
       else apsnd (apsnd (\<lambda>_. raw')) (x86_64_access_reg (x86_64_from_public ip regs) m val 0))"
    using x86_64_access_write_read [of "x86_64_from_public ip regs" n v status v' raw' m val] assms
    by (simp_all add: x86_64_from_public_def x86_64_regs_ok_def)
qed (simp_all add: assms x86_64_get_if_set_set x86_64_access_public)

theorem x86_64_register_file_witness:
  "x86_64_get_if_set (x86_64_set RBX 5 (x86_64_regs_new 1 2 3)) RBX = Some 5 \<and>
   fst (x86_64_access_reg (x86_64_from_public 9 (x86_64_regs_new 1 2 3)) 3 0 0) = - UNW_EBADREG"
  using x86_64_register_file [of "x86_64_regs_new 1 2 3" RBX 5 RBX 9 0, THEN conjunct2]
  by (simp add: x86_64_regs_new_def x86_64_set_sp_def x86_64_set_bp_def x86_64_regs_ok_def
      x86_64_set_def x86_64_get_if_set_def x86_64_valid_reg_bit_def)

text \<open>C18: What a step does to the registers.  A recovered frame has a return address that is
  not null, puts it into the instruction pointer, has moved (its address or its stack pointer
  differs from the frame before), and leaves exactly the stack and the frame pointer readable;
  the caller's other registers are no longer handed to libunwind.  Any other outcome leaves
  the registers as they were.\<close>

theorem x86_64_unwind_frame_contract:
  assumes "x86_64_regs_ok regs"
    and "x86_64_unwind_frame oc lu rf u f (regs, s, h) = (r, regs', s', h')"
  shows "(\<forall>ra. r = Ok (Some ra) \<longrightarrow>
      ra \<noteq> 0 \<and> x86_64_ip regs' = ra \<and> (ra \<noteq> address f \<or> x86_64_sp regs' \<noteq> x86_64_sp regs) \<and>
      (\<forall>reg. x86_64_get_if_set regs' reg \<noteq> None \<longleftrightarrow> reg = RSP \<or> reg = RBP)) \<and>
    (r = Ok None \<or> (\<exists>e. r = Err e) \<longrightarrow> regs' = regs)"
proof -
  have restored: "x86_64_get_if_set (x86_64_restored ip sp bp regs) reg \<noteq> None \<longleftrightarrow>
      reg = RSP \<or> reg = RBP" for ip sp bp reg
    unfolding x86_64_get_if_set_def x86_64_restored_simps
    by (cases reg) (simp_all add: x86_64_valid_reg_bit_def)
  from assms(2) show ?thesis
  proof (cases rule: x86_64_unwind_frame_cases)
    case broken
    then show ?thesis by simp
  next
    case fallback
    show ?thesis
    proof (cases "\<exists>ra. r = Ok (Some ra)")
      case True
      then obtain ra where r: "r = Ok (Some ra)" ..
      from fallback(3) [unfolded r] show ?thesis
        by (rule x86_64_fallback_Some) (use assms(1) restored in \<open>auto simp: r x86_64_ip_def\<close>)
    next
      case False
      with x86_64_fallback_keeps_regs [OF fallback(3)] show ?thesis by auto
    qed
  next
    case (stepped step ctx')
    from stepped(4) show ?thesis
    proof (cases rule: x86_64_finish_step_cases)
      case (advanced new_ip extras ip)
      then have "ip \<noteq> 0" by (auto simp: eq_neg_iff_add_eq_0)
      with advanced assms(1) restored show ?thesis by (auto simp: x86_64_ip_def)
    qed auto
  qed
qed

theorem x86_64_unwind_frame_contract_witness:
  "\<exists>regs' s' h'. x86_64_unwind_frame True sample_lu (mem_reader sample_stack) x86_64_unwinder_new
     (InstructionPointer 0x401000) (x86_64_sample_regs, (), []) = (Ok (Some 0x401234), regs', s', h') \<and>
   x86_64_ip regs' = 0x401234 \<and> x86_64_get_if_set regs' RAX = None"
  using x86_64_unwind_frame_contract [OF x86_64_sample_regs(1) x86_64_sample_step
      [of True sample_lu]]
  unfolding x86_64_sample_step by auto

end
