(* ===== verification/Aarch64.thy ===== *)
theory Aarch64
  imports Frame_Pointer
begin

text \<open>
  \<open>aarch64.rs\<close>: pointer-authentication masks, the register file and its accessor (the
  \<open>arch\<close> module at the end of \<open>callbacks.rs\<close>), the frame-pointer fallback and
  \<open>unwind_frame\<close>.  A signed return address carries authentication bits above the address
  bits; the mask kept with the registers removes them wherever an address is looked up or
  returned.
\<close>

section \<open>Pointer-authentication masks\<close>

text \<open>\<open>u64::leading_zeros\<close>, through the number of significant bits.\<close>

fun bit_length :: "nat \<Rightarrow> nat" where
  "bit_length n = (if n = 0 then 0 else Suc (bit_length (n div 2)))"

declare bit_length.simps [simp del]

definition leading_zeros :: "u64 \<Rightarrow> nat" where
  "leading_zeros x = 64 - bit_length (unat x)"

datatype ptr_auth_mask = PtrAuthMask (mask_bits: u64)

definition new_no_strip :: ptr_auth_mask where
  "new_no_strip = PtrAuthMask (- 1)"

definition new_24_40 :: ptr_auth_mask where
  "new_24_40 = PtrAuthMask (drop_bit 24 (- 1))"

definition from_max_known_address :: "u64 \<Rightarrow> ptr_auth_mask" where
  "from_max_known_address addr =
     (if addr = 0 then new_no_strip else PtrAuthMask (drop_bit (leading_zeros addr) (- 1)))"

definition strip_ptr_auth :: "ptr_auth_mask \<Rightarrow> u64 \<Rightarrow> u64" where
  "strip_ptr_auth m addr = addr AND mask_bits m"

section \<open>Registers\<close>

record raw_regs_aarch64 =
  araw_pc :: u64
  araw_sp :: u64
  araw_fp :: u64
  araw_lr :: u64

record unwind_regs_aarch64 =
  ar_lr_mask :: ptr_auth_mask
  ar_lr :: u64
  ar_sp :: u64
  ar_fp :: u64

definition aarch64_regs_new_with_mask :: "ptr_auth_mask \<Rightarrow> u64 \<Rightarrow> u64 \<Rightarrow> u64 \<Rightarrow> unwind_regs_aarch64" where
  "aarch64_regs_new_with_mask m lr sp fp =
     \<lparr>ar_lr_mask = m, ar_lr = strip_ptr_auth m lr, ar_sp = sp, ar_fp = fp\<rparr>"

definition aarch64_regs_new :: "u64 \<Rightarrow> u64 \<Rightarrow> u64 \<Rightarrow> unwind_regs_aarch64" where
  "aarch64_regs_new lr sp fp = aarch64_regs_new_with_mask new_no_strip lr sp fp"

definition aarch64_lr_mask :: "unwind_regs_aarch64 \<Rightarrow> ptr_auth_mask" where
  "aarch64_lr_mask regs = ar_lr_mask regs"

definition aarch64_ptr_auth_mask :: "unwind_regs_aarch64 \<Rightarrow> ptr_auth_mask" where
  "aarch64_ptr_auth_mask regs = aarch64_lr_mask regs"

definition aarch64_lr :: "unwind_regs_aarch64 \<Rightarrow> u64" where
  "aarch64_lr regs = ar_lr regs"

definition aarch64_set_lr :: "u64 \<Rightarrow> unwind_regs_aarch64 \<Rightarrow> unwind_regs_aarch64" where
  "aarch64_set_lr lr regs = regs\<lparr>ar_lr := strip_ptr_auth (ar_lr_mask regs) lr\<rparr>"

definition aarch64_sp :: "unwind_regs_aarch64 \<Rightarrow> u64" where
  "aarch64_sp regs = ar_sp regs"

definition aarch64_set_sp :: "u64 \<Rightarrow> unwind_regs_aarch64 \<Rightarrow> unwind_regs_aarch64" where
  "aarch64_set_sp sp regs = regs\<lparr>ar_sp := sp\<rparr>"

definition aarch64_fp :: "unwind_regs_aarch64 \<Rightarrow> u64" where
  "aarch64_fp regs = ar_fp regs"

definition aarch64_set_fp :: "u64 \<Rightarrow> unwind_regs_aarch64 \<Rightarrow> unwind_regs_aarch64" where
  "aarch64_set_fp fp regs = regs\<lparr>ar_fp := fp\<rparr>"

text \<open>Status, the word behind \<open>val\<close> and the registers.\<close>

definition aarch64_access_reg ::
    "raw_regs_aarch64 \<Rightarrow> i32 \<Rightarrow> u64 \<Rightarrow> i32 \<Rightarrow> i32 \<times> u64 \<times> raw_regs_aarch64" where
  "aarch64_access_reg raw reg val wr =
     (if reg = UNW_AARCH64_PC then
        (if wr \<noteq> 0 then (UNW_ESUCCESS, val, raw\<lparr>araw_pc := val\<rparr>) else (UNW_ESUCCESS, araw_pc raw, raw))
      else if reg = UNW_AARCH64_SP then
        (if wr \<noteq> 0 then (UNW_ESUCCESS, val, raw\<lparr>araw_sp := val\<rparr>) else (UNW_ESUCCESS, araw_sp raw, raw))
      else if reg = UNW_AARCH64_X29 then
        (if wr \<noteq> 0 then (UNW_ESUCCESS, val, raw\<lparr>araw_fp := val\<rparr>) else (UNW_ESUCCESS, araw_fp raw, raw))
      else if reg = UNW_AARCH64_X30 then
        (if wr \<noteq> 0 then (UNW_ESUCCESS, val, raw\<lparr>araw_lr := val\<rparr>) else (UNW_ESUCCESS, araw_lr raw, raw))
      else (- UNW_EBADREG, val, raw))"

section \<open>The unwinder\<close>

record unwinder_aarch64 =
  au_modules :: module_set

definition aarch64_unwinder_new :: unwinder_aarch64 where
  "aarch64_unwinder_new = \<lparr>au_modules = module_set_new\<rparr>"

definition aarch64_unwinder_clone :: "unwinder_aarch64 \<Rightarrow> unwinder_aarch64" where
  "aarch64_unwinder_clone u = \<lparr>au_modules = module_set_clone (au_modules u)\<rparr>"

definition aarch64_add_module :: "unwinder_aarch64 \<Rightarrow> module_data \<Rightarrow> unwinder_aarch64" where
  "aarch64_add_module u data = u\<lparr>au_modules := module_set_add (au_modules u) data\<rparr>"

definition aarch64_remove_module :: "unwinder_aarch64 \<Rightarrow> u64 \<Rightarrow> unwinder_aarch64" where
  "aarch64_remove_module u avma_start = u\<lparr>au_modules := module_set_remove (au_modules u) avma_start\<rparr>"

definition aarch64_max_known_code_address :: "unwinder_aarch64 \<Rightarrow> u64" where
  "aarch64_max_known_code_address u = max_known_code_address (au_modules u)"

type_synonym 's aarch64_world = "unwind_regs_aarch64 \<times> 's \<times> cache_heap"

definition aarch64_is_signal_frame ::
    "unwinder_aarch64 \<Rightarrow> frame_address \<Rightarrow> 's aarch64_world \<Rightarrow> bool" where
  "aarch64_is_signal_frame u frame = (\<lambda>(regs, s, h).
     module_set_is_signal_frame h (au_modules u)
       (strip_ptr_auth (ar_lr_mask regs) (address_for_lookup frame)))"

definition aarch64_fallback_unwind_frame ::
    "'s reader_fn \<Rightarrow> u64 \<Rightarrow> unwind_regs_aarch64 \<Rightarrow> 's \<Rightarrow>
     (u64 option, error) outcome \<times> unwind_regs_aarch64 \<times> 's" where
  "aarch64_fallback_unwind_frame read_stack current_ip regs s =
     (let sp = aarch64_sp regs; fp = aarch64_fp regs in
      if fp = 0 then (Ok None, regs, s)
      else case checked_add_u64 fp 8 of None \<Rightarrow> (Err IntegerOverflow, regs, s)
      | Some return_address_location \<Rightarrow>
      (case checked_add_u64 fp 16 of None \<Rightarrow> (Err IntegerOverflow, regs, s)
      | Some new_sp \<Rightarrow>
      if new_sp \<le> sp then (Err FramepointerUnwindingMovedBackwards, regs, s)
      else case read_stack s fp of (None, s) \<Rightarrow> (Err (CouldNotReadStack fp), regs, s)
      | (Some new_fp, s) \<Rightarrow>
      if new_fp \<noteq> 0 \<and> new_fp \<le> fp then (Err FramepointerUnwindingMovedBackwards, regs, s)
      else case read_stack s return_address_location of
        (None, s) \<Rightarrow> (Err (CouldNotReadStack return_address_location), regs, s)
      | (Some new_lr, s) \<Rightarrow>
      let return_address = strip_ptr_auth (aarch64_lr_mask regs) new_lr in
      if return_address = 0 then (Ok None, regs, s)
      else if return_address = current_ip \<and> new_sp = sp then (Err DidNotAdvance, regs, s)
      else
        (Ok (Some return_address),
         aarch64_set_fp new_fp (aarch64_set_sp new_sp (aarch64_set_lr new_lr regs)), s)))"

text \<open>The \<open>match\<close> on the outcome of the step; \<open>h\<close> is the heap after the step.\<close>

definition aarch64_finish_step ::
    "module_set \<Rightarrow> frame_address \<Rightarrow> unwind_regs_aarch64 \<Rightarrow> cache_heap \<Rightarrow>
     (step_outcome, libunwind_error) outcome \<Rightarrow> u64 option \<Rightarrow> unwind_info_error option \<Rightarrow>
     (u64 option, error) outcome \<times> unwind_regs_aarch64" where
  "aarch64_finish_step modules frame regs h step failed_read info_error =
     (let current_ip = strip_ptr_auth (ar_lr_mask regs) (address frame);
          lookup_ip = strip_ptr_auth (ar_lr_mask regs) (address_for_lookup frame) in
      case step of
        Ok EndOfStack \<Rightarrow> (Ok None, regs)
      | Ok (Stepped new_ip extras) \<Rightarrow>
          let new_sp = extras ! 0; new_fp = extras ! 1; new_lr = extras ! 2;
              return_address = strip_ptr_auth (ar_lr_mask regs) new_ip in
          if return_address = 0 then (Ok None, regs)
          else
            let signal_frame = module_set_is_signal_frame h modules lookup_ip in
            (case (if is_return_address frame \<and> \<not> signal_frame \<and> contains_address modules return_address
                   then checked_add_u64 return_address 1 else Some return_address) of
               None \<Rightarrow> (Err IntegerOverflow, regs)
             | Some return_address \<Rightarrow>
                 if return_address = current_ip \<and> new_sp = ar_sp regs then (Err DidNotAdvance, regs)
                 else
                   (Ok (Some return_address),
                    aarch64_set_lr new_lr (aarch64_set_fp new_fp (aarch64_set_sp new_sp regs))))
      | Err err \<Rightarrow>
          (case (failed_read, info_error) of
             (Some addr, _) \<Rightarrow> (Err (CouldNotReadStack addr), regs)
           | (None, Some e) \<Rightarrow> (Err (UnwindInfo e), regs)
           | (None, None) \<Rightarrow> (Err (Libunwind err), regs))
      | Panic \<Rightarrow> (Panic, regs)
      | UB \<Rightarrow> (UB, regs))"

definition aarch64_unwind_frame ::
    "bool \<Rightarrow> 'c libunwind \<Rightarrow> 's reader_fn \<Rightarrow> unwinder_aarch64 \<Rightarrow> frame_address \<Rightarrow> 's aarch64_world \<Rightarrow>
     (u64 option, error) outcome \<times> 's aarch64_world" where
  "aarch64_unwind_frame oc lu read_stack u frame = (\<lambda>(regs, s, h).
     let current_ip = strip_ptr_auth (ar_lr_mask regs) (address frame);
         lookup_ip = strip_ptr_auth (ar_lr_mask regs) (address_for_lookup frame) in
     case module_set_unwind_info_error (au_modules u) lookup_ip of
       Some err \<Rightarrow> (Err (UnwindInfo err), regs, s, h)
     | None \<Rightarrow>
       if \<not> has_unwind_info (au_modules u) lookup_ip then
         (case aarch64_fallback_unwind_frame read_stack current_ip regs s of
            (r, regs, s) \<Rightarrow> (r, regs, s, h))
       else
         let raw = \<lparr>araw_pc = lookup_ip, araw_sp = ar_sp regs, araw_fp = ar_fp regs, araw_lr = ar_lr regs\<rparr>;
             acc = \<lparr>acc_oc = oc, acc_read_fn = read_stack, acc_access_reg = aarch64_access_reg\<rparr>;
             ctx = \<lparr>ctx_modules = au_modules u, ctx_regs = raw, ctx_lookup_ip = lookup_ip,
                    ctx_reader = s, ctx_last_failed_read_addr = None, ctx_unwind_info_error = None\<rparr> in
         (case init_and_step acc lu aarch64_reg_ip
                 [aarch64_UNW_REG_SP, UNW_AARCH64_X29, UNW_AARCH64_X30] (ctx, h) of
            (step, (ctx, h)) \<Rightarrow>
              (case aarch64_finish_step (au_modules u) frame regs h step
                      (ctx_last_failed_read_addr ctx) (ctx_unwind_info_error ctx) of
                 (r, regs) \<Rightarrow> (r, regs, ctx_reader ctx, h))))"

definition aarch64_ops ::
    "bool \<Rightarrow> 'c libunwind \<Rightarrow> 's reader_fn \<Rightarrow> unwinder_aarch64 \<Rightarrow> 's aarch64_world unwinder_ops" where
  "aarch64_ops oc lu read_stack u =
     \<lparr>uw_unwind_frame = aarch64_unwind_frame oc lu read_stack u,
      uw_is_signal_frame = aarch64_is_signal_frame u\<rparr>"

section \<open>Masks\<close>

lemma less_bit_length: "n < 2 ^ bit_length n"
proof (induction n rule: bit_length.induct)
  case (1 n)
  show ?case
  proof (cases "n = 0")
    case False
    with 1 have "n div 2 < 2 ^ bit_length (n div 2)" by blast
    with False show ?thesis by (subst bit_length.simps) simp
  qed simp
qed

lemma bit_length_le: "n < 2 ^ k \<Longrightarrow> bit_length n \<le> k"
proof (induction n arbitrary: k rule: bit_length.induct)
  case (1 n)
  show ?case
  proof (cases "n = 0")
    case True
    then show ?thesis by (simp add: bit_length.simps)
  next
    case False
    with "1.prems" obtain j where k: "k = Suc j" by (cases k) auto
    with "1.prems" have "n div 2 < 2 ^ j" by auto
    with "1.IH" [OF False] k False show ?thesis by (subst bit_length.simps) simp
  qed
qed

lemma max_mask: "(- 1 :: u64) = mask 64"
  by (simp add: mask_eq_exp_minus_1)

lemma strip_max_known:
  assumes "addr \<noteq> 0"
  shows "strip_ptr_auth (from_max_known_address addr) a = take_bit (bit_length (unat addr)) a"
proof -
  have "bit_length (unat addr) \<le> 64" using bit_length_le [of "unat addr" 64] by simp
  then have "drop_bit (leading_zeros addr) (- 1 :: u64) = mask (bit_length (unat addr))"
    unfolding max_mask leading_zeros_def by (intro bit_word_eqI) (auto simp: bit_simps)
  with assms show ?thesis
    by (simp add: strip_ptr_auth_def from_max_known_address_def take_bit_eq_mask)
qed

lemma strip_idem [simp]: "strip_ptr_auth m (strip_ptr_auth m a) = strip_ptr_auth m a"
  by (simp add: strip_ptr_auth_def and.assoc)

section \<open>Restored registers and the fallback\<close>

lemma aarch64_setters [simp]:
  "ar_lr_mask (aarch64_set_lr v regs) = ar_lr_mask regs" "ar_sp (aarch64_set_lr v regs) = ar_sp regs"
  "ar_fp (aarch64_set_lr v regs) = ar_fp regs"
  "ar_lr (aarch64_set_lr v regs) = strip_ptr_auth (ar_lr_mask regs) v"
  "ar_lr_mask (aarch64_set_sp v regs) = ar_lr_mask regs" "ar_sp (aarch64_set_sp v regs) = v"
  "ar_fp (aarch64_set_sp v regs) = ar_fp regs" "ar_lr (aarch64_set_sp v regs) = ar_lr regs"
  "ar_lr_mask (aarch64_set_fp v regs) = ar_lr_mask regs" "ar_sp (aarch64_set_fp v regs) = ar_sp regs"
  "ar_fp (aarch64_set_fp v regs) = v" "ar_lr (aarch64_set_fp v regs) = ar_lr regs"
  by (simp_all add: aarch64_set_lr_def aarch64_set_sp_def aarch64_set_fp_def)

text \<open>The link register never carries authentication bits.\<close>

definition aarch64_regs_ok :: "unwind_regs_aarch64 \<Rightarrow> bool" where
  "aarch64_regs_ok regs \<longleftrightarrow> strip_ptr_auth (ar_lr_mask regs) (ar_lr regs) = ar_lr regs"

abbreviation aarch64_strip :: "unwind_regs_aarch64 \<Rightarrow> u64 \<Rightarrow> u64" where
  "aarch64_strip regs \<equiv> strip_ptr_auth (ar_lr_mask regs)"

lemma aarch64_fallback_defined: "defined (fst (aarch64_fallback_unwind_frame rf ip regs s))"
  by (simp add: aarch64_fallback_unwind_frame_def Let_def split: option.split prod.split)

lemma aarch64_fallback_Some:
  assumes "aarch64_fallback_unwind_frame rf ip regs s = (Ok (Some ra), regs', s')"
  obtains new_fp new_lr s1 where "ar_fp regs \<noteq> 0" and "unat (ar_fp regs) + 16 < usize_limit"
    and "ar_sp regs < ar_fp regs + 16"
    and "rf s (ar_fp regs) = (Some new_fp, s1)" and "new_fp = 0 \<or> ar_fp regs < new_fp"
    and "rf s1 (ar_fp regs + 8) = (Some new_lr, s')" and "ra = aarch64_strip regs new_lr" and "ra \<noteq> 0"
    and "regs' = aarch64_set_fp new_fp (aarch64_set_sp (ar_fp regs + 16) (aarch64_set_lr new_lr regs))"
  using assms
  by (auto simp: aarch64_fallback_unwind_frame_def Let_def checked_add_u64_def not_le aarch64_sp_def
      aarch64_fp_def aarch64_lr_mask_def split: if_splits option.splits prod.splits)

lemma aarch64_fallback_keeps_regs:
  "aarch64_fallback_unwind_frame rf ip regs s = (r, regs', s') \<Longrightarrow> \<nexists>ra. r = Ok (Some ra) \<Longrightarrow> regs' = regs"
  by (auto simp: aarch64_fallback_unwind_frame_def Let_def split: if_splits option.splits prod.splits)

lemma aarch64_fallback_ok:
  assumes "aarch64_fallback_unwind_frame rf ip regs s = (r, regs', s')"
  shows "ar_lr_mask regs' = ar_lr_mask regs" and "aarch64_regs_ok regs \<Longrightarrow> aarch64_regs_ok regs'"
proof -
  have "ar_lr_mask regs' = ar_lr_mask regs \<and> (aarch64_regs_ok regs \<longrightarrow> aarch64_regs_ok regs')"
  proof (cases "\<exists>ra. r = Ok (Some ra)")
    case True
    then obtain ra where "r = Ok (Some ra)" ..
    with assms have "aarch64_fallback_unwind_frame rf ip regs s = (Ok (Some ra), regs', s')" by simp
    then show ?thesis by (rule aarch64_fallback_Some) (simp add: aarch64_regs_ok_def)
  next
    case False
    with aarch64_fallback_keeps_regs [OF assms] show ?thesis by simp
  qed
  then show "ar_lr_mask regs' = ar_lr_mask regs" and "aarch64_regs_ok regs \<Longrightarrow> aarch64_regs_ok regs'"
    by blast+
qed

lemma aarch64_fallback_frame:
  assumes "fp_frame mem (aarch64_strip regs) (ar_sp regs) (ar_fp regs) ra fp'"
  shows "\<exists>lr. aarch64_fallback_unwind_frame (mem_reader mem) ip regs s =
    (if ra = 0 then (Ok None, regs, s)
     else (Ok (Some ra), aarch64_set_fp fp' (aarch64_set_sp (ar_fp regs + 16) (aarch64_set_lr lr regs)), s))"
  using assms
  by (auto simp: aarch64_fallback_unwind_frame_def fp_frame_def mem_reader_def checked_add_u64_def
      aarch64_sp_def aarch64_fp_def aarch64_lr_mask_def Let_def not_le)

lemma aarch64_fallback_outermost:
  "ar_fp regs = 0 \<Longrightarrow> aarch64_fallback_unwind_frame rf ip regs s = (Ok None, regs, s)"
  by (simp add: aarch64_fallback_unwind_frame_def aarch64_fp_def)

lemma aarch64_fallback_no_frame:
  assumes "ar_fp regs \<noteq> 0"
    and "\<nexists>ra fp'. fp_frame mem (aarch64_strip regs) (ar_sp regs) (ar_fp regs) ra fp'"
  shows "\<exists>e. aarch64_fallback_unwind_frame (mem_reader mem) ip regs s = (Err e, regs, s)"
  using assms
  by (auto simp: aarch64_fallback_unwind_frame_def fp_frame_def mem_reader_def checked_add_u64_def
      aarch64_sp_def aarch64_fp_def aarch64_lr_mask_def Let_def not_le split: option.split)

section \<open>The contract of the iterator's unwinder\<close>

definition aarch64_inv :: "'c libunwind \<Rightarrow> unwinder_aarch64 \<Rightarrow> 's aarch64_world \<Rightarrow> bool" where
  "aarch64_inv lu u = (\<lambda>(regs, s, h). aarch64_regs_ok regs \<and> lu_create_addr_space_ok lu \<and>
     heap_ok h \<and> module_set_wf h (au_modules u) \<and> mirrors_ok (au_modules u))"

lemma aarch64_finish_step_cases:
  assumes "aarch64_finish_step ms f regs h step fr ie = (r, regs')"
  obtains (panic) "step = Panic" and "r = Panic" | (ub) "step = UB" and "r = UB"
  | (failed) err where "step = Err err" and "regs' = regs"
      and "r = Err (case fr of Some a \<Rightarrow> CouldNotReadStack a
             | None \<Rightarrow> (case ie of Some e \<Rightarrow> UnwindInfo e | None \<Rightarrow> Libunwind err))"
  | (stopped) "r = Ok None" and "regs' = regs"
      and "step = Ok EndOfStack \<or> (\<exists>new_ip extras. step = Ok (Stepped new_ip extras) \<and>
             aarch64_strip regs new_ip = 0)"
  | (stuck) new_ip extras where "step = Ok (Stepped new_ip extras)" and "regs' = regs"
      and "r = Err IntegerOverflow \<and> aarch64_strip regs new_ip = - 1 \<or> r = Err DidNotAdvance"
  | (advanced) new_ip extras ip where "step = Ok (Stepped new_ip extras)" and "r = Ok (Some ip)"
      and "ip = aarch64_strip regs new_ip \<or>
           ip = aarch64_strip regs new_ip + 1 \<and> aarch64_strip regs new_ip \<noteq> - 1"
      and "aarch64_strip regs new_ip \<noteq> 0"
      and "ip \<noteq> aarch64_strip regs (address f) \<or> extras ! 0 \<noteq> ar_sp regs"
      and "regs' = aarch64_set_lr (extras ! 2) (aarch64_set_fp (extras ! 1) (aarch64_set_sp (extras ! 0) regs))"
proof (cases step)
  case (Ok st)
  show ?thesis
  proof (cases st)
    case (Stepped new_ip extras)
    let ?ra = "aarch64_strip regs new_ip"
    let ?bump = "if is_return_address f \<and>
        \<not> module_set_is_signal_frame h ms (aarch64_strip regs (address_for_lookup f)) \<and>
        contains_address ms ?ra
      then checked_add_u64 ?ra 1 else Some ?ra"
    note def = assms [unfolded aarch64_finish_step_def Ok Stepped Let_def outcome.case step_outcome.case]
    consider (zero) "?ra = 0" | (over) "?ra \<noteq> 0" "?bump = None"
      | (go) ip where "?ra \<noteq> 0" "?bump = Some ip" by (cases ?bump) auto
    then show ?thesis
    proof cases
      case zero
      with def Ok Stepped stopped show ?thesis by simp
    next
      case over
      then have "?ra = - 1" by (simp add: checked_add_u64_1 split: if_splits)
      with def over stuck [OF Ok [unfolded Stepped]] show ?thesis by simp
    next
      case go
      then have ip: "ip = ?ra \<or> ip = ?ra + 1 \<and> ?ra \<noteq> - 1"
        by (auto simp: checked_add_u64_1 split: if_splits)
      show ?thesis
      proof (cases "ip = aarch64_strip regs (address f) \<and> extras ! 0 = ar_sp regs")
        case True
        with def go stuck [OF Ok [unfolded Stepped]] show ?thesis by simp
      next
        case False
        with def go have "r = Ok (Some ip)" "regs' = aarch64_set_lr (extras ! 2)
            (aarch64_set_fp (extras ! 1) (aarch64_set_sp (extras ! 0) regs))"
          by auto
        with advanced [OF Ok [unfolded Stepped] _ ip go(1)] False show ?thesis by simp
      qed
    qed
  qed (use assms Ok stopped in \<open>simp add: aarch64_finish_step_def\<close>)
qed (use assms panic ub failed in \<open>auto simp: aarch64_finish_step_def Let_def split: option.splits\<close>)

lemma aarch64_finish_step_settles:
  assumes "aarch64_finish_step ms f regs h step fr ie = (r, regs')" and "panic_only b step"
    and "aarch64_regs_ok regs"
  shows "panic_only b r \<and> (r = Panic \<longleftrightarrow> step = Panic) \<and> aarch64_regs_ok regs'"
  using assms(1)
  by (cases rule: aarch64_finish_step_cases)
    (use assms in \<open>auto simp: aarch64_finish_step_def aarch64_regs_ok_def\<close>)

lemma aarch64_unwind_settles:
  assumes "aarch64_inv lu u w"
  shows "settles oc (aarch64_inv lu u) (aarch64_unwind_frame oc lu rf u f w)"
proof -
  obtain regs s h where w: "w = (regs, s, h)" by (cases w)
  let ?ip = "aarch64_strip regs (address_for_lookup f)" and ?ms = "au_modules u"
  let ?cur = "aarch64_strip regs (address f)"
  show ?thesis
  proof (cases "module_set_unwind_info_error ?ms ?ip = None \<and> has_unwind_info ?ms ?ip")
    case False
    obtain r regs' s' where fb: "aarch64_fallback_unwind_frame rf ?cur regs s = (r, regs', s')"
      by (cases "aarch64_fallback_unwind_frame rf ?cur regs s")
    have "aarch64_regs_ok regs'"
      using aarch64_fallback_ok(2) [OF fb] assms by (simp add: w aarch64_inv_def)
    moreover have "defined r" using aarch64_fallback_defined [of rf ?cur regs s] fb by simp
    ultimately show ?thesis
      using False fb assms
      by (cases r) (auto simp: w aarch64_unwind_frame_def aarch64_inv_def Let_def split: option.split)
  next
    case True
    let ?acc = "\<lparr>acc_oc = oc, acc_read_fn = rf, acc_access_reg = aarch64_access_reg\<rparr>"
    let ?raw = "\<lparr>araw_pc = ?ip, araw_sp = ar_sp regs, araw_fp = ar_fp regs, araw_lr = ar_lr regs\<rparr>"
    let ?ctx = "\<lparr>ctx_modules = ?ms, ctx_regs = ?raw, ctx_lookup_ip = ?ip,
      ctx_reader = s, ctx_last_failed_read_addr = None, ctx_unwind_info_error = None\<rparr>"
    let ?extra = "[aarch64_UNW_REG_SP, UNW_AARCH64_X29, UNW_AARCH64_X30]"
    obtain step ctx' h' where st:
      "init_and_step ?acc lu aarch64_reg_ip ?extra (?ctx, h) = (step, (ctx', h'))"
      by (metis prod.exhaust)
    have "cb_inv ?ms ?ip (length h) (?ctx, h)"
      using assms by (simp add: w aarch64_inv_def cb_inv_def)
    from init_and_step_settles [OF this, of lu ?acc aarch64_reg_ip ?extra] assms st
    have sett: "settles oc (cb_inv ?ms ?ip (length h)) (step, (ctx', h'))"
      by (simp add: w aarch64_inv_def)
    obtain r regs' where fin: "aarch64_finish_step ?ms f regs h' step
      (ctx_last_failed_read_addr ctx') (ctx_unwind_info_error ctx') = (r, regs')" by fastforce
    have "panic_only oc r \<and> (r = Panic \<longleftrightarrow> step = Panic) \<and> aarch64_regs_ok regs'"
      using aarch64_finish_step_settles [OF fin, of oc] sett assms
      by (simp add: w aarch64_inv_def settles_def)
    then show ?thesis
      using True st fin sett assms
      by (simp add: w aarch64_unwind_frame_def aarch64_inv_def settles_def cb_inv_def Let_def)
  qed
qed

interpretation aarch64: frame_unwinder "aarch64_ops oc lu rf u" "aarch64_inv lu u" oc
  for oc :: bool and lu :: "'c libunwind" and rf :: "'s reader_fn" and u :: unwinder_aarch64
  by unfold_locales (simp add: aarch64_ops_def aarch64_unwind_settles)

text \<open>Any behaviour of libunwind and of the reader, chosen anew at every call.\<close>

definition aarch64_any_ops :: "bool \<Rightarrow> 'c itself \<Rightarrow> unwinder_aarch64 \<Rightarrow> 's aarch64_world unwinder_ops set" where
  "aarch64_any_ops oc c u = {aarch64_ops oc lu rf u | (lu :: 'c libunwind) rf. lu_create_addr_space_ok lu}"

lemma aarch64_any_ops_unwinder:
  fixes c :: "'c itself" and ops :: "'s aarch64_world unwinder_ops"
  assumes "ops \<in> aarch64_any_ops oc c u"
  shows "frame_unwinder ops (aarch64_inv failing_lu u) oc"
proof -
  from assms obtain lu :: "'c libunwind" and rf where ops: "ops = aarch64_ops oc lu rf u" and "lu_create_addr_space_ok lu"
    unfolding aarch64_any_ops_def by blast
  then have "aarch64_inv failing_lu u = (aarch64_inv lu u :: 's aarch64_world \<Rightarrow> bool)"
    by (auto simp: aarch64_inv_def failing_lu_def sample_lu_def)
  then show ?thesis
    unfolding ops by unfold_locales (simp add: aarch64_ops_def aarch64_unwind_settles)
qed

lemma aarch64_session:
  assumes "aarch64_regs_ok regs" and "heap_ok h" and "module_set_wf h (au_modules u)"
    and "mirrors_ok (au_modules u)"
    and "reachable (aarch64_any_ops oc c u) (iter_frames pc (regs, s, h)) it"
    and "ops \<in> aarch64_any_ops oc c u"
  shows "panic_only oc (fst (iter_next ops it))"
    and "fst (iter_next ops it) = Ok (Some f) \<Longrightarrow> frame_ok f"
proof -
  note fu = aarch64_any_ops_unwinder [where c = c]
  have "iter_inv (aarch64_inv failing_lu u) (iter_frames pc (regs, s, h))"
    using assms(1-4) by (simp add: iter_inv_def iter_frames_def aarch64_inv_def failing_lu_def sample_lu_def)
  from reachable_inv [OF assms(5) fu this] have "iter_inv (aarch64_inv failing_lu u) it" by blast
  from frame_unwinder.next_settles [OF fu [OF assms(6)] this]
  show "panic_only oc (fst (iter_next ops it))" by (simp add: settles_def)
  show "frame_ok f" if "fst (iter_next ops it) = Ok (Some f)"
    using frame_unwinder.next_frame_ok [OF fu [OF assms(6)] that] .
qed

section \<open>Frame-pointer unwinding\<close>

lemma aarch64_unwind_bare:
  assumes "bare (au_modules u) h (aarch64_strip regs (address_for_lookup f))"
  shows "aarch64_unwind_frame oc lu rf u f (regs, s, h) =
    (case aarch64_fallback_unwind_frame rf (aarch64_strip regs (address f)) regs s of
       (r, regs, s) \<Rightarrow> (r, regs, s, h))"
  using assms by (simp add: aarch64_unwind_frame_def bare_def Let_def)

definition aarch64_fp_inv :: "ptr_auth_mask \<Rightarrow> cache_heap \<Rightarrow> 's aarch64_world \<Rightarrow> bool" where
  "aarch64_fp_inv m h0 = (\<lambda>(regs, s, h). ar_lr_mask regs = m \<and> h = h0)"

interpretation aarch64_fp: fp_unwinder "aarch64_ops oc lu (mem_reader mem) u" "aarch64_fp_inv m h"
  "\<lambda>f. bare (au_modules u) h (strip_ptr_auth m (address_for_lookup f))" mem "strip_ptr_auth m"
  "\<lambda>w. ar_sp (fst w)" "\<lambda>w. ar_fp (fst w)"
  for oc :: bool and lu :: "'c libunwind" and mem and u and h and m
proof (unfold_locales, goal_cases)
  case (1 w f ra fp')
  obtain lr where "aarch64_fallback_unwind_frame (mem_reader mem) (aarch64_strip (fst w) (address f))
      (fst w) (fst (snd w)) = (Ok (Some ra), aarch64_set_fp fp' (aarch64_set_sp (ar_fp (fst w) + 16)
        (aarch64_set_lr lr (fst w))), fst (snd w))"
    using 1 aarch64_fallback_frame [of mem "fst w" ra fp' "aarch64_strip (fst w) (address f)"
        "fst (snd w)"]
    by (auto simp: aarch64_fp_inv_def)
  with 1 show ?case
    by (cases w) (simp add: aarch64_fp_inv_def aarch64_ops_def aarch64_unwind_bare)
next
  case (2 w f fp')
  then have "aarch64_fp_inv m h w \<and> (ar_fp (fst w) = 0 \<or>
      fp_frame mem (aarch64_strip (fst w)) (ar_sp (fst w)) (ar_fp (fst w)) 0 fp')"
    by (auto simp: aarch64_fp_inv_def)
  then have "fst (aarch64_fallback_unwind_frame (mem_reader mem) (aarch64_strip (fst w) (address f))
      (fst w) (fst (snd w))) = Ok None"
    using aarch64_fallback_frame [of mem "fst w" 0 fp' "aarch64_strip (fst w) (address f)"
        "fst (snd w)"]
    by (auto simp: aarch64_fallback_outermost)
  with 2 show ?case
    by (cases w) (auto simp: aarch64_fp_inv_def aarch64_ops_def aarch64_unwind_bare split: prod.split)
next
  case (3 w f)
  then show ?case
    using aarch64_fallback_no_frame [of "fst w" mem "aarch64_strip (fst w) (address f)" "fst (snd w)"]
    by (cases w) (auto simp: aarch64_fp_inv_def aarch64_ops_def aarch64_unwind_bare)
next
  case (4 w f)
  then show ?case
    by (cases w) (auto simp: aarch64_fp_inv_def aarch64_ops_def aarch64_is_signal_frame_def bare_def)
qed

definition aarch64_bare_inv ::
    "nat \<Rightarrow> 's reader_fn \<Rightarrow> unwinder_aarch64 \<Rightarrow> 's aarch64_world \<Rightarrow> bool" where
  "aarch64_bare_inv hi rf u = (\<lambda>(regs, s, h). reads_below hi rf \<and> (\<forall>a. bare (au_modules u) h a))"

interpretation aarch64_bare: advancing_unwinder "aarch64_ops oc lu rf u" "aarch64_bare_inv hi rf u" False
  "\<lambda>w. fp_room hi (ar_fp (fst w))"
  for oc :: bool and lu :: "'c libunwind" and rf :: "'s reader_fn" and u :: unwinder_aarch64 and hi :: nat
proof (unfold_locales, goal_cases)
  case (1 f w)
  obtain regs s h where w: "w = (regs, s, h)" by (cases w)
  let ?cur = "aarch64_strip regs (address f)"
  obtain r regs' s' where fb: "aarch64_fallback_unwind_frame rf ?cur regs s = (r, regs', s')"
    by (cases "aarch64_fallback_unwind_frame rf ?cur regs s")
  with 1 aarch64_fallback_defined [of rf ?cur regs s] show ?case
    by (auto simp: w aarch64_ops_def aarch64_bare_inv_def aarch64_unwind_bare settles_def)
next
  case (2 f w ra w')
  obtain regs s h where w: "w = (regs, s, h)" by (cases w)
  obtain regs' s' where fb:
    "aarch64_fallback_unwind_frame rf (aarch64_strip regs (address f)) regs s =
      (Ok (Some ra), regs', s')"
    and w': "w' = (regs', s', h)"
    using 2 by (auto simp: w aarch64_ops_def aarch64_bare_inv_def aarch64_unwind_bare split: prod.splits)
  from fb show ?case
    by (rule aarch64_fallback_Some)
      (use 2 reads_below_Some in \<open>force simp: w w' aarch64_bare_inv_def intro!: fp_room_less\<close>)
qed

section \<open>Branches of a step\<close>

text \<open>The three ways through \<open>unwind_frame\<close>.\<close>

text \<open>What a step with unwind information hands to \<open>init_and_step\<close>.\<close>

definition aarch64_acc :: "bool \<Rightarrow> 's reader_fn \<Rightarrow> (raw_regs_aarch64, 's) accessors" where
  "aarch64_acc oc rf = \<lparr>acc_oc = oc, acc_read_fn = rf, acc_access_reg = aarch64_access_reg\<rparr>"

definition aarch64_ctx ::
    "unwinder_aarch64 \<Rightarrow> frame_address \<Rightarrow> unwind_regs_aarch64 \<Rightarrow> 's \<Rightarrow> (raw_regs_aarch64, 's) unwind_ctx" where
  "aarch64_ctx u f regs s =
     (let ip = aarch64_strip regs (address_for_lookup f) in
      \<lparr>ctx_modules = au_modules u,
       ctx_regs = \<lparr>araw_pc = ip, araw_sp = ar_sp regs, araw_fp = ar_fp regs, araw_lr = ar_lr regs\<rparr>,
       ctx_lookup_ip = ip, ctx_reader = s, ctx_last_failed_read_addr = None,
       ctx_unwind_info_error = None\<rparr>)"

lemma aarch64_unwind_frame_cases:
  fixes rf :: "'s reader_fn"
  assumes "aarch64_unwind_frame oc lu rf u f (regs, s, h) = (r, regs', s', h')"
  obtains (broken) err where
      "module_set_unwind_info_error (au_modules u) (aarch64_strip regs (address_for_lookup f)) = Some err"
      and "r = Err (UnwindInfo err)" and "regs' = regs"
  | (fallback) "module_set_unwind_info_error (au_modules u) (aarch64_strip regs (address_for_lookup f)) = None"
      and "\<not> has_unwind_info (au_modules u) (aarch64_strip regs (address_for_lookup f))"
      and "aarch64_fallback_unwind_frame rf (aarch64_strip regs (address f)) regs s = (r, regs', s')"
  | (stepped) step ctx' where
      "module_set_unwind_info_error (au_modules u) (aarch64_strip regs (address_for_lookup f)) = None"
      and "has_unwind_info (au_modules u) (aarch64_strip regs (address_for_lookup f))"
      and "init_and_step (aarch64_acc oc rf) lu aarch64_reg_ip [aarch64_UNW_REG_SP, UNW_AARCH64_X29, UNW_AARCH64_X30]
          (aarch64_ctx u f regs s, h) =
        (step, (ctx', h'))"
      and "aarch64_finish_step (au_modules u) f regs h' step (ctx_last_failed_read_addr ctx')
        (ctx_unwind_info_error ctx') = (r, regs')"
proof (cases "module_set_unwind_info_error (au_modules u) (aarch64_strip regs (address_for_lookup f))")
  case (Some err)
  then have "r = Err (UnwindInfo err)" and "regs' = regs"
    using assms by (simp_all add: aarch64_unwind_frame_def Let_def)
  with broken [OF Some] show ?thesis by simp
next
  case None
  show ?thesis
  proof (cases "has_unwind_info (au_modules u) (aarch64_strip regs (address_for_lookup f))")
    case False
    with None assms have
      "aarch64_fallback_unwind_frame rf (aarch64_strip regs (address f)) regs s = (r, regs', s')"
      by (auto simp: aarch64_unwind_frame_def Let_def split: prod.splits)
    with fallback [OF None False] show ?thesis by simp
  next
    case True
    from assms None True show ?thesis
      by (auto simp: aarch64_unwind_frame_def aarch64_acc_def aarch64_ctx_def Let_def split: prod.splits
          intro: stepped)
  qed
qed

lemma aarch64_fallback_errors:
  assumes "fst (aarch64_fallback_unwind_frame rf ip regs s) = Err e"
  shows "e = IntegerOverflow \<or> e = FramepointerUnwindingMovedBackwards \<or>
    (\<exists>a. e = CouldNotReadStack a \<and> (\<exists>s'. fst (rf s' a) = None))"
  using assms
  by (auto simp: aarch64_fallback_unwind_frame_def Let_def split: if_splits option.splits prod.splits)
    (metis fst_conv option.distinct(1))+

lemma aarch64_finish_step_no_overflow:
  "fst (aarch64_finish_step ms f regs h step fr ie) \<noteq> Err IntegerOverflow"
  by (auto simp: aarch64_finish_step_def checked_add_u64_1 contains_address_top Let_def
      split: outcome.split step_outcome.split option.split if_splits)

lemma aarch64_unwind_broken:
  "module_set_unwind_info_error (au_modules u) (aarch64_strip regs (address_for_lookup f)) = Some err \<Longrightarrow>
     aarch64_unwind_frame oc lu rf u f (regs, s, h) = (Err (UnwindInfo err), regs, s, h)"
  by (simp add: aarch64_unwind_frame_def Let_def)

text \<open>The frame's unwind information is there, and the words, calls and lookups an error may name.\<close>

definition aarch64_error_ok ::
    "bool \<Rightarrow> 'c libunwind \<Rightarrow> 's reader_fn \<Rightarrow> unwinder_aarch64 \<Rightarrow> frame_address \<Rightarrow> 's aarch64_world \<Rightarrow> error \<Rightarrow> bool" where
  "aarch64_error_ok oc lu rf u f = (\<lambda>(regs, s, h).
     let ip = aarch64_strip regs (address_for_lookup f); info = has_unwind_info (au_modules u) ip in
     error_source_ok info (step_unread rf (au_modules u) info)
       (failed_at (aarch64_acc oc rf) lu aarch64_reg_ip [aarch64_UNW_REG_SP, UNW_AARCH64_X29, UNW_AARCH64_X30]
         (aarch64_ctx u f regs s, h))
       (lookup_failed oc h (au_modules u) ip))"

lemma aarch64_error_source:
  assumes "fst (aarch64_unwind_frame oc lu rf u f (regs, s, h)) = Err e"
    and "module_set_unwind_info_error (au_modules u) (aarch64_strip regs (address_for_lookup f)) = None"
  shows "aarch64_error_ok oc lu rf u f (regs, s, h) e"
proof -
  obtain regs' s' h' where "aarch64_unwind_frame oc lu rf u f (regs, s, h) = (Err e, regs', s', h')"
    using assms(1) by (metis prod.collapse)
  then show ?thesis
  proof (cases rule: aarch64_unwind_frame_cases)
    case fallback
    with aarch64_fallback_errors [of rf "aarch64_strip regs (address f)" regs s e] show ?thesis
      by (auto simp: aarch64_error_ok_def error_source_ok_def step_unread_def)
  next
    case (stepped step ctx')
    let ?acc = "aarch64_acc oc rf" and ?st = "(aarch64_ctx u f regs s, h)"
    let ?ip = "aarch64_strip regs (address_for_lookup f)"
    let ?extras = "[aarch64_UNW_REG_SP, UNW_AARCH64_X29, UNW_AARCH64_X30]"
    have "notes_true ?acc h (au_modules u) ?ip ?st"
      by (simp add: notes_true_def aarch64_ctx_def Let_def)
    from init_and_step_notes [OF this, of lu aarch64_reg_ip ?extras]
    have kept: "notes_true ?acc h (au_modules u) ?ip (ctx', h')" by (simp add: stepped(3))
    have failed: "failed_at ?acc lu aarch64_reg_ip ?extras ?st (lue_phase err) (lue_raw_status err)"
      if "step = Err err" for err
      using init_and_step_Err [of ?acc lu aarch64_reg_ip ?extras ?st err] stepped(3) that by simp
    have "e \<noteq> IntegerOverflow"
      using aarch64_finish_step_no_overflow stepped(4) by (metis fst_conv)
    with stepped(2,4) kept failed show ?thesis
      by (auto simp: aarch64_error_ok_def error_source_ok_def step_unread_def notes_true_def unreadable_def
          aarch64_acc_def Let_def elim!: aarch64_finish_step_cases split: option.splits)
  qed (use assms in simp)
qed

section \<open>The accessor and the constructors\<close>

lemma aarch64_access_write_read:
  assumes "n \<in> {UNW_AARCH64_PC, UNW_AARCH64_SP, UNW_AARCH64_X29, UNW_AARCH64_X30}"
    and "aarch64_access_reg raw n v 1 = (status, v', raw')"
  shows "status = UNW_ESUCCESS \<and> aarch64_access_reg raw' m val 0 =
    (if m = n then (UNW_ESUCCESS, v, raw')
     else apsnd (apsnd (\<lambda>_. raw')) (aarch64_access_reg raw m val 0))"
  using assms by (auto simp: aarch64_access_reg_def reg_number_defs)

lemma aarch64_regs_new_ok: "aarch64_regs_ok (aarch64_regs_new_with_mask m lr sp fp)"
  by (simp add: aarch64_regs_ok_def aarch64_regs_new_with_mask_def)

section \<open>Sample registers\<close>

text \<open>A 40-bit mask, and a stack whose return addresses carry authentication bits.\<close>

definition aarch64_sample_regs :: unwind_regs_aarch64 where
  "aarch64_sample_regs = aarch64_regs_new_with_mask new_24_40 0x1200000000401500 0x6ff0 0x7000"

definition signed_stack :: "u64 \<Rightarrow> u64 option" where
  "signed_stack a =
     (if a = 0x7008 then Some 0xab00000000401234 else if a = 0x7028 then Some 0xcd00000000401300
      else sample_stack a)"

lemma aarch64_sample_regs [simp]:
  "aarch64_regs_ok aarch64_sample_regs" "ar_sp aarch64_sample_regs = 0x6ff0"
  "ar_fp aarch64_sample_regs = 0x7000" "ar_lr_mask aarch64_sample_regs = new_24_40"
  unfolding aarch64_sample_regs_def
  by (rule aarch64_regs_new_ok) (simp_all add: aarch64_regs_new_with_mask_def)

lemma signed_frames:
  "fp_frame signed_stack (strip_ptr_auth new_24_40) 0x6ff0 0x7000 0x401234 0x7020"
  "fp_frame signed_stack (strip_ptr_auth new_24_40) 0x7010 0x7020 0x401300 0"
  by (simp_all add: fp_frame_def signed_stack_def sample_stack_def strip_ptr_auth_def new_24_40_def
      mask_eq_exp_minus_1)

lemma signed_chain:
  "fp_chain signed_stack (strip_ptr_auth new_24_40) 0x6ff0 0x7000 [0x401234, 0x401300]"
proof -
  have "fp_chain signed_stack (strip_ptr_auth new_24_40) 0x7010 0x7020 [0x401300]"
    using fp_chain.link [OF signed_frames(2)] fp_chain.outermost by simp
  then show ?thesis using fp_chain.link [OF signed_frames(1)] by simp
qed

lemma signed_stack_below: "reads_below 0x7030 (mem_reader signed_stack)"
  by (auto simp: reads_below_def mem_reader_def signed_stack_def sample_stack_def split: if_splits)

section \<open>Properties\<close>

text \<open>C8: A whole unwinding session is safe.  However libunwind and the stack reader behave, and
  however often the caller has called \<open>next\<close> on an aarch64 iterator, the next call has no
  undefined behaviour, a release build does not panic, and a frame it returns satisfies the
  type invariant of \<open>FrameAddress\<close>.\<close>

theorem aarch64_session_safe:
  assumes "aarch64_regs_ok regs" and "heap_ok h" and "module_set_wf h (au_modules u)"
    and "mirrors_ok (au_modules u)"
    and "reachable (aarch64_any_ops oc c u) (iter_frames pc (regs, s, h)) it"
    and "ops \<in> aarch64_any_ops oc c u"
  shows "panic_only oc (fst (iter_next ops it)) \<and>
    (\<forall>f. fst (iter_next ops it) = Ok (Some f) \<longrightarrow> frame_ok f)"
  using aarch64_session [OF assms] by blast

theorem aarch64_session_safe_witness:
  "panic_only True (fst (iter_next (aarch64_ops True sample_lu (mem_reader sample_stack) \<lparr>au_modules = sample_set\<rparr>)
     (iter_frames 0x1008 (aarch64_sample_regs, (), [Unlocked []]))))"
proof -
  let ?u = "\<lparr>au_modules = sample_set\<rparr>"
  have "aarch64_ops True sample_lu (mem_reader sample_stack) ?u \<in> aarch64_any_ops True TYPE(u64) ?u"
    unfolding aarch64_any_ops_def by (auto simp: sample_lu_def)
  with aarch64_session_safe [OF aarch64_sample_regs(1) sample_heap_ok, of ?u True "TYPE(u64)" "0x1008" "()"]
    sample_set_wf sample_redirect_ends reachable.start
  show ?thesis by (fastforce simp: mirrors_ok_def)
qed

text \<open>C22: The mask derived from the registry is safe.  With the mask of the highest known code
  address, every address of every registered module is left alone, whatever authentication
  code was put into the bits above is removed from it, and stripping twice is stripping once;
  an unwinder without modules strips nothing.\<close>

theorem ptr_auth_mask_keeps_code:
  assumes "registered (au_modules u) md" and "a < md_avma_end md"
    and "m = from_max_known_address (aarch64_max_known_code_address u)"
    and "n = 64 - leading_zeros (aarch64_max_known_code_address u)"
  shows "strip_ptr_auth m a = a \<and> (\<forall>pac. strip_ptr_auth m (a OR push_bit n pac) = a) \<and>
    (\<forall>v. strip_ptr_auth m (strip_ptr_auth m v) = strip_ptr_auth m v) \<and>
    strip_ptr_auth (from_max_known_address
      (aarch64_max_known_code_address aarch64_unwinder_new)) v = v"
proof -
  let ?max = "aarch64_max_known_code_address u"
  have less: "a < ?max"
    using max_known_above [OF assms(1,2)] by (simp add: aarch64_max_known_code_address_def)
  then have nz: "?max \<noteq> 0" by auto
  have "bit_length (unat ?max) \<le> 64" using bit_length_le [of "unat ?max" 64] by simp
  then have n: "n = bit_length (unat ?max)" by (simp add: assms(4) leading_zeros_def)
  have "unat a < 2 ^ n"
    using less less_bit_length [of "unat ?max"] by (simp add: n word_less_nat_alt)
  then have a: "take_bit n a = a"
    by (simp add: word_unat_eq_iff [of _ a] unsigned_take_bit_eq take_bit_nat_eq_self)
  have "take_bit n (a OR push_bit n pac) = a" for pac
    using a by (simp add: take_bit_or) (simp add: take_bit_push_bit)
  with a show ?thesis
    by (simp add: assms(3) strip_max_known [OF nz] n) (simp add: aarch64_max_known_code_address_def
        aarch64_unwinder_new_def max_known_code_address_def module_set_new_def bt_values_def
        from_max_known_address_def new_no_strip_def strip_ptr_auth_def)
qed

theorem ptr_auth_mask_keeps_code_witness:
  "strip_ptr_auth (from_max_known_address (aarch64_max_known_code_address \<lparr>au_modules = sample_set\<rparr>))
     0x1008 = 0x1008"
  using ptr_auth_mask_keeps_code [of "\<lparr>au_modules = sample_set\<rparr>" "sample_module 0" "0x1008"] sample_registered
  by (simp add: sample_module_def)

text \<open>C19: What a step does to the registers.  A recovered frame has a return address that is
  not null, has moved (its address or its stack pointer differs from the frame before), and
  keeps the mask and a link register free of authentication bits; any other outcome leaves
  the registers as they were.\<close>

theorem aarch64_unwind_frame_contract:
  assumes "aarch64_regs_ok regs"
    and "aarch64_unwind_frame oc lu rf u f (regs, s, h) = (r, regs', s', h')"
  shows "(\<forall>ra. r = Ok (Some ra) \<longrightarrow>
      ra \<noteq> 0 \<and> (ra \<noteq> strip_ptr_auth (ar_lr_mask regs) (address f) \<or> ar_sp regs' \<noteq> ar_sp regs) \<and>
      ar_lr_mask regs' = ar_lr_mask regs \<and> aarch64_regs_ok regs') \<and>
    (r = Ok None \<or> (\<exists>e. r = Err e) \<longrightarrow> regs' = regs)"
  using assms(2)
proof (cases rule: aarch64_unwind_frame_cases)
  case broken
  then show ?thesis by simp
next
  case fallback
  show ?thesis
  proof (cases "\<exists>ra. r = Ok (Some ra)")
    case True
    then obtain ra where r: "r = Ok (Some ra)" ..
    from fallback(3) [unfolded r] show ?thesis
      by (rule aarch64_fallback_Some) (use assms(1) in \<open>auto simp: r aarch64_regs_ok_def\<close>)
  next
    case False
    with aarch64_fallback_keeps_regs [OF fallback(3)] show ?thesis by auto
  qed
next
  case (stepped step ctx')
  from stepped(4) show ?thesis
  proof (cases rule: aarch64_finish_step_cases)
    case (advanced new_ip extras ip)
    then have "ip \<noteq> 0" by (auto simp: eq_neg_iff_add_eq_0)
    with advanced show ?thesis by (auto simp: aarch64_regs_ok_def)
  qed auto
qed

theorem aarch64_unwind_frame_contract_witness:
  "ar_lr_mask (fst (snd (aarch64_unwind_frame True sample_lu (mem_reader signed_stack)
     aarch64_unwinder_new (InstructionPointer 0x401000) (aarch64_sample_regs, (), [])))) = new_24_40"
proof -
  obtain r regs' s' h' where st: "aarch64_unwind_frame True sample_lu (mem_reader signed_stack)
     aarch64_unwinder_new (InstructionPointer 0x401000) (aarch64_sample_regs, (), []) = (r, regs', s', h')"
    by (metis prod.exhaust)
  obtain lr where "aarch64_fallback_unwind_frame (mem_reader signed_stack)
      (aarch64_strip aarch64_sample_regs 0x401000) aarch64_sample_regs () =
      (Ok (Some 0x401234), aarch64_set_fp 0x7020 (aarch64_set_sp 0x7010
        (aarch64_set_lr lr aarch64_sample_regs)), ())"
    using aarch64_fallback_frame [of signed_stack aarch64_sample_regs "0x401234" "0x7020"
        "aarch64_strip aarch64_sample_regs 0x401000" "()"] signed_frames(1) by auto
  with st have "r = Ok (Some 0x401234)"
    by (simp add: aarch64_unwind_bare bare_empty aarch64_unwinder_new_def address_def)
  with aarch64_unwind_frame_contract [OF aarch64_sample_regs(1) st] st show ?thesis by simp
qed

end
