(* ===== verification/Cache_Independence.thy ===== *)
theory Cache_Independence
  imports X86_64 Aarch64
begin

text \<open>
  What an unwinder returns does not depend on what its function caches hold.

  The caches of a registry are a shared heap that every step changes, \<open>is_signal_frame\<close> even
  answers from them alone.  Here two runs that start from different caches are compared, with
  the same registry, registers, memory and libunwind: as long as both caches hold only what a
  parse of the sections gives, every callback gives the same answer in both, and after a step
  in which libunwind has asked for the function of the frame both know whether it is a signal
  frame.  The locale \<open>cache_independent\<close> carries this from one step to the whole list of
  frames, for both architectures.
\<close>

section \<open>Caches that hold what a parse gives\<close>

definition caches_sound :: "bool \<Rightarrow> module_set \<Rightarrow> cache_heap \<Rightarrow> bool" where
  "caches_sound oc ms h \<longleftrightarrow> module_set_wf h ms \<and>
     inj_on md_function_cache {md. registered ms md} \<and>
     (\<forall>md. registered ms md \<longrightarrow> table_consistent oc md \<and>
       (\<exists>cache. lock_cache h (md_function_cache md) = Some cache \<and> cache_sound oc md cache))"

text \<open>The function at \<open>ip\<close> is in its module's cache, if there is one.\<close>

definition looked_up :: "bool \<Rightarrow> module_set \<Rightarrow> u64 \<Rightarrow> cache_heap \<Rightarrow> bool" where
  "looked_up oc ms ip h \<longleftrightarrow>
     (\<forall>md cache d. find_module ms ip = Some md \<longrightarrow> lock_cache h (md_function_cache md) = Some cache \<longrightarrow>
        parse_function_details oc md ip = Ok d \<longrightarrow> cache_hit cache ip = Some d)"

text \<open>What the sections say of the function at \<open>ip\<close>, without any cache.\<close>

definition describes_signal_frame :: "bool \<Rightarrow> module_set \<Rightarrow> u64 \<Rightarrow> bool" where
  "describes_signal_frame oc ms ip =
     (case find_module ms ip of
        None \<Rightarrow> False
      | Some md \<Rightarrow>
          (case parse_function_details oc md ip of Ok d \<Rightarrow> fd_signal_frame d | _ \<Rightarrow> False))"

definition fresh_proc_info ::
    "bool \<Rightarrow> ('r, 's) unwind_ctx \<Rightarrow> unw_proc_info \<Rightarrow>
     (i32 \<times> unw_proc_info \<times> ('r, 's) unwind_ctx, unwind_info_error) outcome" where
  "fresh_proc_info oc ctx pinfo =
     (let ip = ctx_lookup_ip ctx in
      case find_module (ctx_modules ctx) ip of
        None \<Rightarrow> Ok (- UNW_ENOINFO, pinfo, ctx\<lparr>ctx_unwind_info_error := Some (ModuleNotFound ip)\<rparr>)
      | Some md \<Rightarrow>
          (case parse_function_details oc md ip of
             Err err \<Rightarrow> Ok (- UNW_ENOINFO, pinfo, ctx\<lparr>ctx_unwind_info_error := Some err\<rparr>)
           | Ok d \<Rightarrow>
               Ok (UNW_ESUCCESS,
                 pinfo\<lparr>pi_start_ip := fd_start_ip d, pi_end_ip := fd_end_ip d, pi_lsda := fd_lsda d,
                   pi_handler := fd_handler d, pi_gp := 0, pi_flags := 0,
                   pi_format := UNW_INFO_FORMAT_REMOTE_TABLE,
                   pi_unwind_info_size := dwarf_cie_info_size,
                   pi_unwind_info := Some (fd_cie_info d)\<rparr>, ctx)
           | Panic \<Rightarrow> Panic
           | UB \<Rightarrow> UB))"

lemma get_or_parse_length:
  "length (snd (get_or_parse_function_details oc h md ip)) = length h"
  by (simp add: get_or_parse_function_details_def split: option.split outcome.split)

lemma caches_sound_lookup:
  assumes cs: "caches_sound oc ms h" and fm: "find_module ms ip = Some md"
    and g: "get_or_parse_function_details oc h md ip = (r, h')"
  shows "r = parse_function_details oc md ip" and "caches_sound oc ms h'" and "looked_up oc ms ip h'"
proof -
  have wf: "module_set_wf h ms" using cs by (simp add: caches_sound_def)
  note md = find_module_sound [OF wf fm]
  from cs md(1) obtain cache where tc: "table_consistent oc md"
    and lk: "lock_cache h (md_function_cache md) = Some cache" and c: "cache_sound oc md cache"
    unfolding caches_sound_def by blast
  show r: "r = parse_function_details oc md ip"
    using get_or_parse_eq [OF lk c, of ip] g by simp
  from cache_after_lookup [OF md(4) tc lk c g] obtain cache' where
    new: "lock_cache h' (md_function_cache md) = Some cache'" "cache_sound oc md cache'"
      "\<And>d. r = Ok d \<Longrightarrow> bt_get (fd_start_ip d) cache' = Some d"
    and old: "\<And>j. j \<noteq> md_function_cache md \<Longrightarrow> lock_cache h' j = lock_cache h j" by blast
  have "length h' = length h" using get_or_parse_length [of oc h md ip] g by simp
  with wf have wf': "module_set_wf h' ms" using module_set_wf_length [of h' h ms] by simp
  have "\<exists>c. lock_cache h' (md_function_cache m) = Some c \<and> cache_sound oc m c" if m: "registered ms m" for m
  proof (cases "m = md")
    case False
    with cs m md(1) have "md_function_cache m \<noteq> md_function_cache md"
      unfolding caches_sound_def inj_on_def by blast
    with old cs m show ?thesis unfolding caches_sound_def by simp
  qed (use new in blast)
  with wf' cs show "caches_sound oc ms h'" by (simp add: caches_sound_def)
  show "looked_up oc ms ip h'"
    using fm new r cache_sound_finds [OF new(2) new(3)]
    by (auto simp: looked_up_def parse_function_details_iff)
qed

lemma find_proc_info_fresh:
  assumes "caches_sound oc ms h" and "ctx_modules ctx = ms"
  obtains h' where "find_proc_info oc h ctx pinfo = (fresh_proc_info oc ctx pinfo, h')"
    and "caches_sound oc ms h'" and "looked_up oc ms (ctx_lookup_ip ctx) h'"
proof (cases "find_module ms (ctx_lookup_ip ctx)")
  case None
  with assms that [of h] show ?thesis
    by (simp add: find_proc_info_def fresh_proc_info_def looked_up_def)
next
  case (Some md)
  obtain r h' where g: "get_or_parse_function_details oc h md (ctx_lookup_ip ctx) = (r, h')" by fastforce
  note l = caches_sound_lookup [OF assms(1) Some g]
  show ?thesis
    by (rule that [OF _ l(2,3)])
      (use Some g l(1) assms(2) in
        \<open>simp add: find_proc_info_def fresh_proc_info_def Let_def split: outcome.split\<close>)
qed

lemma fresh_proc_info_ctx:
  assumes "fresh_proc_info oc ctx pinfo = Ok (status, pinfo', ctx')"
  shows "ctx_modules ctx' = ctx_modules ctx" and "ctx_lookup_ip ctx' = ctx_lookup_ip ctx"
  using assms by (auto simp: fresh_proc_info_def Let_def split: option.splits outcome.splits)

text \<open>
  \<open>is_signal_frame\<close> answers from the cache: it knows a signal frame only when the function was
  looked up; it is never wrong about a frame that is none.
\<close>

lemma signal_frame_iff:
  assumes cs: "caches_sound oc ms h"
  shows "module_set_is_signal_frame h ms ip \<longleftrightarrow> describes_signal_frame oc ms ip \<and> looked_up oc ms ip h"
proof (cases "find_module ms ip")
  case None
  then show ?thesis by (simp add: module_set_is_signal_frame_def describes_signal_frame_def)
next
  case (Some md)
  have "module_set_wf h ms" using cs by (simp add: caches_sound_def)
  from find_module_sound(1) [OF this Some] have "registered ms md" .
  with cs obtain cache where lk: "lock_cache h (md_function_cache md) = Some cache"
    and c: "cache_sound oc md cache" unfolding caches_sound_def by blast
  have hit: "module_set_is_signal_frame h ms ip =
      (case cache_hit cache ip of None \<Rightarrow> False | Some d \<Rightarrow> fd_signal_frame d)"
    using Some lk by (simp add: module_set_is_signal_frame_def cache_hit_def split: option.split)
  show ?thesis
  proof (cases "cache_hit cache ip")
    case None
    with hit Some lk show ?thesis
      by (auto simp: describes_signal_frame_def looked_up_def split: outcome.splits)
  next
    case (Some d)
    with cache_sound_hit [OF c] \<open>find_module ms ip = Some md\<close> hit lk show ?thesis
      by (simp add: describes_signal_frame_def looked_up_def)
  qed
qed

lemma signal_frame_exact:
  "caches_sound oc ms h \<Longrightarrow> looked_up oc ms ip h \<Longrightarrow>
     module_set_is_signal_frame h ms ip = describes_signal_frame oc ms ip"
  by (simp add: signal_frame_iff)

lemma looked_up_no_info:
  assumes "\<not> has_unwind_info ms ip"
  shows "looked_up oc ms ip h"
  using assms
  by (auto simp: looked_up_def has_unwind_info_def parse_function_details_iff module_lookup_def
      eh_frame_table_lookup_def outcome_simps)

section \<open>A libunwind that asks\<close>

text \<open>
  \<open>asks t\<close>: the call \<open>t\<close>, made with the crate's callbacks, returns only after it called
  \<open>find_proc_info\<close>.  Registers and memory may answer anything; \<open>get_dyn_info_list_addr\<close> and
  \<open>access_fpreg\<close> give the one answer the crate has for them.

  On x86_64 the vendored \<open>unw_step\<close> asks on every path: \<open>dwarf_step\<close> is its first act, an address
  space made by \<open>unw_create_addr_space\<close> keeps no cache of register states, so \<open>find_reg_state\<close> calls
  \<open>fetch_proc_info\<close>, which asks as soon as \<open>get_dyn_info_list_addr\<close> has answered that there is no
  dynamic information.  On aarch64 it asks too, unless the code at the frame is the signal
  trampoline of the kernel, over which \<open>unw_step\<close> steps by itself.
\<close>

primrec asks :: "'a unw \<Rightarrow> bool" where
  "asks (UDone x) \<longleftrightarrow> False"
| "asks (UFindProcInfo pinfo k) \<longleftrightarrow> True"
| "asks (UPutUnwindInfo k) \<longleftrightarrow> asks (k ())"
| "asks (UGetDynInfo k) \<longleftrightarrow> asks (k get_dyn_info_list_addr)"
| "asks (UAccessMem addr val wr k) \<longleftrightarrow> (\<forall>x. asks (k x))"
| "asks (UAccessReg reg val wr k) \<longleftrightarrow> (\<forall>x. asks (k x))"
| "asks (UAccessFpreg k) \<longleftrightarrow> asks (k access_fpreg)"

text \<open>
  What the frames need of libunwind: if the registered sections describe a signal frame at all,
  every step asks.  A registry that describes none (aarch64 with the vendored library) needs nothing.
\<close>

definition signals_asked :: "bool \<Rightarrow> module_set \<Rightarrow> 'c libunwind \<Rightarrow> bool" where
  "signals_asked oc ms lu \<longleftrightarrow> (\<exists>ip. describes_signal_frame oc ms ip) \<longrightarrow> (\<forall>c. asks (lu_step lu c))"

text \<open>
  Two states of the same context over two heaps; \<open>b\<close> says whether both caches already know the
  function at \<open>ip\<close>.
\<close>

definition twin_states ::
    "bool \<Rightarrow> module_set \<Rightarrow> u64 \<Rightarrow> bool \<Rightarrow> ('r, 's) cb_state \<Rightarrow> ('r, 's) cb_state \<Rightarrow> bool" where
  "twin_states oc ms ip b st1 st2 \<longleftrightarrow> fst st1 = fst st2 \<and>
     ctx_modules (fst st1) = ms \<and> ctx_lookup_ip (fst st1) = ip \<and>
     caches_sound oc ms (snd st1) \<and> caches_sound oc ms (snd st2) \<and>
     (b \<longrightarrow> looked_up oc ms ip (snd st1) \<and> looked_up oc ms ip (snd st2))"

text \<open>Two results of the same call: the same outcome, and twin states behind a value or error.\<close>

definition twins ::
    "bool \<Rightarrow> module_set \<Rightarrow> u64 \<Rightarrow> bool \<Rightarrow> ('a, 'e) outcome \<times> ('r, 's) cb_state \<Rightarrow>
     ('a, 'e) outcome \<times> ('r, 's) cb_state \<Rightarrow> bool" where
  "twins oc ms ip b r1 r2 \<longleftrightarrow> fst r1 = fst r2 \<and>
     (case fst r1 of
        Ok x \<Rightarrow> twin_states oc ms ip b (snd r1) (snd r2)
      | Err e \<Rightarrow> twin_states oc ms ip False (snd r1) (snd r2)
      | _ \<Rightarrow> True)"

lemma twins_simps [simp]:
  "twins oc ms ip b (Ok x, st1) (Ok x, st2) \<longleftrightarrow> twin_states oc ms ip b st1 st2"
  "twins oc ms ip b (Err e, st1) (Err e, st2) \<longleftrightarrow> twin_states oc ms ip False st1 st2"
  by (simp_all add: twins_def)

lemma twins_aborted: "\<not> defined r \<Longrightarrow> twins oc ms ip b (r, st) (r, st')"
  by (cases r) (simp_all add: twins_def)

lemma abort_of_undefined [simp]: "\<not> defined (abort_of r)"
  by (cases r) simp_all

lemma twin_states_weaken:
  "twin_states oc ms ip b st1 st2 \<Longrightarrow> (b' \<Longrightarrow> b) \<Longrightarrow> twin_states oc ms ip b' st1 st2"
  by (auto simp: twin_states_def)

lemma twins_weaken: "twins oc ms ip b r1 r2 \<Longrightarrow> (b' \<Longrightarrow> b) \<Longrightarrow> twins oc ms ip b' r1 r2"
  by (auto simp: twins_def elim: twin_states_weaken split: outcome.splits)

lemma twins_answer:
  "twins oc ms ip (b \<or> asks (k x)) r1 r2 \<Longrightarrow> twins oc ms ip (b \<or> (\<forall>x. asks (k x))) r1 r2"
  by (erule twins_weaken) auto

lemma twin_statesE:
  assumes "twin_states oc ms ip b st1 st2"
  obtains ctx h1 h2 where "st1 = (ctx, h1)" and "st2 = (ctx, h2)"
    and "twin_states oc ms ip b (ctx, h1) (ctx, h2)"
  using assms by (cases st1; cases st2) (auto simp: twin_states_def)

text \<open>A callback that keeps the registry and the lookup address keeps twins.\<close>

lemma twin_states_ctx:
  assumes "twin_states oc ms ip b (ctx, h1) (ctx, h2)"
    and "ctx_modules ctx' = ctx_modules ctx" and "ctx_lookup_ip ctx' = ctx_lookup_ip ctx"
  shows "twin_states oc ms ip b (ctx', h1) (ctx', h2)"
  using assms by (simp add: twin_states_def)

lemma find_proc_info_twins:
  assumes "twin_states oc ms ip b (ctx, h1) (ctx, h2)"
  obtains h1' h2' where "find_proc_info oc h1 ctx pinfo = (fresh_proc_info oc ctx pinfo, h1')"
    and "find_proc_info oc h2 ctx pinfo = (fresh_proc_info oc ctx pinfo, h2')"
    and "twin_states oc ms ip True (ctx, h1') (ctx, h2')"
proof -
  from assms have c: "caches_sound oc ms h1" "caches_sound oc ms h2" "ctx_modules ctx = ms"
    and ip: "ctx_lookup_ip ctx = ip" by (simp_all add: twin_states_def)
  obtain h1' where 1: "find_proc_info oc h1 ctx pinfo = (fresh_proc_info oc ctx pinfo, h1')"
    "caches_sound oc ms h1'" "looked_up oc ms ip h1'"
    using find_proc_info_fresh [OF c(1,3), of pinfo] ip by blast
  obtain h2' where 2: "find_proc_info oc h2 ctx pinfo = (fresh_proc_info oc ctx pinfo, h2')"
    "caches_sound oc ms h2'" "looked_up oc ms ip h2'"
    using find_proc_info_fresh [OF c(2,3), of pinfo] ip by blast
  from 1 2 c(3) ip that show ?thesis by (simp add: twin_states_def)
qed

lemma access_mem_ctx:
  "access_mem rf ctx addr val wr = Ok (status, val', ctx') \<Longrightarrow> ctx_modules ctx' = ctx_modules ctx"
  "access_mem rf ctx addr val wr = Ok (status, val', ctx') \<Longrightarrow> ctx_lookup_ip ctx' = ctx_lookup_ip ctx"
  by (auto simp: access_mem_def outcome_simps split: if_splits option.splits prod.splits)

lemma run_twins:
  assumes "twin_states (acc_oc acc) ms ip b st1 st2"
  shows "twins (acc_oc acc) ms ip (b \<or> asks t) (run acc t st1) (run acc t st2)"
  using assms
proof (induction t arbitrary: b st1 st2)
  case (UDone x)
  then show ?case by simp
next
  case (UFindProcInfo pinfo k)
  from UFindProcInfo.prems obtain ctx h1 h2 where st: "st1 = (ctx, h1)" "st2 = (ctx, h2)"
    "twin_states (acc_oc acc) ms ip b (ctx, h1) (ctx, h2)" by (rule twin_statesE)
  from st(3) obtain h1' h2' where
    h: "find_proc_info (acc_oc acc) h1 ctx pinfo = (fresh_proc_info (acc_oc acc) ctx pinfo, h1')"
      "find_proc_info (acc_oc acc) h2 ctx pinfo = (fresh_proc_info (acc_oc acc) ctx pinfo, h2')"
    and tw: "twin_states (acc_oc acc) ms ip True (ctx, h1') (ctx, h2')"
    by (rule find_proc_info_twins [where pinfo = pinfo])
  show ?case
  proof (cases "fresh_proc_info (acc_oc acc) ctx pinfo")
    case (Ok x)
    obtain status pinfo' ctx' where x: "x = (status, pinfo', ctx')" by (cases x)
    from UFindProcInfo.IH [OF rangeI twin_states_ctx [OF tw fresh_proc_info_ctx [OF Ok [unfolded x]]]]
    show ?thesis by (simp add: st h Ok x)
  qed (simp_all add: st h twins_aborted)
next
  case (UPutUnwindInfo k)
  from UPutUnwindInfo.prems obtain ctx h1 h2 where "st1 = (ctx, h1)" "st2 = (ctx, h2)"
    "twin_states (acc_oc acc) ms ip b (ctx, h1) (ctx, h2)" by (rule twin_statesE)
  with UPutUnwindInfo.IH [OF rangeI] show ?case by (simp add: put_unwind_info_def)
next
  case (UGetDynInfo k)
  from UGetDynInfo.IH [OF rangeI UGetDynInfo.prems] show ?case by simp
next
  case (UAccessMem addr val wr k)
  from UAccessMem.prems obtain ctx h1 h2 where st: "st1 = (ctx, h1)" "st2 = (ctx, h2)"
    "twin_states (acc_oc acc) ms ip b (ctx, h1) (ctx, h2)" by (rule twin_statesE)
  show ?case
  proof (cases "access_mem (acc_read_fn acc) ctx addr val wr")
    case (Ok x)
    obtain status val' ctx' where x: "x = (status, val', ctx')" by (cases x)
    from UAccessMem.IH [OF rangeI twin_states_ctx [OF st(3) access_mem_ctx [OF Ok [unfolded x]]],
        THEN twins_answer [of _ _ _ _ k]]
    show ?thesis unfolding asks.simps by (simp add: st Ok x)
  qed (simp_all add: st twins_aborted)
next
  case (UAccessReg reg val wr k)
  from UAccessReg.prems obtain ctx h1 h2 where st: "st1 = (ctx, h1)" "st2 = (ctx, h2)"
    "twin_states (acc_oc acc) ms ip b (ctx, h1) (ctx, h2)" by (rule twin_statesE)
  obtain status val' regs where a: "acc_access_reg acc (ctx_regs ctx) reg val wr = (status, val', regs)"
    by (cases "acc_access_reg acc (ctx_regs ctx) reg val wr")
  have "twin_states (acc_oc acc) ms ip b (ctx\<lparr>ctx_regs := regs\<rparr>, h1) (ctx\<lparr>ctx_regs := regs\<rparr>, h2)"
    by (rule twin_states_ctx [OF st(3)]) simp_all
  from UAccessReg.IH [OF rangeI this, THEN twins_answer [of _ _ _ _ k]] show ?case
    unfolding asks.simps by (simp add: callback_access_reg_def st a)
next
  case (UAccessFpreg k)
  from UAccessFpreg.IH [OF rangeI UAccessFpreg.prems] show ?case by simp
qed

lemma run_twins_known:
  "twin_states (acc_oc acc) ms ip b st1 st2 \<Longrightarrow>
     twins (acc_oc acc) ms ip b (run acc t st1) (run acc t st2)"
  by (drule run_twins [where t = t]) (auto elim: twins_weaken)

lemma run_twins_asks:
  "twin_states (acc_oc acc) ms ip False st1 st2 \<Longrightarrow> (b \<Longrightarrow> asks t) \<Longrightarrow>
     twins (acc_oc acc) ms ip b (run acc t st1) (run acc t st2)"
  by (drule run_twins [where t = t]) (auto elim: twins_weaken)

lemma twins_seq:
  assumes "twins oc ms ip b r1 r2"
    and "\<And>x st1 st2. twin_states oc ms ip b st1 st2 \<Longrightarrow> twins oc ms ip b' (f x st1) (f x st2)"
  shows "twins oc ms ip b' (seq_then r1 f) (seq_then r2 f)"
proof -
  obtain x1 st1 x2 st2 where r: "r1 = (x1, st1)" "r2 = (x2, st2)" by (metis prod.exhaust)
  with assms(1) have "x2 = x1" by (simp add: twins_def)
  with r assms show ?thesis
    by (cases x1) (simp_all add: seq_then_def twins_aborted)
qed

lemma and_then_Err_twins:
  "twin_states oc ms ip b st1 st2 \<Longrightarrow> twins oc ms ip b' (and_then x Err, st1) (and_then x Err, st2)"
  by (cases x) (auto simp: twins_aborted elim: twin_states_weaken)

lemma libunwind_failed_twins:
  assumes "twin_states oc ms ip b st1 st2"
  shows "twins oc ms ip b' (libunwind_failed oc' phase status st1) (libunwind_failed oc' phase status st2)"
  unfolding libunwind_failed_def using assms by (rule and_then_Err_twins)

lemma read_extras_twins:
  assumes "twin_states (acc_oc acc) ms ip b st1 st2"
  shows "twins (acc_oc acc) ms ip b (read_extras acc lu i rs ex c st1) (read_extras acc lu i rs ex c st2)"
  using assms
proof (induction rs arbitrary: i ex c st1 st2)
  case (Cons reg rs)
  have "twins (acc_oc acc) ms ip b (run acc (lu_get_reg lu c reg) st1) (run acc (lu_get_reg lu c reg) st2)"
    using Cons.prems by (rule run_twins_known)
  then show ?case
    unfolding read_extras.simps
    by (rule twins_seq) (auto intro: Cons.IH libunwind_failed_twins)
qed simp

lemma init_and_step_twins:
  assumes "twin_states (acc_oc acc) ms ip False st1 st2" and "\<And>c. b \<Longrightarrow> asks (lu_step lu c)"
  shows "twins (acc_oc acc) ms ip b (init_and_step acc lu reg_ip regs st1)
    (init_and_step acc lu reg_ip regs st2)"
proof (cases "lu_create_addr_space_ok lu")
  case True
  have init: "twins (acc_oc acc) ms ip False (run acc (lu_init_remote lu) st1) (run acc (lu_init_remote lu) st2)"
    using run_twins [OF assms(1)] by (rule twins_weaken) simp
  show ?thesis
    unfolding init_and_step_def if_not_P [OF iffD2 [OF not_not True]]
    by (rule twins_seq [OF init])
      (auto intro!: libunwind_failed_twins twins_seq [OF run_twins_asks [where b = b and t = "lu_step lu c" for c, OF _ assms(2)]]
        twins_seq [OF run_twins_known [where b = b and t = "lu_get_reg lu c r" for c r]]
        twins_seq [OF read_extras_twins [where b = b]])
qed (simp add: init_and_step_def twins_aborted)

section \<open>From one step to all frames\<close>

text \<open>
  A step that gives the same in two worlds that differ in their caches only: the same outcome
  and the same registers and reader; sound caches after a value or an error, and after a value
  both worlds agree on whether the frame is a signal frame.
\<close>

definition steps_alike ::
    "(cache_heap \<Rightarrow> bool) \<Rightarrow> ('r \<times> 's \<times> cache_heap \<Rightarrow> bool) \<Rightarrow>
     (u64 option, error) outcome \<times> 'r \<times> 's \<times> cache_heap \<Rightarrow>
     (u64 option, error) outcome \<times> 'r \<times> 's \<times> cache_heap \<Rightarrow> bool" where
  "steps_alike sound sig r1 r2 \<longleftrightarrow> fst r1 = fst r2 \<and>
     (defined (fst r1) \<longrightarrow>
        fst (snd r1) = fst (snd r2) \<and> fst (snd (snd r1)) = fst (snd (snd r2)) \<and>
        sound (snd (snd (snd r1))) \<and> sound (snd (snd (snd r2)))) \<and>
     ((\<exists>x. fst r1 = Ok x) \<longrightarrow> sig (snd r1) = sig (snd r2))"

locale cache_independent =
  fixes ops :: "('r \<times> 's \<times> cache_heap) unwinder_ops"
    and sound :: "cache_heap \<Rightarrow> bool"
  assumes steps: "sound h1 \<Longrightarrow> sound h2 \<Longrightarrow>
    steps_alike sound (uw_is_signal_frame ops f) (uw_unwind_frame ops f (regs, s, h1))
      (uw_unwind_frame ops f (regs, s, h2))"
begin

lemma drain_alike:
  assumes "sound h1" and "sound h2"
  shows "drain ops n \<lparr>it_state = st, it_world = (regs, s, h1)\<rparr> =
    drain ops n \<lparr>it_state = st, it_world = (regs, s, h2)\<rparr>"
  using assms
proof (induction n arbitrary: st regs s h1 h2)
  case (Suc n)
  show ?case
  proof (cases st)
    case (Unwinding f)
    obtain r1 regs1 s1 h1' r2 regs2 s2 h2' where
      u: "uw_unwind_frame ops f (regs, s, h1) = (r1, regs1, s1, h1')"
        "uw_unwind_frame ops f (regs, s, h2) = (r2, regs2, s2, h2')" by (metis prod.exhaust)
    note a = steps [OF Suc.prems, of f regs s, unfolded u steps_alike_def fst_conv snd_conv]
    show ?thesis
    proof (cases r1)
      case (Ok ra)
      have eq: "r2 = Ok ra" "regs2 = regs1" "s2 = s1" "sound h1'" "sound h2'"
        "uw_is_signal_frame ops f (regs1, s1, h2') = uw_is_signal_frame ops f (regs1, s1, h1')"
        using a Ok by auto
      show ?thesis
        using Suc.IH [OF eq(4,5)]
        by (auto simp: iter_next_def next_frame_def Unwinding u Ok eq Let_def split: option.split)
    qed (use a in \<open>auto simp: iter_next_def Unwinding u\<close>)
  qed (use Suc.IH [OF Suc.prems] in simp_all)
qed simp

end

lemma unwind_steps_alike:
  assumes "caches_sound oc ms h1" and "caches_sound oc ms h2" and asked: "signals_asked oc ms lu"
    and "acc_oc acc = oc" and "ctx_modules ctx = ms"
    and "init_and_step acc lu reg_ip rs (ctx, h1) = (r1, c1, k1)"
    and "init_and_step acc lu reg_ip rs (ctx, h2) = (r2, c2, k2)"
  shows "r2 = r1" and "defined r1 \<Longrightarrow> c2 = c1 \<and> caches_sound oc ms k1 \<and> caches_sound oc ms k2"
    and "r1 = Ok x \<Longrightarrow> module_set_is_signal_frame k1 ms (ctx_lookup_ip ctx) =
      module_set_is_signal_frame k2 ms (ctx_lookup_ip ctx)"
proof -
  have "twin_states (acc_oc acc) ms (ctx_lookup_ip ctx) False (ctx, h1) (ctx, h2)"
    using assms(1,2,4,5) by (simp add: twin_states_def)
  from init_and_step_twins [OF this, of "\<exists>ip. describes_signal_frame oc ms ip" lu reg_ip rs] asked
  have t: "twins oc ms (ctx_lookup_ip ctx) (\<exists>ip. describes_signal_frame oc ms ip) (r1, c1, k1) (r2, c2, k2)"
    using assms(4,6,7) by (simp add: signals_asked_def)
  then show "r2 = r1" by (simp add: twins_def)
  with t show "defined r1 \<Longrightarrow> c2 = c1 \<and> caches_sound oc ms k1 \<and> caches_sound oc ms k2"
    by (cases r1) (auto simp: twin_states_def)
  show "module_set_is_signal_frame k1 ms (ctx_lookup_ip ctx) =
      module_set_is_signal_frame k2 ms (ctx_lookup_ip ctx)" if "r1 = Ok x"
    using t that \<open>r2 = r1\<close> by (auto simp: twin_states_def signal_frame_iff [of oc])
qed

section \<open>Both architectures\<close>

text \<open>What a step needs: sound caches, and a libunwind that asks about signal frames.\<close>

definition asking_sound :: "bool \<Rightarrow> 'c libunwind \<Rightarrow> module_set \<Rightarrow> cache_heap \<Rightarrow> bool" where
  "asking_sound oc lu ms h \<longleftrightarrow> caches_sound oc ms h \<and> signals_asked oc ms lu"

lemma signal_frame_no_info:
  assumes "caches_sound oc ms h" and "\<not> has_unwind_info ms ip"
  shows "module_set_is_signal_frame h ms ip = describes_signal_frame oc ms ip"
  using assms by (intro signal_frame_exact looked_up_no_info)

lemma x86_64_steps_alike:
  assumes "caches_sound oc (xu_modules u) h1" and "caches_sound oc (xu_modules u) h2"
    and "signals_asked oc (xu_modules u) lu"
  shows "steps_alike (caches_sound oc (xu_modules u)) (x86_64_is_signal_frame u f)
    (x86_64_unwind_frame oc lu rf u f (regs, s, h1)) (x86_64_unwind_frame oc lu rf u f (regs, s, h2))"
proof (cases "module_set_unwind_info_error (xu_modules u) (address_for_lookup f)")
  case (Some err)
  with assms show ?thesis by (simp add: steps_alike_def x86_64_unwind_frame_def)
next
  case None
  show ?thesis
  proof (cases "has_unwind_info (xu_modules u) (address_for_lookup f)")
    case False
    with None assms show ?thesis
      by (auto simp: steps_alike_def x86_64_unwind_frame_def x86_64_is_signal_frame_def
          signal_frame_no_info split: prod.split)
  next
    case True
    let ?acc = "\<lparr>acc_oc = oc, acc_read_fn = rf, acc_access_reg = x86_64_access_reg\<rparr>"
    let ?ctx = "\<lparr>ctx_modules = xu_modules u, ctx_regs = x86_64_from_public (address_for_lookup f) regs,
      ctx_lookup_ip = address_for_lookup f, ctx_reader = s, ctx_last_failed_read_addr = None,
      ctx_unwind_info_error = None\<rparr>"
    let ?step = "\<lambda>h. init_and_step ?acc lu x86_64_reg_ip [x86_64_UNW_REG_SP, UNW_X86_64_RBP] (?ctx, h)"
    obtain r1 c1 k1 r2 c2 k2 where st: "?step h1 = (r1, c1, k1)" "?step h2 = (r2, c2, k2)"
      by (metis prod.exhaust)
    note tw = unwind_steps_alike [where acc = ?acc and ctx = ?ctx, OF assms _ _ st, simplified]
    have f: "x86_64_unwind_frame oc lu rf u f (regs, s, h) =
        (case ?step h of (r, c, k) \<Rightarrow>
          (case x86_64_finish_step (xu_modules u) f regs k r (ctx_last_failed_read_addr c)
              (ctx_unwind_info_error c) of (r, regs) \<Rightarrow> (r, regs, ctx_reader c, k)))" for h
      using None True by (simp add: x86_64_unwind_frame_def Let_def)
    show ?thesis
    proof (cases r1)
      case (Ok x)
      with tw have eq: "r2 = Ok x" "c2 = c1" "caches_sound oc (xu_modules u) k1"
        "caches_sound oc (xu_modules u) k2"
        "module_set_is_signal_frame k2 (xu_modules u) (address_for_lookup f) =
          module_set_is_signal_frame k1 (xu_modules u) (address_for_lookup f)" by simp_all
      have "x86_64_finish_step (xu_modules u) f regs k2 y a b =
          x86_64_finish_step (xu_modules u) f regs k1 y a b" for y a b
        unfolding x86_64_finish_step_def eq(5) by (rule refl)
      with eq Ok show ?thesis
        by (auto simp: steps_alike_def f st x86_64_is_signal_frame_def split: prod.split)
    qed (use tw in \<open>auto simp: steps_alike_def f st x86_64_finish_step_def split: option.split\<close>)
  qed
qed

interpretation xci: cache_independent "x86_64_ops oc lu rf u" "asking_sound oc lu (xu_modules u)"
  for oc lu rf u
proof
  fix h1 h2 f regs s
  assume "asking_sound oc lu (xu_modules u) h1" "asking_sound oc lu (xu_modules u) h2"
  then show "steps_alike (asking_sound oc lu (xu_modules u)) (uw_is_signal_frame (x86_64_ops oc lu rf u) f)
      (uw_unwind_frame (x86_64_ops oc lu rf u) f (regs, s, h1))
      (uw_unwind_frame (x86_64_ops oc lu rf u) f (regs, s, h2))"
    using x86_64_steps_alike [of oc u h1 h2 lu f rf regs s]
    by (simp add: steps_alike_def asking_sound_def x86_64_ops_def)
qed

lemma aarch64_fallback_mask:
  "aarch64_fallback_unwind_frame rf ip regs s = (r, regs', s') \<Longrightarrow> ar_lr_mask regs' = ar_lr_mask regs"
  by (auto simp: aarch64_fallback_unwind_frame_def Let_def aarch64_set_fp_def aarch64_set_sp_def
      aarch64_set_lr_def split: if_splits option.splits prod.splits)

lemma aarch64_finish_mask:
  "aarch64_finish_step ms f regs h st a b = (r, regs') \<Longrightarrow> ar_lr_mask regs' = ar_lr_mask regs"
  by (auto simp: aarch64_finish_step_def Let_def aarch64_set_fp_def aarch64_set_sp_def
      aarch64_set_lr_def split: if_splits option.splits outcome.splits step_outcome.splits)

lemma aarch64_steps_alike:
  assumes "caches_sound oc (au_modules u) h1" and "caches_sound oc (au_modules u) h2"
    and "signals_asked oc (au_modules u) lu"
  shows "steps_alike (caches_sound oc (au_modules u)) (aarch64_is_signal_frame u f)
    (aarch64_unwind_frame oc lu rf u f (regs, s, h1)) (aarch64_unwind_frame oc lu rf u f (regs, s, h2))"
proof (cases "module_set_unwind_info_error (au_modules u)
    (strip_ptr_auth (ar_lr_mask regs) (address_for_lookup f))")
  case (Some err)
  with assms show ?thesis by (simp add: steps_alike_def aarch64_unwind_frame_def)
next
  case None
  let ?ip = "strip_ptr_auth (ar_lr_mask regs) (address_for_lookup f)"
  show ?thesis
  proof (cases "has_unwind_info (au_modules u) ?ip")
    case False
    with None assms show ?thesis
      by (auto simp: steps_alike_def aarch64_unwind_frame_def aarch64_is_signal_frame_def Let_def
          signal_frame_no_info dest: aarch64_fallback_mask split: prod.split)
  next
    case True
    let ?acc = "\<lparr>acc_oc = oc, acc_read_fn = rf, acc_access_reg = aarch64_access_reg\<rparr>"
    let ?ctx = "\<lparr>ctx_modules = au_modules u, ctx_regs = \<lparr>araw_pc = ?ip, araw_sp = ar_sp regs,
        araw_fp = ar_fp regs, araw_lr = ar_lr regs\<rparr>, ctx_lookup_ip = ?ip, ctx_reader = s,
      ctx_last_failed_read_addr = None, ctx_unwind_info_error = None\<rparr>"
    let ?step = "\<lambda>h. init_and_step ?acc lu aarch64_reg_ip
      [aarch64_UNW_REG_SP, UNW_AARCH64_X29, UNW_AARCH64_X30] (?ctx, h)"
    obtain r1 c1 k1 r2 c2 k2 where st: "?step h1 = (r1, c1, k1)" "?step h2 = (r2, c2, k2)"
      by (metis prod.exhaust)
    note tw = unwind_steps_alike [where acc = ?acc and ctx = ?ctx, OF assms _ _ st, simplified]
    have f: "aarch64_unwind_frame oc lu rf u f (regs, s, h) =
        (case ?step h of (r, c, k) \<Rightarrow>
          (case aarch64_finish_step (au_modules u) f regs k r (ctx_last_failed_read_addr c)
              (ctx_unwind_info_error c) of (r, regs) \<Rightarrow> (r, regs, ctx_reader c, k)))" for h
      using None True by (simp add: aarch64_unwind_frame_def Let_def)
    show ?thesis
    proof (cases r1)
      case (Ok x)
      with tw have eq: "r2 = Ok x" "c2 = c1" "caches_sound oc (au_modules u) k1"
        "caches_sound oc (au_modules u) k2"
        "module_set_is_signal_frame k2 (au_modules u) ?ip = module_set_is_signal_frame k1 (au_modules u) ?ip"
        by simp_all
      have "aarch64_finish_step (au_modules u) f regs k2 y a b =
          aarch64_finish_step (au_modules u) f regs k1 y a b" for y a b
        unfolding aarch64_finish_step_def Let_def eq(5) by (rule refl)
      with eq Ok show ?thesis
        by (auto simp: steps_alike_def f st aarch64_is_signal_frame_def dest: aarch64_finish_mask
            split: prod.split)
    qed (use tw in \<open>auto simp: steps_alike_def f st aarch64_finish_step_def Let_def split: option.split\<close>)
  qed
qed

interpretation aci: cache_independent "aarch64_ops oc lu rf u" "asking_sound oc lu (au_modules u)"
  for oc lu rf u
proof
  fix h1 h2 f regs s
  assume "asking_sound oc lu (au_modules u) h1" "asking_sound oc lu (au_modules u) h2"
  then show "steps_alike (asking_sound oc lu (au_modules u)) (uw_is_signal_frame (aarch64_ops oc lu rf u) f)
      (uw_unwind_frame (aarch64_ops oc lu rf u) f (regs, s, h1))
      (uw_unwind_frame (aarch64_ops oc lu rf u) f (regs, s, h2))"
    using aarch64_steps_alike [of oc u h1 h2 lu f rf regs s]
    by (simp add: steps_alike_def asking_sound_def aarch64_ops_def)
qed

section \<open>Sample caches\<close>

lemma sample_set_registered: "registered sample_set md \<longleftrightarrow> md = sample_module 0"
  by (auto simp: registered_def sample_set_def module_set_add_def module_set_new_def bt_values_def)

lemma sample_caches_sound:
  assumes "cache_sound oc (sample_module 0) cache"
  shows "caches_sound oc sample_set [Unlocked cache]"
proof -
  have "module_set_wf [Unlocked cache] sample_set"
    using sample_set_wf module_set_wf_length [of "[Unlocked cache]" "[Unlocked []]" sample_set] by simp
  with assms show ?thesis
    by (simp add: caches_sound_def sample_set_registered sample_consistent inj_on_def)
      (simp add: sample_module_def lock_cache_def)
qed

lemma sample_filled_sound: "cache_sound oc (sample_module 0) [(0x1000, sample_details)]"
proof -
  have "parse_function_details oc (sample_module 0) 0x1000 = Ok sample_details"
    by (simp add: sample_parse)
  from cache_sound_insert [OF sample_module_wf sample_consistent sample_cache_sound this, of "[Unlocked []]"] show ?thesis
    by (simp add: sample_details_def)
qed

section \<open>Properties\<close>

text \<open>C5: The function cache cannot be observed.  Start two walks of the same stack, with the
  same registers, memory and registry, but with different function caches, say an empty one and
  one filled by earlier walks.  Both return the same frames, of the same kind, and end in the
  same way, on either architecture and with any libunwind that, if the registry describes signal
  frames, asks for the function it unwinds in every step.\<close>

theorem unwinding_ignores_cache:
  assumes "caches_sound oc ms h" and "caches_sound oc ms h'" and "signals_asked oc ms lu"
  shows "drain (x86_64_ops oc lu rf \<lparr>xu_modules = ms\<rparr>) n (iter_frames pc (xregs, s, h)) =
      drain (x86_64_ops oc lu rf \<lparr>xu_modules = ms\<rparr>) n (iter_frames pc (xregs, s, h')) \<and>
    drain (aarch64_ops oc lu rf \<lparr>au_modules = ms\<rparr>) n (iter_frames pc (aregs, s, h)) =
      drain (aarch64_ops oc lu rf \<lparr>au_modules = ms\<rparr>) n (iter_frames pc (aregs, s, h'))"
proof -
  have a: "asking_sound oc lu ms h" "asking_sound oc lu ms h'"
    using assms by (simp_all add: asking_sound_def)
  show ?thesis
    unfolding iter_frames_def
    by (intro conjI xci.drain_alike aci.drain_alike) (simp_all add: a)
qed

theorem unwinding_ignores_cache_witness:
  "drain (x86_64_ops True sample_lu (mem_reader sample_stack) \<lparr>xu_modules = sample_set\<rparr>) 9
     (iter_frames 0x1008 (x86_64_sample_regs, (), [Unlocked []])) =
   drain (x86_64_ops True sample_lu (mem_reader sample_stack) \<lparr>xu_modules = sample_set\<rparr>) 9
     (iter_frames 0x1008 (x86_64_sample_regs, (), [Unlocked [(0x1000, sample_details)]]))"
  by (rule unwinding_ignores_cache [THEN conjunct1, OF sample_caches_sound [OF sample_cache_sound]
        sample_caches_sound [OF sample_filled_sound]])
    (simp add: signals_asked_def sample_lu_def)

end
