(* ===== verification/Cpp_Unwind_Bench.thy ===== *)
theory Cpp_Unwind_Bench
  imports Cache_Independence
begin

text \<open>
  \<open>examples/cpp_unwind_bench.rs\<close>: the driver that compiles three C++ workloads, lets each write a
  snapshot of its stack, and measures how fast that stack is unwound.

  The machine is a parameter (\<open>bench_host\<close>): environment, files, commands, the clock, and the
  \<open>object\<close> and \<open>memmap2\<close> crates.  So are the \<open>f64\<close> operations the timing uses, and the C++
  texts.  The state is the machine's world and the heap of function caches, which the walks of
  one module share.
\<close>

section \<open>Snapshots\<close>

definition SNAPSHOT_MAGIC :: u64 where
  "SNAPSHOT_MAGIC = 0x4c555742454e4348"

record snapshot =
  snap_ip :: u64
  snap_sp :: u64
  snap_bp :: u64
  snap_stack_start :: u64
  snap_stack :: bytes

text \<open>
  \<open>Box<dyn Error>\<close>: a message, or a boxed error of the unwinder, of the system, of the object
  parser or of the module constructor.
\<close>

datatype ('io, 'obj) bench_error =
    Message string
  | Boxed error
  | BoxedIo 'io
  | BoxedObject 'obj
  | BoxedMmap "('io, 'obj) mmap_module_error"

definition snapshot_read_u64 :: "bool \<Rightarrow> bytes \<Rightarrow> usize \<Rightarrow> (u64, ('io, 'obj) bench_error) outcome" where
  "snapshot_read_u64 oc bs off =
     and_then (usize_add oc off 8) (\<lambda>e.
     and_then (ok_or (slice_range bs off e) (Message ''missing u64'')) (\<lambda>s. Ok (u64_from_le s)))"

definition snapshot_read :: "bool \<Rightarrow> string \<Rightarrow> bytes \<Rightarrow> (snapshot, ('io, 'obj) bench_error) outcome" where
  "snapshot_read oc path bs =
     (if length bs < 48 then Err (Message (''snapshot '' @ path @ '' is truncated''))
      else
      and_then (snapshot_read_u64 oc bs 0) (\<lambda>magic.
      if magic \<noteq> SNAPSHOT_MAGIC then Err (Message (''snapshot '' @ path @ '' has bad magic''))
      else
      and_then (snapshot_read_u64 oc bs 8) (\<lambda>ip.
      and_then (snapshot_read_u64 oc bs 16) (\<lambda>sp.
      and_then (snapshot_read_u64 oc bs 24) (\<lambda>bp.
      and_then (snapshot_read_u64 oc bs 32) (\<lambda>stack_start.
      and_then (snapshot_read_u64 oc bs 40) (\<lambda>stack_len.
      and_then (ok_or (checked_add_usize 48 (unat stack_len)) (Message ''snapshot length overflow''))
        (\<lambda>stack_end.
      if length bs < stack_end then
        Err (Message (''snapshot '' @ path @ '' is missing stack bytes''))
      else
      and_then (slice_index bs 48 stack_end) (\<lambda>stack.
      Ok \<lparr>snap_ip = ip, snap_sp = sp, snap_bp = bp, snap_stack_start = stack_start,
          snap_stack = stack\<rparr>)))))))))"

definition snapshot_read_stack :: "snapshot \<Rightarrow> u64 \<Rightarrow> u64 option" where
  "snapshot_read_stack snap addr =
     (case checked_sub_u64 addr (snap_stack_start snap) of
        None \<Rightarrow> None
      | Some d \<Rightarrow>
          (case checked_add_usize (unat d) 8 of
             None \<Rightarrow> None
           | Some e \<Rightarrow> map_option u64_from_le (slice_range (snap_stack snap) (unat d) e)))"

section \<open>The load range\<close>

text \<open>The segments of an object, as pairs of address and size.\<close>

definition load_range_step :: "u64 \<times> u64 \<Rightarrow> u64 \<times> u64 \<Rightarrow> u64 \<times> u64" where
  "load_range_step segment = (\<lambda>(s, e).
     if snd segment = 0 then (s, e)
     else (min s (fst segment), max e (saturating_add_u64 (fst segment) (snd segment))))"

definition load_range :: "(u64 \<times> u64) list \<Rightarrow> (u64 \<times> u64) option" where
  "load_range segments =
     (case fold load_range_step segments (- 1, 0) of
        (s, e) \<Rightarrow> if s < e then Some (s, e) else None)"

section \<open>The unwinding loop\<close>

text \<open>The frames found, or the error, and the function caches afterwards.\<close>

function bench_unwind_loop ::
    "bool \<Rightarrow> 'c libunwind \<Rightarrow> unwinder_x86_64 \<Rightarrow> u64 \<times> u64 \<Rightarrow> snapshot \<Rightarrow> frame_address \<Rightarrow> nat \<Rightarrow>
     unit x86_64_world \<Rightarrow> (nat, ('io, 'obj) bench_error) outcome \<times> cache_heap" where
  "bench_unwind_loop oc lu u avma_range snap frame frames w =
     (case x86_64_unwind_frame oc lu (mem_reader (snapshot_read_stack snap)) u frame w of
        (Ok None, (regs, s, h)) \<Rightarrow> (Ok frames, h)
      | (Ok (Some next_ip), (regs, s, h)) \<Rightarrow>
          if \<not> (fst avma_range \<le> next_ip \<and> next_ip < snd avma_range) then (Ok frames, h)
          else
            let frames' = frames + 1;
                frame' = (case from_return_address next_ip of Some f \<Rightarrow> f
                          | None \<Rightarrow> InstructionPointer next_ip) in
            if frames' > 256 then (Err (Message ''unwind produced more than 256 in-module frames''), h)
            else bench_unwind_loop oc lu u avma_range snap frame' frames' (regs, s, h)
      | (Err e, (regs, s, h)) \<Rightarrow> (Err (Boxed e), h)
      | (Panic, (regs, s, h)) \<Rightarrow> (Panic, h)
      | (UB, (regs, s, h)) \<Rightarrow> (UB, h))"
  by pat_completeness auto
termination
  by (relation "measure (\<lambda>(oc, lu, u, avma_range, snap, frame, frames, w). 257 - frames)") auto

declare bench_unwind_loop.simps [simp del]

record loaded_module =
  lm_unwinder :: unwinder_x86_64
  lm_avma_range :: "u64 \<times> u64"

definition bench_unwind_stack ::
    "bool \<Rightarrow> 'c libunwind \<Rightarrow> loaded_module \<Rightarrow> snapshot \<Rightarrow> cache_heap \<Rightarrow>
     (nat, ('io, 'obj) bench_error) outcome \<times> cache_heap" where
  "bench_unwind_stack oc lu m snap h =
     (let regs = x86_64_regs_new (snap_ip snap) (snap_sp snap) (snap_bp snap) in
      bench_unwind_loop oc lu (lm_unwinder m) (lm_avma_range m) snap
        (from_instruction_pointer (snap_ip snap)) 1 (regs, (), h))"

section \<open>The machine\<close>

text \<open>
  Results are \<open>Inl\<close> a value or \<open>Inr\<close> the error, as for the file operations of \<open>Module\<close>.  A
  command that ran gives whether it succeeded and the text of its exit status.
\<close>

record ('w, 'fd, 'io, 'obj) bench_host =
  ph_var :: "string \<Rightarrow> string option"
  ph_create_dir_all :: "string \<Rightarrow> 'w \<Rightarrow> (unit + 'io) \<times> 'w"
  ph_write :: "string \<Rightarrow> string \<Rightarrow> 'w \<Rightarrow> (unit + 'io) \<times> 'w"
  ph_read :: "'w \<Rightarrow> string \<Rightarrow> bytes + 'io"
  ph_status :: "string \<Rightarrow> string list \<Rightarrow> 'w \<Rightarrow> (bool \<times> string + 'io) \<times> 'w"
  ph_open :: "'w \<Rightarrow> string \<Rightarrow> 'fd + 'io"
  ph_map :: "'fd \<Rightarrow> bytes + 'io"
  ph_parse :: "bytes \<Rightarrow> object_file + 'obj"
  ph_segments :: "object_file \<Rightarrow> (u64 \<times> u64) list"
  ph_now :: "'w \<Rightarrow> nat \<times> 'w"

record 'f f64_ops =
  fl_of_nat :: "nat \<Rightarrow> 'f"
  fl_div :: "'f \<Rightarrow> 'f \<Rightarrow> 'f"
  fl_show :: "nat \<Rightarrow> 'f \<Rightarrow> string"

text \<open>\<open>?\<close> on the result of a system call.\<close>

definition io_try :: "('a + 'io) \<times> 'w \<Rightarrow> cache_heap \<Rightarrow> ('a, ('io, 'obj) bench_error) outcome \<times> 'w \<times> cache_heap" where
  "io_try r h = (case r of (Inl x, w) \<Rightarrow> (Ok x, w, h) | (Inr e, w) \<Rightarrow> (Err (BoxedIo e), w, h))"

section \<open>Workloads\<close>

record workload =
  wl_name :: string
  wl_source_name :: string
  wl_body :: string

definition to_ascii_lowercase :: "char \<Rightarrow> char" where
  "to_ascii_lowercase c =
     (let n = of_char c :: nat in if 65 \<le> n \<and> n \<le> 90 then char_of (n + 32) else c)"

definition binary_name :: "string \<Rightarrow> string" where
  "binary_name name = map to_ascii_lowercase (map (\<lambda>c. if c = CHR '' '' then CHR ''-'' else c) name)"

definition compile_args :: "string \<Rightarrow> string \<Rightarrow> string list" where
  "compile_args source binary =
     [''-std=c++20'', ''-O2'', ''-g'', ''-fomit-frame-pointer'', ''-fno-pie'', ''-no-pie'',
      ''-fasynchronous-unwind-tables'', ''-fno-optimize-sibling-calls'', ''-pthread'',
      source, ''-o'', binary]"

definition compile_workload ::
    "('w, 'fd, 'io, 'obj) bench_host \<Rightarrow> string \<Rightarrow> string \<Rightarrow> string \<Rightarrow> workload \<Rightarrow> 'w \<times> cache_heap \<Rightarrow>
     (string, ('io, 'obj) bench_error) outcome \<times> 'w \<times> cache_heap" where
  "compile_workload host support root cxx wl = (\<lambda>(w, h).
     let source = path_join root (wl_source_name wl);
         binary = path_join root (binary_name (wl_name wl)) in
     seq_then (io_try (ph_write host source (support @ wl_body wl) w) h) (\<lambda>_ (w, h).
     seq_then (io_try (ph_status host cxx (compile_args source binary) w) h) (\<lambda>status st.
     if \<not> fst status then (Err (Message (''failed to compile '' @ wl_source_name wl)), st)
     else (Ok binary, st))))"

definition run_workload ::
    "('w, 'fd, 'io, 'obj) bench_host \<Rightarrow> string \<Rightarrow> string \<Rightarrow> 'w \<times> cache_heap \<Rightarrow>
     (unit, ('io, 'obj) bench_error) outcome \<times> 'w \<times> cache_heap" where
  "run_workload host binary snapshot_path = (\<lambda>(w, h).
     seq_then (io_try (ph_status host binary [snapshot_path] w) h) (\<lambda>status st.
     if \<not> fst status then (Err (Message (binary @ '' exited with '' @ snd status)), st)
     else (Ok (), st)))"

definition read_snapshot_file ::
    "bool \<Rightarrow> ('w, 'fd, 'io, 'obj) bench_host \<Rightarrow> string \<Rightarrow> 'w \<times> cache_heap \<Rightarrow>
     (snapshot, ('io, 'obj) bench_error) outcome \<times> 'w \<times> cache_heap" where
  "read_snapshot_file oc host path = (\<lambda>(w, h).
     seq_then (io_try (ph_read host w path, w) h) (\<lambda>bs st. (snapshot_read oc path bs, st)))"

definition load_module ::
    "bool \<Rightarrow> ('w, 'fd, 'io, 'obj) bench_host \<Rightarrow> string \<Rightarrow> 'w \<times> cache_heap \<Rightarrow>
     (loaded_module, ('io, 'obj) bench_error) outcome \<times> 'w \<times> cache_heap" where
  "load_module oc host binary = (\<lambda>(w, h).
     seq_then (io_try (ph_open host w binary, w) h) (\<lambda>file_for_range _.
     seq_then (io_try (ph_map host file_for_range, w) h) (\<lambda>mmap_for_range _.
     case ph_parse host mmap_for_range of
       Inr e \<Rightarrow> (Err (BoxedObject e), w, h)
     | Inl file \<Rightarrow>
     seq_then (ok_or (load_range (ph_segments host file))
         (Message ''binary has no loadable segments''), w, h) (\<lambda>avma_range _.
     seq_then (map_err BoxedMmap (try_from_mmap_file oc (ph_open host w) (ph_map host) (ph_parse host)
         binary avma_range 0 h), w, h) (\<lambda>(module, h') _.
     (Ok \<lparr>lm_unwinder = x86_64_add_module x86_64_unwinder_new module, lm_avma_range = avma_range\<rparr>,
      w, h'))))))"

section \<open>Timing\<close>

record 'f timing =
  tm_ns_per_unwind :: 'f
  tm_ns_per_frame :: 'f
  tm_frames_per_second :: 'f

text \<open>\<open>for _ in 0..n\<close>: unwind, and stop at an error.\<close>

primrec repeat_unwind ::
    "bool \<Rightarrow> 'c libunwind \<Rightarrow> loaded_module \<Rightarrow> snapshot \<Rightarrow> nat \<Rightarrow> cache_heap \<Rightarrow>
     (unit, ('io, 'obj) bench_error) outcome \<times> cache_heap" where
  "repeat_unwind oc lu m snap 0 h = (Ok (), h)"
| "repeat_unwind oc lu m snap (Suc n) h =
     seq_then (bench_unwind_stack oc lu m snap h) (\<lambda>_ h. repeat_unwind oc lu m snap n h)"

definition timing_of :: "'f f64_ops \<Rightarrow> nat \<Rightarrow> u64 \<Rightarrow> nat \<Rightarrow> 'f timing" where
  "timing_of fl elapsed iterations frames =
     (let ns_per_unwind = fl_div fl (fl_of_nat fl elapsed) (fl_of_nat fl (unat iterations));
          ns_per_frame = fl_div fl ns_per_unwind (fl_of_nat fl frames);
          frames_per_second = fl_div fl (fl_of_nat fl 1000000000) ns_per_frame in
      \<lparr>tm_ns_per_unwind = ns_per_unwind, tm_ns_per_frame = ns_per_frame,
       tm_frames_per_second = frames_per_second\<rparr>)"

text \<open>\<open>Instant::elapsed\<close> is 0 when the clock went backwards.\<close>

definition time_unwind ::
    "bool \<Rightarrow> 'c libunwind \<Rightarrow> ('w, 'fd, 'io, 'obj) bench_host \<Rightarrow> 'f f64_ops \<Rightarrow> loaded_module \<Rightarrow> snapshot \<Rightarrow>
     nat \<Rightarrow> u64 \<Rightarrow> 'w \<times> cache_heap \<Rightarrow> ('f timing, ('io, 'obj) bench_error) outcome \<times> 'w \<times> cache_heap" where
  "time_unwind oc lu host fl m snap frames iterations = (\<lambda>(w, h).
     seq_then (apsnd (Pair w) (repeat_unwind oc lu m snap (unat (min 1000 iterations)) h)) (\<lambda>_ (w, h).
     case ph_now host w of (start, w) \<Rightarrow>
     seq_then (apsnd (Pair w) (repeat_unwind oc lu m snap (unat iterations) h)) (\<lambda>_ (w, h).
     case ph_now host w of (stop, w) \<Rightarrow>
     (Ok (timing_of fl (stop - start) iterations frames), w, h))))"

section \<open>main\<close>

definition DEFAULT_ITERS :: u64 where
  "DEFAULT_ITERS = 20000"

record 'f bench_result =
  br_workload :: string
  br_frames :: nat
  br_iterations :: u64
  br_ns_per_unwind :: 'f
  br_ns_per_frame :: 'f
  br_frames_per_second :: 'f

definition line_out :: "string \<Rightarrow> string" where
  "line_out s = s @ [CHR 0x0A]"

definition markdown_row :: "'f f64_ops \<Rightarrow> 'f bench_result \<Rightarrow> string" where
  "markdown_row fl r =
     ''| '' @ br_workload r @ '' | '' @ fmt_dec (br_frames r) @ '' | '' @
     fmt_dec (unat (br_iterations r)) @ '' | '' @ fl_show fl 2 (br_ns_per_unwind r) @
     '' | '' @ fl_show fl 2 (br_ns_per_frame r) @ '' | '' @
     fl_show fl 0 (br_frames_per_second r) @ '' |''"

definition print_markdown :: "'f f64_ops \<Rightarrow> string \<Rightarrow> u64 \<Rightarrow> 'f bench_result list \<Rightarrow> string" where
  "print_markdown fl cxx iterations results = concat (map line_out
     ([''Generated with `'' @ cxx @ ''` and '' @ fmt_dec (unat iterations) @
         '' measured full-stack unwinds per workload.'' @ [CHR 0x0A],
       ''| workload | in-module frames | iterations | ns/full unwind | ns/frame | frames/s |'',
       ''| --- | ---: | ---: | ---: | ---: | ---: |''] @ map (markdown_row fl) results))"

definition is_digit :: "char \<Rightarrow> bool" where
  "is_digit c \<longleftrightarrow> (let n = of_char c :: nat in 48 \<le> n \<and> n \<le> 57)"

text \<open>\<open>str::parse::<u64>\<close>: an optional plus sign and decimal digits that fit.\<close>

definition parse_u64 :: "string \<Rightarrow> u64 option" where
  "parse_u64 s =
     (let ds = (if s \<noteq> [] \<and> hd s = CHR ''+'' then tl s else s);
          n = fold (\<lambda>c n. 10 * n + (of_char c - 48)) ds (0 :: nat) in
      if ds = [] \<or> \<not> list_all is_digit ds \<or> 2 ^ 64 \<le> n then None else Some (word_of_nat n))"

text \<open>The texts of the three workloads are arguments.\<close>

definition workloads :: "string \<Rightarrow> string \<Rightarrow> string \<Rightarrow> workload list" where
  "workloads template_recursion stl_sort virtual_dispatch =
     [\<lparr>wl_name = ''template recursion'', wl_source_name = ''template_recursion.cc'',
       wl_body = template_recursion\<rparr>,
      \<lparr>wl_name = ''STL sort comparator'', wl_source_name = ''stl_sort.cc'', wl_body = stl_sort\<rparr>,
      \<lparr>wl_name = ''virtual dispatch'', wl_source_name = ''virtual_dispatch.cc'',
       wl_body = virtual_dispatch\<rparr>]"

text \<open>The body of the loop of \<open>main\<close>, and the loop.\<close>

definition bench_workload ::
    "bool \<Rightarrow> 'c libunwind \<Rightarrow> ('w, 'fd, 'io, 'obj) bench_host \<Rightarrow> 'f f64_ops \<Rightarrow> string \<Rightarrow> string \<Rightarrow> string \<Rightarrow>
     u64 \<Rightarrow> workload \<Rightarrow> 'w \<times> cache_heap \<Rightarrow>
     ('f bench_result, ('io, 'obj) bench_error) outcome \<times> 'w \<times> cache_heap" where
  "bench_workload oc lu host fl support root cxx iterations wl st =
     seq_then (compile_workload host support root cxx wl st) (\<lambda>binary st.
     let snapshot_path = path_join root (binary_name (wl_name wl) @ ''.snapshot'') in
     seq_then (run_workload host binary snapshot_path st) (\<lambda>_ st.
     seq_then (read_snapshot_file oc host snapshot_path st) (\<lambda>snap st.
     seq_then (load_module oc host binary st) (\<lambda>m (w, h).
     seq_then (apsnd (Pair w) (bench_unwind_stack oc lu m snap h)) (\<lambda>frames st.
     seq_then (time_unwind oc lu host fl m snap frames iterations st) (\<lambda>timing st.
     (Ok \<lparr>br_workload = wl_name wl, br_frames = frames, br_iterations = iterations,
          br_ns_per_unwind = tm_ns_per_unwind timing, br_ns_per_frame = tm_ns_per_frame timing,
          br_frames_per_second = tm_frames_per_second timing\<rparr>, st)))))))"

primrec bench_all ::
    "bool \<Rightarrow> 'c libunwind \<Rightarrow> ('w, 'fd, 'io, 'obj) bench_host \<Rightarrow> 'f f64_ops \<Rightarrow> string \<Rightarrow> string \<Rightarrow> string \<Rightarrow>
     u64 \<Rightarrow> workload list \<Rightarrow> 'w \<times> cache_heap \<Rightarrow>
     ('f bench_result list, ('io, 'obj) bench_error) outcome \<times> 'w \<times> cache_heap" where
  "bench_all oc lu host fl support root cxx iterations [] st = (Ok [], st)"
| "bench_all oc lu host fl support root cxx iterations (wl # wls) st =
     seq_then (bench_workload oc lu host fl support root cxx iterations wl st) (\<lambda>r st.
     seq_then (bench_all oc lu host fl support root cxx iterations wls st) (\<lambda>rs st. (Ok (r # rs), st)))"

text \<open>What \<open>main\<close> prints, or the error it returns; \<open>manifest_dir\<close> is fixed at compile time.\<close>

definition bench_main ::
    "bool \<Rightarrow> 'c libunwind \<Rightarrow> ('w, 'fd, 'io, 'obj) bench_host \<Rightarrow> 'f f64_ops \<Rightarrow> string \<Rightarrow> string \<Rightarrow>
     string \<Rightarrow> string \<Rightarrow> string \<Rightarrow> 'w \<times> cache_heap \<Rightarrow> (string, ('io, 'obj) bench_error) outcome \<times> 'w \<times> cache_heap" where
  "bench_main oc lu host fl manifest_dir support template_recursion stl_sort virtual_dispatch = (\<lambda>(w, h).
     let root = path_join (path_join manifest_dir ''target'') ''cpp-unwind-bench'' in
     seq_then (io_try (ph_create_dir_all host root w) h) (\<lambda>_ st.
     let cxx = (case ph_var host ''CXX'' of Some v \<Rightarrow> v | None \<Rightarrow> ''c++'');
         iterations = (case Option.bind (ph_var host ''LIBUNWINDER_CPP_BENCH_ITERS'') parse_u64 of
           Some n \<Rightarrow> n | None \<Rightarrow> DEFAULT_ITERS) in
     seq_then (bench_all oc lu host fl support root cxx iterations
         (workloads template_recursion stl_sort virtual_dispatch) st) (\<lambda>results st.
     (Ok (print_markdown fl cxx iterations results), st))))"

section \<open>Lemmas\<close>

lemma snapshot_read_u64_Ok:
  "off + 8 \<le> length bs \<Longrightarrow> length bs < usize_limit \<Longrightarrow>
     snapshot_read_u64 oc bs off = Ok (u64_from_le (take 8 (drop off bs)))"
  by (simp add: snapshot_read_u64_def slice_range_def)

section \<open>The snapshot writer\<close>

text \<open>
  \<open>libunwinder_take_snapshot\<close> of the C++ text every workload starts with: from the registers and
  the top of the thread's stack, the stack from the stack pointer, aligned down to a word, up
  to its top; it aborts when the pointer is not below the top.
\<close>

definition take_snapshot :: "u64 \<Rightarrow> u64 \<Rightarrow> u64 \<Rightarrow> u64 \<Rightarrow> (u64 \<Rightarrow> u8) \<Rightarrow> snapshot option" where
  "take_snapshot ip sp bp stack_high mem =
     (let sp = sp AND NOT 7 in
      if sp \<ge> stack_high then None
      else Some \<lparr>snap_ip = ip, snap_sp = sp, snap_bp = bp, snap_stack_start = sp,
        snap_stack = map (\<lambda>i. mem (sp + word_of_nat i)) [0..<unat (stack_high - sp)]\<rparr>)"

text \<open>The file it writes: the header and the stack bytes.\<close>

definition encode_snapshot :: "snapshot \<Rightarrow> bytes" where
  "encode_snapshot snap =
     concat (map (\<lambda>v. to_le 8 (unat v))
       [SNAPSHOT_MAGIC, snap_ip snap, snap_sp snap, snap_bp snap, snap_stack_start snap,
        word_of_nat (length (snap_stack snap))]) @ snap_stack snap"

lemma u64_from_to_le: "u64_from_le (to_le 8 (unat v)) = v"
  by (simp add: u64_from_le_def le_nat_to_le)

lemma unat_from_to_le: "n < usize_limit \<Longrightarrow> unat (u64_from_le (to_le 8 n)) = n"
  by (simp add: u64_from_le_def le_nat_to_le)

lemma length_encode_snapshot: "length (encode_snapshot snap) = 48 + length (snap_stack snap)"
  by (simp add: encode_snapshot_def)

text \<open>The stack reader serves exactly the words that lie inside the snapshot.\<close>

lemma snapshot_read_stack_iff:
  assumes "length (snap_stack snap) < usize_limit"
  shows "snapshot_read_stack snap addr = Some v \<longleftrightarrow>
    snap_stack_start snap \<le> addr \<and>
    unat (addr - snap_stack_start snap) + 8 \<le> length (snap_stack snap) \<and>
    v = u64_from_le (take 8 (drop (unat (addr - snap_stack_start snap)) (snap_stack snap)))"
  using assms
  by (auto simp: snapshot_read_stack_def checked_sub_u64_def checked_add_usize_def slice_range_def)

lemma snapshot_read_encode:
  assumes len: "48 + length (snap_stack snap) < usize_limit"
  shows "snapshot_read oc path (encode_snapshot snap) = Ok snap"
proof -
  have read: "snapshot_read_u64 oc (encode_snapshot snap) off =
      Ok (u64_from_le (take 8 (drop off (encode_snapshot snap))))" if "off \<le> 40" for off
    using that len by (intro snapshot_read_u64_Ok) (simp_all add: length_encode_snapshot)
  have words: "map (\<lambda>i. take 8 (drop (8 * i) (encode_snapshot snap))) [0, 1, 2, 3, 4, 5] =
      map (\<lambda>v. to_le 8 (unat v)) [SNAPSHOT_MAGIC, snap_ip snap, snap_sp snap, snap_bp snap,
        snap_stack_start snap, word_of_nat (length (snap_stack snap))]"
    by (simp add: encode_snapshot_def)
  have stack: "drop 48 (encode_snapshot snap) = snap_stack snap"
    by (simp add: encode_snapshot_def)
  show ?thesis
    using words len
    by (simp add: snapshot_read_def read u64_from_to_le unat_from_to_le length_encode_snapshot
        checked_add_usize_def slice_index_def slice_range_def stack)
qed

lemma take_drop_map_upt:
  "d + k \<le> n \<Longrightarrow> take k (drop d (map f [0..<n])) = map (\<lambda>i. f (d + i)) [0..<k]"
  by (rule nth_equalityI) auto

lemma taken_stack_word:
  assumes t: "take_snapshot ip sp bp stack_high mem = Some snap" and "length (snap_stack snap) < usize_limit"
  shows "snapshot_read_stack snap addr =
    (if sp AND NOT 7 \<le> addr \<and> unat addr + 8 \<le> unat stack_high
     then Some (u64_from_le (map (\<lambda>i. mem (addr + word_of_nat i)) [0..<8])) else None)"
proof -
  define p where "p = sp AND NOT 7"
  have hi: "p < stack_high" and snap: "snap_stack_start snap = p"
    "snap_stack snap = map (\<lambda>i. mem (p + word_of_nat i)) [0..<unat (stack_high - p)]"
    using t by (auto simp: take_snapshot_def Let_def p_def split: if_splits)
  have sub: "unat (a - p) = unat a - unat p" if "p \<le> a" for a
    using that by (simp add: unat_sub)
  have room: "unat (addr - p) + 8 \<le> unat (stack_high - p) \<longleftrightarrow> unat addr + 8 \<le> unat stack_high"
    if "p \<le> addr"
    using that hi sub [of addr] sub [of stack_high] by (auto simp: word_le_nat_alt word_less_nat_alt)
  have word: "take 8 (drop (unat (addr - p)) (snap_stack snap)) =
      map (\<lambda>i. mem (addr + word_of_nat i)) [0..<8]"
    if "unat (addr - p) + 8 \<le> unat (stack_high - p)"
    unfolding snap(2) take_drop_map_upt [OF that] by (simp add: algebra_simps)
  have "snapshot_read_stack snap addr =
    (if p \<le> addr \<and> unat addr + 8 \<le> unat stack_high
     then Some (u64_from_le (map (\<lambda>i. mem (addr + word_of_nat i)) [0..<8])) else None)" (is ?goal)
  proof (cases "p \<le> addr \<and> unat addr + 8 \<le> unat stack_high")
    case True
    with room word show ?goal
      by (simp add: snapshot_read_stack_iff [OF assms(2)] snap)
  next
    case False
    have "snapshot_read_stack snap addr \<noteq> Some v" for v
      using False room by (auto simp: snapshot_read_stack_iff [OF assms(2)] snap)
    then have "snapshot_read_stack snap addr = None" by blast
    with False show ?goal by simp
  qed
  then show ?thesis unfolding p_def .
qed

lemma load_range_fold:
  assumes "fold load_range_step segments (s, e) = (s', e')"
  shows "s' \<le> s \<and> e \<le> e' \<and> (\<forall>(a, sz) \<in> set segments. sz \<noteq> 0 \<longrightarrow>
    s' \<le> a \<and> saturating_add_u64 a sz \<le> e')"
  using assms
proof (induction segments arbitrary: s e)
  case Nil
  then show ?case by simp
next
  case (Cons seg segments)
  obtain s1 e1 where one: "load_range_step seg (s, e) = (s1, e1)" by fastforce
  with Cons.prems have "fold load_range_step segments (s1, e1) = (s', e')" by simp
  from Cons.IH [OF this] one show ?case
    by (cases seg) (auto simp: load_range_step_def split: if_splits)
qed

lemma load_range_covers:
  assumes "load_range segments = Some (s, e)" and "(a, sz) \<in> set segments" and "sz \<noteq> 0"
  shows "s \<le> a \<and> saturating_add_u64 a sz \<le> e"
  using assms load_range_fold [of segments "- 1" 0 s e]
  by (auto simp: load_range_def split: prod.splits if_splits)

text \<open>One round of the loop: it goes on with the next frame, or it stops.\<close>

definition goes_on :: "u64 \<times> u64 \<Rightarrow> nat \<Rightarrow> (u64 option, error) outcome \<Rightarrow> u64 \<Rightarrow> bool" where
  "goes_on r n x ip \<longleftrightarrow> x = Ok (Some ip) \<and> fst r \<le> ip \<and> ip < snd r \<and> n < 256"

definition bench_frame :: "u64 \<Rightarrow> frame_address" where
  "bench_frame ip = (case from_return_address ip of Some f \<Rightarrow> f | None \<Rightarrow> InstructionPointer ip)"

definition bench_stop ::
    "u64 \<times> u64 \<Rightarrow> nat \<Rightarrow> (u64 option, error) outcome \<Rightarrow> (nat, ('io, 'obj) bench_error) outcome" where
  "bench_stop r n x =
     (case x of
        Ok None \<Rightarrow> Ok n
      | Ok (Some ip) \<Rightarrow>
          if fst r \<le> ip \<and> ip < snd r then Err (Message ''unwind produced more than 256 in-module frames'')
          else Ok n
      | Err e \<Rightarrow> Err (Boxed e)
      | Panic \<Rightarrow> Panic
      | UB \<Rightarrow> UB)"

lemma bench_stop_simps [simp]:
  "panic_only b (bench_stop r n x) \<longleftrightarrow> panic_only b x"
  "defined (bench_stop r n x) \<longleftrightarrow> defined x"
  by (cases x; auto simp: bench_stop_def split: option.splits)+

lemma bench_stop_Ok: "bench_stop r n x = Ok k \<Longrightarrow> k = n"
  by (cases x) (auto simp: bench_stop_def split: option.splits if_splits)

abbreviation bench_step ::
    "bool \<Rightarrow> 'c libunwind \<Rightarrow> unwinder_x86_64 \<Rightarrow> snapshot \<Rightarrow> frame_address \<Rightarrow> unit x86_64_world \<Rightarrow>
     (u64 option, error) outcome \<times> unit x86_64_world" where
  "bench_step oc lu u snap \<equiv> x86_64_unwind_frame oc lu (mem_reader (snapshot_read_stack snap)) u"

lemma bench_loop_goes_on:
  assumes "bench_step oc lu u snap f w = (x, w')" and "goes_on r n x ip"
  shows "bench_unwind_loop oc lu u r snap f n w = bench_unwind_loop oc lu u r snap (bench_frame ip) (n + 1) w'"
  using assms
  by (cases w') (auto simp: bench_unwind_loop.simps [of oc lu u r snap f n w] goes_on_def bench_frame_def Let_def)

lemma bench_loop_stops:
  assumes "bench_step oc lu u snap f w = (x, regs, s, h)" and "\<nexists>ip. goes_on r n x ip"
  shows "bench_unwind_loop oc lu u r snap f n w = (bench_stop r n x, h)"
  using assms
  by (cases x) (auto simp: bench_unwind_loop.simps [of oc lu u r snap f n w] goes_on_def bench_stop_def Let_def
      split: option.splits)

lemma bench_unwind_loop_bounds:
  "n \<le> 256 \<Longrightarrow> bench_unwind_loop oc lu u r snap f n w = (Ok k, h) \<Longrightarrow> n \<le> k \<and> k \<le> 256"
proof (induction "256 - n" arbitrary: n f w rule: less_induct)
  case less
  obtain x regs s h' where step: "bench_step oc lu u snap f w = (x, regs, s, h')" by (metis prod.exhaust)
  show ?case
  proof (cases "\<exists>ip. goes_on r n x ip")
    case True
    then obtain ip where ip: "goes_on r n x ip" ..
    then have n: "256 - (n + 1) < 256 - n" "n + 1 \<le> 256" by (auto simp: goes_on_def)
    from less.hyps [OF n less.prems(2) [unfolded bench_loop_goes_on [OF step ip]]] show ?thesis by simp
  next
    case False
    from less.prems(2) [unfolded bench_loop_stops [OF step False]] less.prems(1)
    show ?thesis by (auto dest: bench_stop_Ok)
  qed
qed

lemma bench_unwind_stack_bounds:
  assumes "bench_unwind_stack oc lu m snap h = (Ok k, h')"
  shows "1 \<le> k \<and> k \<le> 256"
  using assms unfolding bench_unwind_stack_def Let_def by (rule bench_unwind_loop_bounds [rotated]) simp

lemma bench_unwind_loop_safe:
  "x86_64_inv lu u w \<Longrightarrow> panic_only oc (fst (bench_unwind_loop oc lu u r snap f n w))"
proof (induction "256 - n" arbitrary: n f w rule: less_induct)
  case less
  obtain x regs s h where step: "bench_step oc lu u snap f w = (x, regs, s, h)" by (metis prod.exhaust)
  have st: "settles oc (x86_64_inv lu u) (x, regs, s, h)"
    using x86_64_unwind_settles [OF less.prems, of oc "mem_reader (snapshot_read_stack snap)" f] step by simp
  show ?case
  proof (cases "\<exists>ip. goes_on r n x ip")
    case True
    then obtain ip where ip: "goes_on r n x ip" ..
    with st have n: "256 - (n + 1) < 256 - n" "x86_64_inv lu u (regs, s, h)" by (auto simp: goes_on_def)
    show ?thesis
      unfolding bench_loop_goes_on [OF step ip] by (rule less.hyps [OF n])
  next
    case False
    show ?thesis unfolding bench_loop_stops [OF step False] using st by (simp add: settles_def)
  qed
qed

text \<open>Two walks that differ in the function caches find the same number of frames.\<close>

lemma bench_unwind_loop_alike:
  assumes asked: "signals_asked oc (xu_modules u) lu"
  shows "caches_sound oc (xu_modules u) h1 \<Longrightarrow> caches_sound oc (xu_modules u) h2 \<Longrightarrow>
    bench_unwind_loop oc lu u r snap f n (regs, s, h1) = (x1 :: (nat, ('io, 'obj) bench_error) outcome, k1) \<Longrightarrow>
    bench_unwind_loop oc lu u r snap f n (regs, s, h2) = (x2, k2) \<Longrightarrow>
    x2 = x1 \<and> (defined x1 \<longrightarrow> caches_sound oc (xu_modules u) k1 \<and> caches_sound oc (xu_modules u) k2)"
proof (induction "256 - n" arbitrary: n f regs s h1 h2 rule: less_induct)
  case less
  obtain y1 regs1 s1 h1' y2 regs2 s2 h2' where
    step: "bench_step oc lu u snap f (regs, s, h1) = (y1, regs1, s1, h1')"
      "bench_step oc lu u snap f (regs, s, h2) = (y2, regs2, s2, h2')" by (metis prod.exhaust)
  have a: "y2 = y1" "defined y1 \<Longrightarrow> regs2 = regs1 \<and> s2 = s1 \<and> caches_sound oc (xu_modules u) h1' \<and>
      caches_sound oc (xu_modules u) h2'"
    using x86_64_steps_alike [OF less.prems(1,2) asked, of f "mem_reader (snapshot_read_stack snap)" regs s] step
    by (auto simp: steps_alike_def)
  show ?case
  proof (cases "\<exists>ip. goes_on r n y1 ip")
    case True
    then obtain ip where ip: "goes_on r n y1 ip" ..
    then have n: "256 - (n + 1) < 256 - n" and d: "defined y1" by (auto simp: goes_on_def)
    note eq = a(2) [OF d]
    have ip2: "goes_on r n y2 ip" using ip a(1) by simp
    show ?thesis
      by (rule less.hyps [OF n _ _ less.prems(3) [unfolded bench_loop_goes_on [OF step(1) ip]]])
        (use eq less.prems(4) [unfolded bench_loop_goes_on [OF step(2) ip2]] in simp_all)
  next
    case False
    then have False2: "\<nexists>ip. goes_on r n y2 ip" using a(1) by simp
    from less.prems(3) [unfolded bench_loop_stops [OF step(1) False]]
      less.prems(4) [unfolded bench_loop_stops [OF step(2) False2]] a
    show ?thesis by auto
  qed
qed

lemma bench_unwind_stack_alike:
  assumes "signals_asked oc (xu_modules (lm_unwinder m)) lu" and "caches_sound oc (xu_modules (lm_unwinder m)) h1"
    and "caches_sound oc (xu_modules (lm_unwinder m)) h2"
    and "bench_unwind_stack oc lu m snap h1 = (Ok frames :: (nat, ('io, 'obj) bench_error) outcome, k1)"
  obtains k2 where
    "bench_unwind_stack oc lu m snap h2 = (Ok frames :: (nat, ('io, 'obj) bench_error) outcome, k2)" and "caches_sound oc (xu_modules (lm_unwinder m)) k1" and "caches_sound oc (xu_modules (lm_unwinder m)) k2"
proof -
  obtain x :: "(nat, ('io, 'obj) bench_error) outcome" and k2
    where s: "bench_unwind_stack oc lu m snap h2 = (x, k2)" by fastforce
  from bench_unwind_loop_alike [OF assms(1-3)
      assms(4) [unfolded bench_unwind_stack_def Let_def] s [unfolded bench_unwind_stack_def Let_def]]
  show ?thesis using that [of k2] s by simp
qed

lemma repeat_unwind_alike:
  assumes "signals_asked oc (xu_modules (lm_unwinder m)) lu" and "bench_unwind_stack oc lu m snap h0 = (Ok frames :: (nat, ('io, 'obj) bench_error) outcome, h1)"
    and "caches_sound oc (xu_modules (lm_unwinder m)) h0"
  shows "caches_sound oc (xu_modules (lm_unwinder m)) h \<Longrightarrow>
    \<exists>h'. repeat_unwind oc lu m snap n h = (Ok () :: (unit, ('io, 'obj) bench_error) outcome, h') \<and> caches_sound oc (xu_modules (lm_unwinder m)) h'"
proof (induction n arbitrary: h)
  case (Suc n)
  obtain k where "bench_unwind_stack oc lu m snap h = (Ok frames :: (nat, ('io, 'obj) bench_error) outcome, k)"
    "caches_sound oc (xu_modules (lm_unwinder m)) k"
    using bench_unwind_stack_alike [OF assms(1,3) Suc.prems assms(2)] by blast
  with Suc.IH [of k] show ?case by (simp add: seq_then_def)
qed simp

text \<open>A table is printed only when every step of every workload succeeded.\<close>

lemma seq_then_OkE:
  assumes "seq_then r f = (Ok y, w)"
  obtains x w' where "r = (Ok x, w')" and "f x w' = (Ok y, w)"
  using assms by (cases r; cases "fst r") (auto simp: seq_then_def)

lemma apsnd_Pair_eq: "apsnd (Pair w) p = (x, w', h) \<longleftrightarrow> p = (x, h) \<and> w' = w"
  by (cases p) auto

lemma bench_workload_Ok:
  assumes "bench_workload oc lu host fl support root cxx iterations wl st = (Ok r, st')"
  shows "br_workload r = wl_name wl \<and> br_iterations r = iterations \<and> 1 \<le> br_frames r \<and> br_frames r \<le> 256"
  using assms
  by (auto simp: bench_workload_def Let_def apsnd_Pair_eq split: prod.splits elim!: seq_then_OkE
      dest!: bench_unwind_stack_bounds)

lemma bench_all_Ok:
  assumes "bench_all oc lu host fl support root cxx iterations wls st = (Ok rs, st')"
  shows "map br_workload rs = map wl_name wls \<and>
    (\<forall>r \<in> set rs. br_iterations r = iterations \<and> 1 \<le> br_frames r \<and> br_frames r \<le> 256)"
  using assms
proof (induction wls arbitrary: st rs st')
  case (Cons wl wls)
  from Cons.prems obtain r st1 rs' st2 where
    r: "bench_workload oc lu host fl support root cxx iterations wl st = (Ok r, st1)"
    and rs: "bench_all oc lu host fl support root cxx iterations wls st1 = (Ok rs', st2)" "rs = r # rs'"
    by (auto elim!: seq_then_OkE)
  from bench_workload_Ok [OF r] Cons.IH [OF rs(1)] rs(2) show ?case by auto
qed simp

lemma bench_main_Ok:
  assumes "bench_main oc lu host fl dir support t s v st = (Ok out, st')"
  obtains cxx iterations rs where "out = print_markdown fl cxx iterations rs"
    and "map br_workload rs = [''template recursion'', ''STL sort comparator'', ''virtual dispatch'']"
    and "\<forall>r \<in> set rs. br_iterations r = iterations \<and> 1 \<le> br_frames r \<and> br_frames r \<le> 256"
proof -
  have names: "map wl_name (workloads t s v) =
      [''template recursion'', ''STL sort comparator'', ''virtual dispatch'']"
    by (simp add: workloads_def)
  from assms obtain root cxx iterations rs st1 st2 where
    "bench_all oc lu host fl support root cxx iterations (workloads t s v) st1 = (Ok rs, st2)"
    and "out = print_markdown fl cxx iterations rs"
    unfolding bench_main_def Let_def by (auto split: prod.splits elim!: seq_then_OkE)
  with bench_all_Ok [of oc lu host fl support root cxx iterations "workloads t s v" st1 rs st2] names that
  show ?thesis by simp
qed

section \<open>Properties\<close>

definition sample_snapshot :: snapshot where
  "sample_snapshot = \<lparr>snap_ip = 0x401000, snap_sp = 0x6ff0, snap_bp = 0x7000,
     snap_stack_start = 0x6ff0, snap_stack = replicate 64 0\<rparr>"

definition sample_loaded :: loaded_module where
  "sample_loaded = \<lparr>lm_unwinder = \<lparr>xu_modules = sample_set\<rparr>, lm_avma_range = (0x1000, 0x2000)\<rparr>"

text \<open>A machine with a clock that advances by five, on which nothing else works.\<close>

definition sample_bench_host :: "(nat, unit, unit, unit) bench_host" where
  "sample_bench_host = \<lparr>ph_var = (\<lambda>_. None), ph_create_dir_all = (\<lambda>_ w. (Inr (), w)),
     ph_write = (\<lambda>_ _ w. (Inr (), w)), ph_read = (\<lambda>_ _. Inr ()), ph_status = (\<lambda>_ _ w. (Inr (), w)),
     ph_open = (\<lambda>_ _. Inr ()), ph_map = (\<lambda>_. Inr ()), ph_parse = (\<lambda>_. Inr ()), ph_segments = (\<lambda>_. []),
     ph_now = (\<lambda>w. (w, w + 5))\<rparr>"

definition sample_f64 :: "nat f64_ops" where
  "sample_f64 = \<lparr>fl_of_nat = id, fl_div = (div), fl_show = (\<lambda>_. fmt_dec)\<rparr>"

lemma le_nat_zeros: "le_nat (replicate n 0) = 0"
  by (induction n) simp_all

text \<open>
  A library that steps over frames of one word each: it reads the stack pointer when it starts,
  asks for the function of the frame and takes the word at the stack pointer for the return
  address; the snapshot holds two frames of the sample module.
\<close>

definition walk_lu :: "(u64 \<times> u64) libunwind" where
  "walk_lu = \<lparr>lu_create_addr_space_ok = True,
     lu_init_remote = UAccessReg UNW_X86_64_RSP 0 0 (\<lambda>(status, sp). UDone (status, sp, 0)),
     lu_step = (\<lambda>(sp, ip). UGetDynInfo (\<lambda>dyn. if 0 \<le> dyn then UDone (dyn, sp, ip)
        else UFindProcInfo sample_pi (\<lambda>(status, pinfo).
        if status < 0 then UDone (status, sp, ip)
        else UAccessMem sp 0 0 (\<lambda>(status, ra). UPutUnwindInfo (\<lambda>_.
          UDone (if status < 0 then status else if ra = 0 then 0 else 1, sp + 8, ra)))))),
     lu_get_reg = (\<lambda>(sp, ip) reg. UDone (0, if reg = UNW_X86_64_RIP then ip else sp, sp, ip))\<rparr>"

definition walk_snapshot :: snapshot where
  "walk_snapshot = \<lparr>snap_ip = 0x1008, snap_sp = 0x7000, snap_bp = 0, snap_stack_start = 0x7000,
     snap_stack = [0x05, 0x10, 0, 0, 0, 0, 0, 0] @ replicate 8 0\<rparr>"

lemma walk_reads:
  "snapshot_read_stack walk_snapshot 0x7000 = Some 0x1005" "snapshot_read_stack walk_snapshot 0x7008 = Some 0"
  by (simp_all add: snapshot_read_stack_def walk_snapshot_def checked_sub_u64_def checked_add_usize_def
      slice_range_def u64_from_le_def le_nat_zeros)

lemma walk_modules:
  assumes "0x1000 \<le> a" and "a < 0x2000"
  shows "find_module sample_set a = Some (sample_module 0)"
  using find_module_complete [OF sample_set_wf sample_set_disjoint sample_registered] assms
  by (simp add: sample_module_def)

lemma walk_lookups:
  "get_or_parse_function_details True [Unlocked []] (sample_module 0) 0x1008 =
     (Ok sample_details, [Unlocked [(0x1000, sample_details)]])"
  "get_or_parse_function_details True [Unlocked [(0x1000, sample_details)]] (sample_module 0) 0x1004 =
     (Ok sample_details, [Unlocked [(0x1000, sample_details)]])"
proof -
  have c: "md_function_cache (sample_module 0) = 0" by (simp add: sample_module_def)
  show "get_or_parse_function_details True [Unlocked []] (sample_module 0) 0x1008 =
     (Ok sample_details, [Unlocked [(0x1000, sample_details)]])"
    by (simp add: get_or_parse_function_details_def c lock_cache_def cache_hit_def sample_parse)
      (simp add: sample_details_def)
  show "get_or_parse_function_details True [Unlocked [(0x1000, sample_details)]] (sample_module 0) 0x1004 =
     (Ok sample_details, [Unlocked [(0x1000, sample_details)]])"
    by (simp add: get_or_parse_function_details_def c lock_cache_def cache_hit_def)
      (simp add: sample_details_def)
qed

lemma walk_local: "lookup_local sample_set 0x7000 = None" "lookup_local sample_set 0x7008 = None"
  by (simp_all add: lookup_local_def sample_set_def module_set_add_def module_set_new_def
      insert_redirects_def sample_module_def local_section_of_def saturating_add_u64_def
      sample_eh_frame_def sample_hdr_def encode_hdr_def Let_def)

text \<open>One step of this library from a frame of the sample module whose function the lookup finds.\<close>

lemma walk_step:
  assumes ip: "0x1000 \<le> address_for_lookup f" "address_for_lookup f < 0x2000"
    and g: "get_or_parse_function_details True h (sample_module 0) (address_for_lookup f) = (Ok d, h')"
    and sp: "x86_64_get_if_set regs RSP = Some sp" "x86_64_regs_ok regs"
    and rd: "lookup_local sample_set sp = None" "snapshot_read_stack walk_snapshot sp = Some ra"
  shows "init_and_step (x86_64_acc True (mem_reader (snapshot_read_stack walk_snapshot))) walk_lu x86_64_reg_ip
      [x86_64_UNW_REG_SP, UNW_X86_64_RBP] (x86_64_ctx \<lparr>xu_modules = sample_set\<rparr> f regs (), h) =
    (Ok (if ra = 0 then EndOfStack else Stepped ra [sp + 8, sp + 8, 0, 0]),
     x86_64_ctx \<lparr>xu_modules = sample_set\<rparr> f regs (), h')"
proof -
  have reg: "x86_64_access_reg (x86_64_from_public ip regs) 7 val 0 =
      (0, sp, x86_64_from_public ip regs)" for ip val
    using x86_64_access_public [OF sp(2), of ip RSP val] sp(1) by (simp add: UNW_ESUCCESS_def)
  show ?thesis
    by (simp add: init_and_step_def walk_lu_def x86_64_acc_def x86_64_ctx_def callback_access_reg_def reg
        find_proc_info_def walk_modules [OF ip] g access_mem_def rd mem_reader_def put_unwind_info_def
        get_dyn_info_list_addr_def seq_then_def reg_number_defs unw_code_defs Let_def)
qed

text \<open>The walk: a libunwind step out of the leaf with a cold cache, then one with a warm one that ends.\<close>

lemma walk_unwind:
  "bench_unwind_stack True walk_lu sample_loaded walk_snapshot [Unlocked []] =
     (Ok 2 :: (nat, (unit, unit) bench_error) outcome, [Unlocked [(0x1000, sample_details)]])"
proof -
  let ?u = "\<lparr>xu_modules = sample_set\<rparr>" and ?warm = "[Unlocked [(0x1000, sample_details)]]"
  define regs where "regs = x86_64_regs_new 0x1008 0x7000 0"
  define regs' where "regs' = x86_64_restored 0x1005 0x7008 0x7008 regs"
  have ok: "x86_64_regs_ok regs" "x86_64_get_if_set regs RSP = Some 0x7000"
    by (simp_all add: regs_def x86_64_regs_new_def x86_64_regs_ok_def x86_64_set_sp_def x86_64_set_bp_def
        x86_64_set_def x86_64_get_if_set_iff x86_64_get_def x86_64_valid_reg_bit_def)
  have ok': "x86_64_regs_ok regs'" "x86_64_get_if_set regs' RSP = Some 0x7008"
    using ok(1)
    by (simp_all add: regs'_def x86_64_get_if_set_def x86_64_restored_simps x86_64_valid_reg_bit_def
        x86_64_sp_def [symmetric])
  have lu1: "address_for_lookup (InstructionPointer 0x1008) = 0x1008"
    and lu2: "address_for_lookup (ReturnAddress 0x1005) = 0x1004"
    by (simp_all add: address_for_lookup_def)
  have info: "has_unwind_info sample_set x" "module_set_unwind_info_error sample_set x = None"
    if "0x1000 \<le> x" "x < 0x2000" for x
    by (simp_all add: has_unwind_info_def module_set_unwind_info_error_def walk_modules [OF that])
      (simp_all add: sample_module_def sample_table_def)
  have "init_and_step (x86_64_acc True (mem_reader (snapshot_read_stack walk_snapshot))) walk_lu x86_64_reg_ip
      [x86_64_UNW_REG_SP, UNW_X86_64_RBP] (x86_64_ctx ?u (InstructionPointer 0x1008) regs (), [Unlocked []]) =
    (Ok (Stepped 0x1005 [0x7008, 0x7008, 0, 0]), x86_64_ctx ?u (InstructionPointer 0x1008) regs (), ?warm)"
    using walk_step [OF _ _ _ ok(2,1) walk_local(1) walk_reads(1)] walk_lookups(1) by (simp add: lu1)
  then have s1: "bench_step True walk_lu ?u walk_snapshot (InstructionPointer 0x1008) (regs, (), [Unlocked []]) =
      (Ok (Some 0x1005), regs', (), ?warm)"
    by (simp add: x86_64_unwind_frame_def x86_64_acc_def x86_64_ctx_def lu1 info x86_64_finish_step_def
        address_def is_return_address_def regs'_def)
  have "init_and_step (x86_64_acc True (mem_reader (snapshot_read_stack walk_snapshot))) walk_lu x86_64_reg_ip
      [x86_64_UNW_REG_SP, UNW_X86_64_RBP] (x86_64_ctx ?u (ReturnAddress 0x1005) regs' (), ?warm) =
    (Ok EndOfStack, x86_64_ctx ?u (ReturnAddress 0x1005) regs' (), ?warm)"
    using walk_step [OF _ _ _ ok'(2,1) walk_local(2) walk_reads(2)] walk_lookups(2) by (simp add: lu2)
  then have s2: "bench_step True walk_lu ?u walk_snapshot (ReturnAddress 0x1005) (regs', (), ?warm) =
      (Ok None, regs', (), ?warm)"
    by (simp add: x86_64_unwind_frame_def x86_64_acc_def x86_64_ctx_def lu2 info x86_64_finish_step_def)
  have go: "goes_on (0x1000, 0x2000) 1 (Ok (Some 0x1005)) 0x1005" by (simp add: goes_on_def)
  have stop: "\<nexists>ip. goes_on (0x1000, 0x2000) 2 (Ok None) ip" by (simp add: goes_on_def)
  have frame: "bench_frame 0x1005 = ReturnAddress 0x1005" by (simp add: bench_frame_def from_return_address_def)
  have snap: "snap_ip walk_snapshot = 0x1008" "snap_sp walk_snapshot = 0x7000" "snap_bp walk_snapshot = 0"
    by (simp_all add: walk_snapshot_def)
  show ?thesis
    unfolding bench_unwind_stack_def Let_def snap regs_def [symmetric] sample_loaded_def loaded_module.simps
      from_instruction_pointer_def bench_loop_goes_on [OF s1 go, unfolded one_add_one frame]
      bench_loop_stops [OF s2 stop]
    by (simp add: bench_stop_def)
qed

text \<open>C34: Snapshots survive the file.  The file a workload writes of its stack is read back as
  the same snapshot, and the reader then serves, at every address between the aligned stack
  pointer and the top of the stack, the word the memory held there, and nothing else.\<close>

theorem snapshot_roundtrip:
  assumes "take_snapshot ip sp bp stack_high mem = Some snap" and "slice_ok (encode_snapshot snap)"
  shows "snapshot_read oc path (encode_snapshot snap) = Ok snap \<and>
    snapshot_read_stack snap addr =
      (if sp AND NOT 7 \<le> addr \<and> unat addr + 8 \<le> unat stack_high
       then Some (u64_from_le (map (\<lambda>i. mem (addr + word_of_nat i)) [0..<8])) else None)"
proof
  have len: "48 + length (snap_stack snap) < usize_limit"
    using assms(2) by (simp add: slice_ok_def length_encode_snapshot)
  then show "snapshot_read oc path (encode_snapshot snap) = Ok snap" by (rule snapshot_read_encode)
  show "snapshot_read_stack snap addr =
      (if sp AND NOT 7 \<le> addr \<and> unat addr + 8 \<le> unat stack_high
       then Some (u64_from_le (map (\<lambda>i. mem (addr + word_of_nat i)) [0..<8])) else None)"
    by (rule taken_stack_word [OF assms(1)]) (use len in simp)
qed

theorem snapshot_roundtrip_witness:
  "snapshot_read True ''x'' (encode_snapshot sample_snapshot) =
     (Ok sample_snapshot :: (snapshot, (unit, unit) bench_error) outcome) \<and>
   snapshot_read_stack sample_snapshot 0x7028 = Some 0 \<and> snapshot_read_stack sample_snapshot 0x7029 = None"
proof (intro conjI)
  have ok: "take_snapshot 0x401000 0x6ff3 0x7000 0x7030 (\<lambda>_. 0) = Some sample_snapshot"
    "slice_ok (encode_snapshot sample_snapshot)"
    by (simp_all add: take_snapshot_def sample_snapshot_def map_replicate_const slice_ok_def
        length_encode_snapshot)
  show "snapshot_read True ''x'' (encode_snapshot sample_snapshot) =
      (Ok sample_snapshot :: (snapshot, (unit, unit) bench_error) outcome)"
    by (rule snapshot_roundtrip [OF ok, THEN conjunct1])
  show "snapshot_read_stack sample_snapshot 0x7028 = Some 0"
    "snapshot_read_stack sample_snapshot 0x7029 = None"
    using snapshot_roundtrip [OF ok, THEN conjunct2, of "0x7028"]
      snapshot_roundtrip [OF ok, THEN conjunct2, of "0x7029"]
    by (simp_all add: map_replicate_const u64_from_le_def le_nat_zeros)
qed

text \<open>The loop of the benchmark always ends.  The loop is total, so it returns for every
  snapshot, registry and behaviour of libunwind; it reports between 1 and 256 frames or an
  error, has no undefined behaviour and in a release build does not panic.\<close>

theorem bench_unwind_bounded:
  assumes "lu_create_addr_space_ok lu" and "heap_ok h" and "module_set_wf h (xu_modules (lm_unwinder m))"
    and "mirrors_ok (xu_modules (lm_unwinder m))"
  shows "panic_only oc (fst (bench_unwind_stack oc lu m snap h)) \<and>
    (\<forall>k h'. bench_unwind_stack oc lu m snap h = (Ok k, h') \<longrightarrow> 1 \<le> k \<and> k \<le> 256)"
proof -
  have "x86_64_inv lu (lm_unwinder m) (x86_64_regs_new (snap_ip snap) (snap_sp snap) (snap_bp snap), (), h)"
    using assms by (simp add: x86_64_inv_def x86_64_regs_new_def x86_64_set_sp_def x86_64_set_bp_def
        x86_64_regs_ok_def x86_64_set_def)
  then have "panic_only oc (fst (bench_unwind_stack oc lu m snap h))"
    unfolding bench_unwind_stack_def Let_def by (rule bench_unwind_loop_safe)
  then show ?thesis using bench_unwind_stack_bounds by blast
qed



end
