(* ===== verification/Fuzz_Entry.thy ===== *)
theory Fuzz_Entry
  imports Dwarf_Entries
begin

text \<open>
  \<open>lib.rs\<close>: the entry point the fuzz target drives, which splits an arbitrary input into a
  parser choice, an FDE configuration and a payload, and throws the parser's result away.
\<close>

text \<open>\<open>let _ = ...\<close> on a \<open>Result\<close>.\<close>

primrec discard :: "('a, dwarf_parse_error) outcome \<Rightarrow> (unit, dwarf_parse_error) outcome" where
  "discard (Ok x) = Ok ()"
| "discard (Err e) = Ok ()"
| "discard Panic = Panic"
| "discard UB = UB"

definition fuzz_parse_dwarf :: "bool \<Rightarrow> bytes \<Rightarrow> (unit, dwarf_parse_error) outcome" where
  "fuzz_parse_dwarf oc data =
     (if data = [] then Ok ()
      else
        let mode = data ! 0 in
        if mode AND 1 = 0 then
          and_then (slice_from data 1) (\<lambda>payload. discard (parse_cie oc payload 0 0))
        else
          let fde_encoding = (case slice_get data 1 of Some b \<Rightarrow> b | None \<Rightarrow> 0);
              lsda_encoding = (case slice_get data 2 of Some b \<Rightarrow> b | None \<Rightarrow> 0) in
          and_then (if length data > 3 then slice_from data 3 else Ok []) (\<lambda>payload.
          discard (parse_fde oc payload 0 0
            \<lparr>cfg_fde_encoding = fde_encoding, cfg_lsda_encoding = lsda_encoding,
             cfg_has_z = mode AND 2 \<noteq> 0, cfg_text_base = 0, cfg_data_base = 0\<rparr>)))"

lemma discard_no_Err [simp]: "discard r \<noteq> Err e"
  by (cases r) simp_all

lemma discard_panic_only: "panic_only b r \<Longrightarrow> panic_only b (discard r)"
  by (cases r) simp_all

lemma slice_ok_drop: "slice_ok bs \<Longrightarrow> slice_ok (drop n bs)"
  by (simp add: slice_ok_def)

lemma fuzz_cie:
  assumes "slice_ok data"
  shows "panic_only oc (discard (parse_cie oc (drop n data) 0 base))"
  by (intro discard_panic_only parse_cie_panic_only slice_ok_drop assms) simp

lemma fuzz_fde:
  assumes "slice_ok data"
  shows "panic_only (oc \<and> \<not> cfg_has_z cfg) (discard (parse_fde oc (drop n data) 0 base cfg))"
  by (intro discard_panic_only parse_fde_panic_only slice_ok_drop assms) simp

lemma fuzz_fde_eq:
  assumes "data \<noteq> []" and "data ! 0 AND 1 \<noteq> 0"
  obtains n cfg where "cfg_has_z cfg \<longleftrightarrow> data ! 0 AND 2 \<noteq> 0"
    and "fuzz_parse_dwarf oc data = discard (parse_fde oc (drop n data) 0 0 cfg)"
proof (cases "length data > 3")
  case True
  with assms that [of "\<lparr>cfg_fde_encoding = _, cfg_lsda_encoding = _, cfg_has_z = data ! 0 AND 2 \<noteq> 0,
      cfg_text_base = 0, cfg_data_base = 0\<rparr>" 3]
  show ?thesis by (simp add: fuzz_parse_dwarf_def slice_from_def Let_def)
next
  case False
  with assms that [of "\<lparr>cfg_fde_encoding = _, cfg_lsda_encoding = _, cfg_has_z = data ! 0 AND 2 \<noteq> 0,
      cfg_text_base = 0, cfg_data_base = 0\<rparr>" "length data"]
  show ?thesis by (simp add: fuzz_parse_dwarf_def Let_def)
qed

section \<open>Properties\<close>

text \<open>C36: Fuzzing a release build finds no crash.  The entry point returns for every input; a
  build with overflow checks can panic, but not on the inputs that select the FDE parser
  with a sized augmentation, and there is no undefined behaviour in either.\<close>

theorem fuzz_parse_dwarf_safe:
  assumes "slice_ok data"
  shows "fuzz_parse_dwarf False data = Ok () \<and> panic_only oc (fuzz_parse_dwarf oc data) \<and>
    (data \<noteq> [] \<and> data ! 0 AND 1 \<noteq> 0 \<and> data ! 0 AND 2 \<noteq> 0 \<longrightarrow> fuzz_parse_dwarf oc data = Ok ())"
proof -
  have ok: "fuzz_parse_dwarf b data = Ok ()" if "defined (fuzz_parse_dwarf b data)" for b
    using that by (cases "fuzz_parse_dwarf b data") (auto simp: fuzz_parse_dwarf_def Let_def
        slice_from_def outcome_simps split: if_splits)
  have po: "panic_only (b \<and> (data ! 0 AND 1 = 0 \<or> data ! 0 AND 2 = 0)) (fuzz_parse_dwarf b data)" for b
  proof -
    consider "data = []" | "data \<noteq> []" "data ! 0 AND 1 = 0" | "data \<noteq> []" "data ! 0 AND 1 \<noteq> 0" by blast
    then show ?thesis
    proof cases
      case 1
      then show ?thesis by (simp add: fuzz_parse_dwarf_def)
    next
      case 2
      with fuzz_cie [OF assms, of b 1 0] show ?thesis
        by (cases data) (simp_all add: fuzz_parse_dwarf_def slice_from_def)
    next
      case 3
      then obtain n cfg where "cfg_has_z cfg \<longleftrightarrow> data ! 0 AND 2 \<noteq> 0"
        and "fuzz_parse_dwarf b data = discard (parse_fde b (drop n data) 0 0 cfg)"
        by (rule fuzz_fde_eq [where oc = b])
      with fuzz_fde [OF assms, of b cfg n 0] 3 show ?thesis by simp
    qed
  qed
  show ?thesis
  proof (intro conjI impI)
    show "fuzz_parse_dwarf False data = Ok ()" using ok po [of False] by simp
    show "panic_only oc (fuzz_parse_dwarf oc data)"
      using po [of oc] by (cases "fuzz_parse_dwarf oc data") simp_all
    assume "data \<noteq> [] \<and> data ! 0 AND 1 \<noteq> 0 \<and> data ! 0 AND 2 \<noteq> 0"
    with po [of oc] have "defined (fuzz_parse_dwarf oc data)" by simp
    then show "fuzz_parse_dwarf oc data = Ok ()" by (rule ok)
  qed
qed

theorem fuzz_parse_dwarf_safe_witness:
  "fuzz_parse_dwarf False [0, 4, 0, 0, 0, 0, 0, 0, 0, 1, 0, 1, 0x78, 0x10] = Ok () \<and>
   fuzz_parse_dwarf True [0, 4, 0, 0, 0, 0, 0, 0, 0, 1, 0, 1, 0x78, 0x10] = Panic"
  using fuzz_parse_dwarf_safe [of "[0, 4, 0, 0, 0, 0, 0, 0, 0, 1, 0, 1, 0x78, 0x10]"]
  by (simp add: slice_ok_def)
    (simp add: fuzz_parse_dwarf_def slice_from_def parse_cie_def entry_eval)

end
