(* ===== verification/Cache_Race.thy ===== *)
theory Cache_Race
  imports Callbacks
begin

text \<open>
  \<open>find_proc_info\<close> and \<open>get_or_parse_function_details\<close> of \<open>callbacks.rs\<close>, as steps of threads
  that share one module and with the reference counts of the cached \<open>Arc<FunctionDetails>\<close>.

  An unwinder is \<open>Sync\<close> and its methods take \<open>&self\<close>, so threads may unwind at the same time.
  The function cache is locked twice during a lookup, and the lock is not held while the entry
  is parsed; each critical section is one step below, and the parse, which touches nothing
  shared, is another.  When \<open>find_proc_info\<close> returns, libunwind holds a raw pointer into the
  details, and the local \<open>Arc\<close> is dropped: from then on only the cache keeps them alive.

  Not among the steps: a panic while the cache is locked, which aborts the process inside a
  callback and so leaves no thread to find the lock poisoned; the removal of the module, which
  needs \<open>&mut\<close> access to the unwinder that no thread can have during a walk; and a second lookup of
  a thread while libunwind uses the pointer of the first: a thread finishes with one pointer
  (\<open>put_unwind_info\<close>) before it enters the next lookup.
\<close>

section \<open>Threads and reference counts\<close>

text \<open>Where a thread is; a \<open>nat\<close> is the address of an \<open>ArcInner\<close>.\<close>

datatype lookup_call =
    Outside
  | Entered u64
  | Missed u64
  | Parsed nat
  | Returned nat
  | Handed nat

text \<open>\<open>rs_ip\<close> is the address a thread's call is about, its argument on the stack.\<close>

record race_state =
  rs_next :: nat
  rs_count :: "nat \<Rightarrow> nat"
  rs_details :: "nat \<rightharpoonup> function_details"
  rs_cache :: "(u64, nat) btree"
  rs_call :: "nat \<Rightarrow> lookup_call"
  rs_ip :: "nat \<Rightarrow> u64"

definition race_start :: race_state where
  "race_start = \<lparr>rs_next = 0, rs_count = (\<lambda>_. 0), rs_details = Map.empty, rs_cache = [],
     rs_call = (\<lambda>_. Outside), rs_ip = (\<lambda>_. 0)\<rparr>"

definition goto :: "nat \<Rightarrow> lookup_call \<Rightarrow> race_state \<Rightarrow> race_state" where
  "goto t c s = s\<lparr>rs_call := (rs_call s)(t := c)\<rparr>"

definition enter_call :: "nat \<Rightarrow> u64 \<Rightarrow> race_state \<Rightarrow> race_state" where
  "enter_call t ip s = (goto t (Entered ip) s)\<lparr>rs_ip := (rs_ip s)(t := ip)\<rparr>"

definition arc_clone :: "nat \<Rightarrow> race_state \<Rightarrow> race_state" where
  "arc_clone a s = s\<lparr>rs_count := (rs_count s)(a := rs_count s a + 1)\<rparr>"

definition arc_drop :: "nat \<Rightarrow> race_state \<Rightarrow> race_state" where
  "arc_drop a s = s\<lparr>rs_count := (rs_count s)(a := rs_count s a - 1)\<rparr>"

text \<open>\<open>Arc::new\<close>: a fresh allocation with one owner.\<close>

definition arc_new :: "function_details \<Rightarrow> race_state \<Rightarrow> race_state" where
  "arc_new d s = s\<lparr>rs_next := rs_next s + 1, rs_details := (rs_details s)(rs_next s \<mapsto> d),
     rs_count := (rs_count s)(rs_next s := 1)\<rparr>"

text \<open>\<open>cache.insert(key, Arc::clone(&details))\<close>: the value it replaces is dropped.\<close>

definition cache_insert :: "u64 \<Rightarrow> nat \<Rightarrow> race_state \<Rightarrow> race_state" where
  "cache_insert key a s =
     (let s' = (arc_clone a s)\<lparr>rs_cache := bt_insert key a (rs_cache s)\<rparr> in
      case bt_get key (rs_cache s) of None \<Rightarrow> s' | Some b \<Rightarrow> arc_drop b s')"

inductive lookup_step :: "bool \<Rightarrow> module_data \<Rightarrow> nat \<Rightarrow> race_state \<Rightarrow> race_state \<Rightarrow> bool"
  for oc :: bool and md :: module_data and t :: nat where
  enter: "rs_call s t = Outside \<Longrightarrow> lookup_step oc md t s (enter_call t ip s)"
| hit: "rs_call s t = Entered ip \<Longrightarrow> bt_floor ip (rs_cache s) = Some (k, a) \<Longrightarrow>
    rs_details s a = Some d \<Longrightarrow> ip < fd_end_ip d \<Longrightarrow>
    lookup_step oc md t s (goto t (Returned a) (arc_clone a s))"
| miss_empty: "rs_call s t = Entered ip \<Longrightarrow> bt_floor ip (rs_cache s) = None \<Longrightarrow>
    lookup_step oc md t s (goto t (Missed ip) s)"
| miss_below: "rs_call s t = Entered ip \<Longrightarrow> bt_floor ip (rs_cache s) = Some (k, a) \<Longrightarrow>
    rs_details s a = Some d \<Longrightarrow> fd_end_ip d \<le> ip \<Longrightarrow>
    lookup_step oc md t s (goto t (Missed ip) s)"
| parse_ok: "rs_call s t = Missed ip \<Longrightarrow> parse_function_details oc md ip = Ok d \<Longrightarrow>
    lookup_step oc md t s (goto t (Parsed (rs_next s)) (arc_new d s))"
| parse_err: "rs_call s t = Missed ip \<Longrightarrow> parse_function_details oc md ip = Err e \<Longrightarrow>
    lookup_step oc md t s (goto t Outside s)"
| store: "rs_call s t = Parsed a \<Longrightarrow> rs_details s a = Some d \<Longrightarrow>
    lookup_step oc md t s (goto t (Returned a) (cache_insert (fd_start_ip d) a s))"
| hand_over: "rs_call s t = Returned a \<Longrightarrow>
    lookup_step oc md t s (goto t (Handed a) (arc_drop a s))"
| finish: "rs_call s t = Handed a \<Longrightarrow> lookup_step oc md t s (goto t Outside s)"

inductive lookup_run :: "bool \<Rightarrow> module_data \<Rightarrow> nat set \<Rightarrow> race_state \<Rightarrow> bool"
  for oc :: bool and md :: module_data and threads :: "nat set" where
  start: "lookup_run oc md threads race_start"
| step: "lookup_run oc md threads s \<Longrightarrow> t \<in> threads \<Longrightarrow> lookup_step oc md t s s' \<Longrightarrow>
    lookup_run oc md threads s'"

text \<open>libunwind holds a pointer into details whose last owner is gone.\<close>

definition dangling :: "race_state \<Rightarrow> nat \<Rightarrow> bool" where
  "dangling s t = (case rs_call s t of Handed a \<Rightarrow> rs_count s a = 0 | _ \<Rightarrow> False)"

section \<open>One thread\<close>

lemmas race_defs = goto_def enter_call_def arc_clone_def arc_drop_def arc_new_def

text \<open>
  The invariant of a lone thread: cached addresses are old and distinct, each is counted once for
  the cache and once more while the thread returns it; an entry that is still to be stored is not
  cached; one that was returned or handed over is.
\<close>

definition lone_inv :: "nat \<Rightarrow> race_state \<Rightarrow> bool" where
  "lone_inv t s \<longleftrightarrow>
     bt_wf (rs_cache s) \<and>
     (\<forall>k a. bt_get k (rs_cache s) = Some a \<longrightarrow> a < rs_next s \<and>
        (if rs_call s t = Returned a then 2 else 1) \<le> rs_count s a) \<and>
     (\<forall>k k' a. bt_get k (rs_cache s) = Some a \<longrightarrow> bt_get k' (rs_cache s) = Some a \<longrightarrow> k = k') \<and>
     (case rs_call s t of
        Parsed a \<Rightarrow> a < rs_next s \<and> 1 \<le> rs_count s a \<and> (\<forall>k. bt_get k (rs_cache s) \<noteq> Some a)
      | Returned a \<Rightarrow> \<exists>k. bt_get k (rs_cache s) = Some a
      | Handed a \<Rightarrow> \<exists>k. bt_get k (rs_cache s) = Some a
      | _ \<Rightarrow> True)"

lemma lone_invI:
  assumes "bt_wf (rs_cache s)"
    and "\<And>k a. bt_get k (rs_cache s) = Some a \<Longrightarrow>
      a < rs_next s \<and> (if rs_call s t = Returned a then 2 else 1) \<le> rs_count s a"
    and "\<And>k k' a. bt_get k (rs_cache s) = Some a \<Longrightarrow> bt_get k' (rs_cache s) = Some a \<Longrightarrow> k = k'"
    and "case rs_call s t of
        Parsed a \<Rightarrow> a < rs_next s \<and> 1 \<le> rs_count s a \<and> (\<forall>k. bt_get k (rs_cache s) \<noteq> Some a)
      | Returned a \<Rightarrow> \<exists>k. bt_get k (rs_cache s) = Some a
      | Handed a \<Rightarrow> \<exists>k. bt_get k (rs_cache s) = Some a
      | _ \<Rightarrow> True"
  shows "lone_inv t s"
  unfolding lone_inv_def using assms by blast

lemma lone_invD:
  assumes "lone_inv t s"
  shows "bt_wf (rs_cache s)"
    and "bt_get k (rs_cache s) = Some a \<Longrightarrow> a < rs_next s"
    and "bt_get k (rs_cache s) = Some a \<Longrightarrow> (if rs_call s t = Returned a then 2 else 1) \<le> rs_count s a"
    and "bt_get k (rs_cache s) = Some a \<Longrightarrow> bt_get k' (rs_cache s) = Some a \<Longrightarrow> k = k'"
    and "case rs_call s t of
        Parsed a \<Rightarrow> a < rs_next s \<and> 1 \<le> rs_count s a \<and> (\<forall>k. bt_get k (rs_cache s) \<noteq> Some a)
      | Returned a \<Rightarrow> \<exists>k. bt_get k (rs_cache s) = Some a
      | Handed a \<Rightarrow> \<exists>k. bt_get k (rs_cache s) = Some a
      | _ \<Rightarrow> True"
  using assms unfolding lone_inv_def by blast+

lemma lone_inv_start: "lone_inv t race_start"
  by (simp add: lone_inv_def race_start_def)

lemma lone_inv_store:
  assumes inv: "lone_inv t s" and call: "rs_call s t = Parsed a"
  shows "lone_inv t (goto t (Returned a) (cache_insert key a s))"
proof -
  let ?m = "rs_cache s" and ?s' = "goto t (Returned a) (cache_insert key a s)"
  have wf: "bt_wf ?m" and a: "1 \<le> rs_count s a" "\<forall>k. bt_get k ?m \<noteq> Some a" "a < rs_next s"
    and old: "\<And>k b. bt_get k ?m = Some b \<Longrightarrow> b < rs_next s \<and> 1 \<le> rs_count s b"
    and inj: "\<And>k k' b. bt_get k ?m = Some b \<Longrightarrow> bt_get k' ?m = Some b \<Longrightarrow> k = k'"
    using inv call by (auto simp: lone_inv_def split: if_splits)
  have m': "rs_cache ?s' = bt_insert key a ?m" "rs_next ?s' = rs_next s" "rs_call ?s' t = Returned a"
    by (auto simp: goto_def cache_insert_def arc_clone_def arc_drop_def Let_def split: option.split)
  have cnt: "rs_count ?s' b = (if b = a then rs_count s a + 1
      else if bt_get key ?m = Some b then rs_count s b - 1 else rs_count s b)" for b
    using a(2) by (auto simp: goto_def cache_insert_def arc_clone_def arc_drop_def Let_def
        split: option.split)
  have count: "b < rs_next s \<and> (if b = a then 2 else 1) \<le> rs_count ?s' b"
    if "bt_get k (bt_insert key a ?m) = Some b" for k b
  proof (cases "k = key")
    case True
    with that have "b = a" by (simp add: bt_get_insert [OF wf])
    with a(1,3) cnt [of a] show ?thesis by simp
  next
    case False
    with that have k: "bt_get k ?m = Some b" by (simp add: bt_get_insert [OF wf])
    with False inj have "bt_get key ?m \<noteq> Some b" by blast
    with old [OF k] k a(2) show ?thesis by (auto simp: cnt)
  qed
  have inj': "k = k'" if "bt_get k (bt_insert key a ?m) = Some b"
    and "bt_get k' (bt_insert key a ?m) = Some b" for k k' b
    using that inj a(2) by (auto simp: bt_get_insert [OF wf] split: if_splits)
  show ?thesis
  proof (rule lone_invI, unfold m')
    show "bt_wf (bt_insert key a ?m)" by (rule bt_wf_insert [OF wf])
    show "b < rs_next s \<and> (if Returned a = Returned b then 2 else 1) \<le> rs_count ?s' b"
      if "bt_get k (bt_insert key a ?m) = Some b" for k b
      using count [OF that] by (simp split: if_splits)
  qed (use inj' in blast, simp add: bt_get_insert [OF wf], blast)
qed

lemma lone_inv_hand_over:
  assumes inv: "lone_inv t s" and call: "rs_call s t = Returned a"
  shows "lone_inv t (goto t (Handed a) (arc_drop a s))"
proof (rule lone_invI)
  fix k b
  assume "bt_get k (rs_cache (goto t (Handed a) (arc_drop a s))) = Some b"
  then have "b < rs_next s" "(if a = b then 2 else 1) \<le> rs_count s b"
    using lone_invD(2,3) [OF inv, of k b] call by (simp_all add: race_defs)
  then show "b < rs_next (goto t (Handed a) (arc_drop a s)) \<and>
      (if rs_call (goto t (Handed a) (arc_drop a s)) t = Returned b then 2 else 1) \<le>
        rs_count (goto t (Handed a) (arc_drop a s)) b"
    by (auto simp: race_defs split: if_splits)
next
  show "k = k'" if "bt_get k (rs_cache (goto t (Handed a) (arc_drop a s))) = Some b"
    and "bt_get k' (rs_cache (goto t (Handed a) (arc_drop a s))) = Some b" for k k' b
    using lone_invD(4) [OF inv, of k b k'] that by (simp add: race_defs)
qed (use lone_invD(1,5) [OF inv] call in \<open>simp_all add: race_defs\<close>)

lemma lone_inv_hit:
  assumes inv: "lone_inv t s" and call: "rs_call s t = Entered ip" and k: "bt_get k (rs_cache s) = Some a"
  shows "lone_inv t (goto t (Returned a) (arc_clone a s))"
proof (rule lone_invI)
  fix k b
  assume "bt_get k (rs_cache (goto t (Returned a) (arc_clone a s))) = Some b"
  then have "b < rs_next s" "1 \<le> rs_count s b"
    using lone_invD(2,3) [OF inv, of k b] call by (simp_all add: race_defs)
  then show "b < rs_next (goto t (Returned a) (arc_clone a s)) \<and>
      (if rs_call (goto t (Returned a) (arc_clone a s)) t = Returned b then 2 else 1) \<le>
        rs_count (goto t (Returned a) (arc_clone a s)) b"
    by (auto simp: race_defs)
next
  show "j = j'" if "bt_get j (rs_cache (goto t (Returned a) (arc_clone a s))) = Some b"
    and "bt_get j' (rs_cache (goto t (Returned a) (arc_clone a s))) = Some b" for j j' b
    using lone_invD(4) [OF inv, of j b j'] that by (simp add: race_defs)
qed (use lone_invD(1) [OF inv] k in \<open>auto simp: race_defs\<close>)

lemma lone_inv_parse:
  assumes inv: "lone_inv t s" and call: "rs_call s t = Missed ip"
  shows "lone_inv t (goto t (Parsed (rs_next s)) (arc_new d s))"
proof (rule lone_invI)
  fix k b
  assume "bt_get k (rs_cache (goto t (Parsed (rs_next s)) (arc_new d s))) = Some b"
  then have "b < rs_next s" "1 \<le> rs_count s b"
    using lone_invD(2,3) [OF inv, of k b] call by (simp_all add: race_defs)
  then show "b < rs_next (goto t (Parsed (rs_next s)) (arc_new d s)) \<and>
      (if rs_call (goto t (Parsed (rs_next s)) (arc_new d s)) t = Returned b then 2 else 1) \<le>
        rs_count (goto t (Parsed (rs_next s)) (arc_new d s)) b"
    by (auto simp: race_defs)
next
  show "j = j'" if "bt_get j (rs_cache (goto t (Parsed (rs_next s)) (arc_new d s))) = Some b"
    and "bt_get j' (rs_cache (goto t (Parsed (rs_next s)) (arc_new d s))) = Some b" for j j' b
    using lone_invD(4) [OF inv, of j b j'] that by (simp add: race_defs)
next
  have "bt_get j (rs_cache s) \<noteq> Some (rs_next s)" for j
    using lone_invD(2) [OF inv, of j "rs_next s"] by auto
  then show "case rs_call (goto t (Parsed (rs_next s)) (arc_new d s)) t of
      Parsed a \<Rightarrow> a < rs_next (goto t (Parsed (rs_next s)) (arc_new d s)) \<and>
        1 \<le> rs_count (goto t (Parsed (rs_next s)) (arc_new d s)) a \<and>
        (\<forall>k. bt_get k (rs_cache (goto t (Parsed (rs_next s)) (arc_new d s))) \<noteq> Some a)
    | Returned a \<Rightarrow> \<exists>k. bt_get k (rs_cache (goto t (Parsed (rs_next s)) (arc_new d s))) = Some a
    | Handed a \<Rightarrow> \<exists>k. bt_get k (rs_cache (goto t (Parsed (rs_next s)) (arc_new d s))) = Some a
    | _ \<Rightarrow> True"
    by (simp add: race_defs)
qed (use lone_invD(1) [OF inv] in \<open>simp add: race_defs\<close>)

text \<open>A step that only moves the thread, to a place where it knows no allocation.\<close>

lemma lone_inv_goto:
  assumes inv: "lone_inv t s" and "c \<in> {Outside} \<union> range Entered \<union> range Missed"
  shows "lone_inv t (goto t c s)"
proof (rule lone_invI)
  show "b < rs_next (goto t c s) \<and> (if rs_call (goto t c s) t = Returned b then 2 else 1) \<le>
      rs_count (goto t c s) b" if "bt_get k (rs_cache (goto t c s)) = Some b" for k b
    using lone_invD(2,3) [OF inv, of k b] that assms(2) by (auto simp: goto_def split: if_splits)
  show "k = k'" if "bt_get k (rs_cache (goto t c s)) = Some b"
    and "bt_get k' (rs_cache (goto t c s)) = Some b" for k k' b
    using lone_invD(4) [OF inv, of k b k'] that by (simp add: goto_def)
qed (use lone_invD(1) [OF inv] assms(2) in \<open>auto simp: goto_def\<close>)

lemma lone_inv_enter: "lone_inv t s \<Longrightarrow> lone_inv t (enter_call t ip s)"
  using lone_inv_goto [of t s "Entered ip"] by (simp add: enter_call_def lone_inv_def goto_def)

lemma lone_inv_step:
  assumes inv: "lone_inv t s" and "lookup_step oc md t s s'"
  shows "lone_inv t s'"
  using assms(2)
proof cases
  case (hit ip k a d)
  have "bt_get k (rs_cache s) = Some a"
    using hit(3) lone_invD(1) [OF inv] by (simp add: bt_floor_Some_iff)
  with lone_inv_hit [OF inv hit(2)] hit(1) show ?thesis by simp
qed (use lone_inv_store [OF inv] lone_inv_hand_over [OF inv] lone_inv_parse [OF inv]
    lone_inv_goto [OF inv] lone_inv_enter [OF inv] in auto)

lemma lone_run: "lookup_run oc md {t} s \<Longrightarrow> lone_inv t s \<and> (\<forall>t'. t' \<noteq> t \<longrightarrow> rs_call s t' = Outside)"
proof (induction rule: lookup_run.induct)
  case start
  show ?case using lone_inv_start [of t] by (simp add: race_start_def)
next
  case (step s t' s')
  have "rs_call s' u = rs_call s u" if "u \<noteq> t" for u
    using step.hyps(2,3) that
    by (auto elim!: lookup_step.cases simp: race_defs cache_insert_def Let_def split: option.split)
  with step lone_inv_step [of t s oc md s'] show ?case by auto
qed

section \<open>Any number of threads\<close>

text \<open>
  What a lookup returns is right under every interleaving.  The invariant of all threads: the
  cache holds details that any of their addresses parses to, and a thread that has an entry has
  the one its own address parses to.
\<close>

definition entry_sound :: "bool \<Rightarrow> module_data \<Rightarrow> race_state \<Rightarrow> u64 \<Rightarrow> nat \<Rightarrow> bool" where
  "entry_sound oc md s k a \<longleftrightarrow>
     (\<exists>d. rs_details s a = Some d \<and> k = fd_start_ip d \<and> fd_start_ip d < fd_end_ip d \<and>
        (\<forall>ip. fd_covers d ip \<longrightarrow> parse_function_details oc md ip = Ok d))"

definition answer_sound :: "bool \<Rightarrow> module_data \<Rightarrow> race_state \<Rightarrow> nat \<Rightarrow> nat \<Rightarrow> bool" where
  "answer_sound oc md s t a \<longleftrightarrow>
     (\<exists>d. rs_details s a = Some d \<and> parse_function_details oc md (rs_ip s t) = Ok d)"

definition call_sound :: "bool \<Rightarrow> module_data \<Rightarrow> race_state \<Rightarrow> nat \<Rightarrow> bool" where
  "call_sound oc md s t \<longleftrightarrow>
     (case rs_call s t of
        Outside \<Rightarrow> True
      | Entered ip \<Rightarrow> ip = rs_ip s t
      | Missed ip \<Rightarrow> ip = rs_ip s t
      | Parsed a \<Rightarrow> answer_sound oc md s t a
      | Returned a \<Rightarrow> answer_sound oc md s t a
      | Handed a \<Rightarrow> answer_sound oc md s t a)"

definition shared_inv :: "bool \<Rightarrow> module_data \<Rightarrow> race_state \<Rightarrow> bool" where
  "shared_inv oc md s \<longleftrightarrow>
     bt_wf (rs_cache s) \<and>
     (\<forall>k a. bt_get k (rs_cache s) = Some a \<longrightarrow> entry_sound oc md s k a) \<and>
     (\<forall>a. rs_details s a \<noteq> None \<longrightarrow> a < rs_next s) \<and>
     (\<forall>t. call_sound oc md s t)"

lemma shared_invD:
  assumes "shared_inv oc md s"
  shows "bt_wf (rs_cache s)"
    and "bt_get k (rs_cache s) = Some a \<Longrightarrow> entry_sound oc md s k a"
    and "rs_details s a = Some d \<Longrightarrow> a < rs_next s"
    and "call_sound oc md s t"
  using assms by (auto simp: shared_inv_def)

lemma shared_inv_start: "shared_inv oc md race_start"
  by (simp add: shared_inv_def race_start_def call_sound_def)

text \<open>A step of one thread that neither allocates nor inserts.\<close>

lemma shared_inv_move:
  assumes inv: "shared_inv oc md s"
    and same: "rs_cache s' = rs_cache s" "rs_details s' = rs_details s" "rs_next s' = rs_next s"
      "\<And>t'. t' \<noteq> t \<Longrightarrow> rs_call s' t' = rs_call s t' \<and> rs_ip s' t' = rs_ip s t'"
    and call: "call_sound oc md s' t"
  shows "shared_inv oc md s'"
proof -
  have "call_sound oc md s' t'" for t'
    using shared_invD(4) [OF inv, of t'] call same
    by (cases "t' = t") (auto simp: call_sound_def answer_sound_def split: lookup_call.splits)
  then show ?thesis
    using inv same by (simp add: shared_inv_def entry_sound_def)
qed

lemma shared_inv_alloc:
  assumes inv: "shared_inv oc md s" and call: "rs_call s t = Missed ip"
    and parse: "parse_function_details oc md ip = Ok d"
  shows "shared_inv oc md (goto t (Parsed (rs_next s)) (arc_new d s))" (is "shared_inv oc md ?s'")
proof -
  have old: "rs_details ?s' a = Some e" if "rs_details s a = Some e" for a e
    using shared_invD(3) [OF inv that] that by (simp add: race_defs)
  have fresh: "rs_details s (rs_next s) = None"
    using shared_invD(3) [OF inv, of "rs_next s"] by (cases "rs_details s (rs_next s)") auto
  have "rs_ip s t = ip" using shared_invD(4) [OF inv, of t] call by (simp add: call_sound_def)
  then have "call_sound oc md ?s' t'" for t'
    using shared_invD(4) [OF inv, of t'] parse fresh
    by (cases "t' = t") (auto simp: call_sound_def answer_sound_def race_defs split: lookup_call.splits)
  moreover have "entry_sound oc md ?s' k a" if "bt_get k (rs_cache s) = Some a" for k a
    using shared_invD(2) [OF inv that] old by (auto simp: entry_sound_def)
  ultimately show ?thesis
    using inv by (auto simp: shared_inv_def race_defs less_Suc_eq)
qed

lemma shared_inv_store:
  assumes inv: "shared_inv oc md s" and call: "rs_call s t = Parsed a" and d: "rs_details s a = Some d"
    and wf: "module_wf h md" and tc: "table_consistent oc md"
  shows "shared_inv oc md (goto t (Returned a) (cache_insert (fd_start_ip d) a s))"
    (is "shared_inv oc md ?s'")
proof -
  have parse: "parse_function_details oc md (rs_ip s t) = Ok d"
    using shared_invD(4) [OF inv, of t] call d by (simp add: call_sound_def answer_sound_def)
  then have "fd_covers d (rs_ip s t)" by (simp add: parse_function_details_iff)
  then have new: "entry_sound oc md s (fd_start_ip d) a"
    using parse_function_details_stable [OF wf tc parse] d
    by (auto simp: entry_sound_def fd_covers_def)
  have s': "rs_cache ?s' = bt_insert (fd_start_ip d) a (rs_cache s)" "rs_details ?s' = rs_details s"
    "rs_next ?s' = rs_next s" "rs_ip ?s' = rs_ip s" "rs_call ?s' = (rs_call s)(t := Returned a)"
    by (auto simp: race_defs cache_insert_def Let_def split: option.split)
  have "call_sound oc md ?s' t'" for t'
    using shared_invD(4) [OF inv, of t'] call
    by (cases "t' = t") (auto simp: call_sound_def answer_sound_def s' split: lookup_call.splits)
  moreover have "entry_sound oc md ?s' k b"
    if "bt_get k (bt_insert (fd_start_ip d) a (rs_cache s)) = Some b" for k b
    using that new shared_invD(2) [OF inv, of k b] bt_get_insert [OF shared_invD(1) [OF inv]]
    by (auto simp: entry_sound_def s' split: if_splits)
  ultimately show ?thesis
    using inv unfolding shared_inv_def s' by (auto intro: bt_wf_insert)
qed

lemma shared_inv_step:
  assumes inv: "shared_inv oc md s" and wf: "module_wf h md" and tc: "table_consistent oc md"
    and "lookup_step oc md t s s'"
  shows "shared_inv oc md s'"
  using assms(4)
proof cases
  case (hit ip k a d)
  have "bt_get k (rs_cache s) = Some a" and "k \<le> ip"
    using hit(3) shared_invD(1) [OF inv] by (simp_all add: bt_floor_Some_iff)
  then have "parse_function_details oc md ip = Ok d"
    using shared_invD(2) [OF inv, of k a] hit(4,5) by (auto simp: entry_sound_def fd_covers_def)
  moreover have "ip = rs_ip s t"
    using shared_invD(4) [OF inv, of t] hit(2) by (simp add: call_sound_def)
  ultimately show ?thesis
    using hit by (intro shared_inv_move [OF inv, of s' t])
      (simp_all add: race_defs call_sound_def answer_sound_def)
next
  case (parse_ok ip d)
  then show ?thesis using shared_inv_alloc [OF inv] by simp
next
  case (store a d)
  then show ?thesis using shared_inv_store [OF inv _ _ wf tc] by simp
qed (use shared_invD(4) [OF inv, of t] in
    \<open>auto intro!: shared_inv_move [OF inv, of _ t] simp: race_defs call_sound_def answer_sound_def\<close>)

lemma shared_run:
  assumes "lookup_run oc md threads s" and "module_wf h md" and "table_consistent oc md"
  shows "shared_inv oc md s"
  using assms(1) by induction (auto intro: shared_inv_start shared_inv_step [OF _ assms(2,3)])

section \<open>Refinement of the sequential lookup\<close>

text \<open>The cache of a run as the sequential model has it: the details instead of their addresses.\<close>

definition abs_cache :: "race_state \<Rightarrow> function_cache" where
  "abs_cache s = map (\<lambda>(k, a). (k, the (rs_details s a))) (rs_cache s)"

text \<open>A call of one thread, from its entry up to its return, that no other thread disturbs.\<close>

inductive solo_call :: "bool \<Rightarrow> module_data \<Rightarrow> nat \<Rightarrow> u64 \<Rightarrow> race_state \<Rightarrow> race_state \<Rightarrow> bool"
  for oc :: bool and md :: module_data and t :: nat and ip :: u64 and s0 :: race_state where
  entry: "rs_call s0 t = Outside \<Longrightarrow> solo_call oc md t ip s0 (enter_call t ip s0)"
| inside: "solo_call oc md t ip s0 s \<Longrightarrow> rs_call s t \<notin> {Outside} \<union> range Returned \<union> range Handed \<Longrightarrow>
    lookup_step oc md t s s' \<Longrightarrow> solo_call oc md t ip s0 s'"

lemma bt_floor_map:
  "bt_floor k (map (\<lambda>(j, a). (j, f a)) m) = map_option (\<lambda>(j, a). (j, f a)) (bt_floor k m)"
  by (induction m) (auto split: option.splits)

lemma bt_insert_map:
  "map (\<lambda>(j, a). (j, f a)) (bt_insert k v m) = bt_insert k (f v) (map (\<lambda>(j, a). (j, f a)) m)"
  by (induction m) auto

lemma abs_cache_hit:
  "cache_hit (abs_cache s) ip =
     (case bt_floor ip (rs_cache s) of
        None \<Rightarrow> None
      | Some (k, a) \<Rightarrow> if ip < fd_end_ip (the (rs_details s a)) then Some (the (rs_details s a)) else None)"
  by (auto simp: cache_hit_def abs_cache_def bt_floor_map split: option.split)

lemma abs_cache_store:
  "rs_details s a = Some d \<Longrightarrow>
     abs_cache (goto t c (cache_insert k a s)) = bt_insert k d (abs_cache s)"
  by (simp add: abs_cache_def race_defs cache_insert_def Let_def bt_insert_map split: option.split)

text \<open>A new allocation does not change what the cached addresses hold.\<close>

lemma abs_cache_alloc:
  assumes "shared_inv oc md s"
  shows "abs_cache (goto t c (arc_new d s)) = abs_cache s"
proof -
  have "a \<noteq> rs_next s" if "(k, a) \<in> set (rs_cache s)" for k a
    using that shared_invD(1-3) [OF assms] bt_get_set_iff [of "rs_cache s" k a]
    by (fastforce simp: entry_sound_def)
  then show ?thesis by (auto simp: abs_cache_def race_defs)
qed

lemma abs_cache_move [simp]:
  "abs_cache (goto t c s) = abs_cache s" "abs_cache (enter_call t ip s) = abs_cache s"
  "abs_cache (arc_clone a s) = abs_cache s"
  by (simp_all add: abs_cache_def race_defs)

lemma goto_simps [simp]:
  "rs_call (goto t c s) t = c" "rs_details (goto t c s) = rs_details s"
  "rs_call (enter_call t ip s) t = Entered ip"
  "rs_details (arc_new d s) = (rs_details s)(rs_next s \<mapsto> d)"
  "rs_details (arc_clone a s) = rs_details s"
  by (simp_all add: race_defs)

text \<open>What has happened so far in a call, in terms of the sequential function.\<close>

definition solo_progress :: "bool \<Rightarrow> module_data \<Rightarrow> nat \<Rightarrow> u64 \<Rightarrow> race_state \<Rightarrow> race_state \<Rightarrow> bool" where
  "solo_progress oc md t ip s0 s \<longleftrightarrow>
     (case rs_call s t of
        Entered i \<Rightarrow> i = ip \<and> abs_cache s = abs_cache s0
      | Missed i \<Rightarrow> i = ip \<and> abs_cache s = abs_cache s0 \<and> cache_hit (abs_cache s0) ip = None
      | Parsed a \<Rightarrow> abs_cache s = abs_cache s0 \<and> cache_hit (abs_cache s0) ip = None \<and>
          (\<exists>d. rs_details s a = Some d \<and> parse_function_details oc md ip = Ok d)
      | Returned a \<Rightarrow> (\<exists>d. rs_details s a = Some d \<and>
          (cache_hit (abs_cache s0) ip = Some d \<and> abs_cache s = abs_cache s0 \<or>
           cache_hit (abs_cache s0) ip = None \<and> parse_function_details oc md ip = Ok d \<and>
             abs_cache s = bt_insert (fd_start_ip d) d (abs_cache s0)))
      | Outside \<Rightarrow> abs_cache s = abs_cache s0 \<and> cache_hit (abs_cache s0) ip = None \<and>
          (\<exists>e. parse_function_details oc md ip = Err e)
      | Handed a \<Rightarrow> False)"

lemma solo_progress_step:
  assumes inv: "shared_inv oc md s" and "solo_progress oc md t ip s0 s"
    and "rs_call s t \<notin> {Outside} \<union> range Returned \<union> range Handed" and "lookup_step oc md t s s'"
  shows "solo_progress oc md t ip s0 s'"
  using assms(4)
proof cases
  case (parse_ok i d)
  with assms(2) abs_cache_alloc [OF inv] show ?thesis
    by (simp add: solo_progress_def)
next
  case (store a d)
  with assms(2) have "rs_details s' a = Some d" "rs_call s' t = Returned a"
    by (auto simp: race_defs cache_insert_def Let_def split: option.split)
  with store assms(2) abs_cache_store [OF store(3)] show ?thesis by (simp add: solo_progress_def)
next
  case (hit i k a d)
  have "cache_hit (abs_cache s) i = Some d" "rs_details s' a = Some d" "rs_call s' t = Returned a"
    using hit by (simp_all add: abs_cache_hit)
  with hit assms(2) show ?thesis by (auto simp: solo_progress_def)
next
  case (miss_empty i)
  with assms(2) have "cache_hit (abs_cache s) i = None" by (simp add: abs_cache_hit)
  with miss_empty assms(2) show ?thesis by (simp add: solo_progress_def)
next
  case (miss_below i k a d)
  then have "cache_hit (abs_cache s) i = None" by (simp add: abs_cache_hit)
  with miss_below assms(2) show ?thesis by (simp add: solo_progress_def)
next
  case (parse_err i e)
  with assms(2) show ?thesis by (simp add: solo_progress_def)
qed (use assms(3) in auto)

lemma solo_progress_call:
  assumes "solo_call oc md t ip s0 s" and "shared_inv oc md s0" and "module_wf h md"
    and "table_consistent oc md"
  shows "shared_inv oc md s \<and> solo_progress oc md t ip s0 s"
  using assms(1)
proof induction
  case entry
  then show ?case
    using shared_inv_step [OF assms(2-4) lookup_step.enter]
    by (simp add: solo_progress_def)
next
  case (inside s s')
  with shared_inv_step [OF _ assms(3,4)] solo_progress_step [of oc md s t ip s0 s'] show ?case by blast
qed

section \<open>Properties\<close>

text \<open>C13: One thread at a time is safe.  While a single thread uses a module, in any sequence of
  lookups of any addresses, the details libunwind was handed a pointer into stay alive until
  libunwind is done with them.\<close>

theorem function_cache_single_thread:
  assumes "lookup_run oc md {t} s"
  shows "\<not> dangling s t'"
proof (cases "t' = t")
  case True
  have inv: "lone_inv t s" using lone_run [OF assms] by simp
  show ?thesis
  proof (cases "rs_call s t")
    case (Handed a)
    with lone_invD(5) [OF inv] obtain k where "bt_get k (rs_cache s) = Some a" by auto
    from lone_invD(3) [OF inv this] Handed True show ?thesis by (simp add: dangling_def)
  qed (simp_all add: dangling_def True)
next
  case False
  with lone_run [OF assms] show ?thesis by (simp add: dangling_def)
qed

theorem function_cache_single_thread_witness:
  "\<exists>s. rs_call s 0 = Handed 0 \<and> rs_details s 0 = Some sample_details \<and> \<not> dangling s 0"
proof -
  let ?run = "lookup_run True (sample_module 0) {0}" and ?d = sample_details
  let ?s1 = "enter_call 0 0x1008 race_start"
  let ?s2 = "goto 0 (Missed 0x1008) ?s1"
  let ?s3 = "goto 0 (Parsed 0) (arc_new ?d ?s2)"
  let ?s4 = "goto 0 (Returned 0) (cache_insert 0x1000 0 ?s3)"
  let ?s5 = "goto 0 (Handed 0) (arc_drop 0 ?s4)"
  have parse: "parse_function_details True (sample_module 0) 0x1008 = Ok ?d" by (rule sample_parse) simp_all
  have start: "fd_start_ip ?d = 0x1000" by (simp add: sample_details_def)
  note eval = race_defs race_start_def cache_insert_def Let_def start
  have "?run ?s1"
    by (rule lookup_run.step [OF lookup_run.start _ lookup_step.enter]) (simp_all add: race_start_def)
  then have "?run ?s2"
    by (rule lookup_run.step [OF _ _ lookup_step.miss_empty]) (simp_all add: eval)
  then have "?run ?s3"
    using lookup_run.step [of True "sample_module 0" "{0}" ?s2 0 ?s3]
      lookup_step.parse_ok [of ?s2 0 "0x1008" True "sample_module 0" ?d] parse by (simp add: eval)
  then have "?run ?s4"
    using lookup_run.step [of True "sample_module 0" "{0}" ?s3 0 ?s4]
      lookup_step.store [of ?s3 0 0 ?d True "sample_module 0"] by (simp add: eval)
  then have "?run ?s5"
    by (rule lookup_run.step [OF _ _ lookup_step.hand_over [of _ 0]]) (simp_all add: eval)
  from function_cache_single_thread [OF this, of 0] show ?thesis
    by (intro exI [of _ ?s5]) (simp add: eval)
qed

text \<open>C38: Two threads are not.  When both miss the cache at the same function, both parse it; the
  second insertion replaces the first thread's details, drops their last owner, and leaves
  libunwind in the first thread with a dangling pointer.\<close>

theorem function_cache_race:
  "\<exists>s. lookup_run oc (sample_module 0) {0, 1} s \<and> dangling s 0"
proof -
  let ?run = "lookup_run oc (sample_module 0) {0, 1}" and ?d = sample_details
  have parse: "parse_function_details oc (sample_module 0) 0x1008 = Ok ?d" by (rule sample_parse) simp_all
  have start: "fd_start_ip ?d = 0x1000" by (simp add: sample_details_def)
  note eval = race_defs race_start_def cache_insert_def Let_def start
  let ?s1 = "enter_call 1 0x1008 (enter_call 0 0x1008 race_start)"
  let ?s2 = "goto 1 (Missed 0x1008) (goto 0 (Missed 0x1008) ?s1)"
  let ?s3 = "goto 0 (Parsed 0) (arc_new ?d ?s2)"
  let ?s4 = "goto 1 (Parsed 1) (arc_new ?d ?s3)"
  let ?s5 = "goto 0 (Returned 0) (cache_insert 0x1000 0 ?s4)"
  let ?s6 = "goto 0 (Handed 0) (arc_drop 0 ?s5)"
  let ?s7 = "goto 1 (Returned 1) (cache_insert 0x1000 1 ?s6)"
  have "?run (enter_call 0 0x1008 race_start)"
    by (rule lookup_run.step [OF lookup_run.start _ lookup_step.enter [of _ 0]]) (simp_all add: eval)
  then have "?run ?s1"
    by (rule lookup_run.step [OF _ _ lookup_step.enter [of _ 1]]) (simp_all add: eval)
  then have "?run (goto 0 (Missed 0x1008) ?s1)"
    by (rule lookup_run.step [OF _ _ lookup_step.miss_empty [of _ 0]]) (simp_all add: eval)
  then have "?run ?s2"
    by (rule lookup_run.step [OF _ _ lookup_step.miss_empty [of _ 1]]) (simp_all add: eval)
  then have "?run ?s3"
    using lookup_run.step [of oc "sample_module 0" "{0, 1}" ?s2 0 ?s3]
      lookup_step.parse_ok [of ?s2 0 "0x1008" oc "sample_module 0" ?d] parse by (simp add: eval)
  then have "?run ?s4"
    using lookup_run.step [of oc "sample_module 0" "{0, 1}" ?s3 1 ?s4]
      lookup_step.parse_ok [of ?s3 1 "0x1008" oc "sample_module 0" ?d] parse by (simp add: eval)
  then have "?run ?s5"
    using lookup_run.step [of oc "sample_module 0" "{0, 1}" ?s4 0 ?s5]
      lookup_step.store [of ?s4 0 0 ?d oc "sample_module 0"] by (simp add: eval)
  then have "?run ?s6"
    by (rule lookup_run.step [OF _ _ lookup_step.hand_over [of _ 0]]) (simp_all add: eval)
  then have "?run ?s7"
    using lookup_run.step [of oc "sample_module 0" "{0, 1}" ?s6 1 ?s7]
      lookup_step.store [of ?s6 1 1 ?d oc "sample_module 0"] by (simp add: eval)
  moreover have "dangling ?s7 0" by (simp add: dangling_def eval)
  ultimately show ?thesis by blast
qed

text \<open>C14: Under every interleaving of any number of threads the answers are right.  Whatever the
  other threads do, the details a thread gets back (and hands to libunwind) are exactly what a
  fresh parse of its own address gives, and every entry of the shared cache is what parsing any
  address of its function gives, for a module whose search table is sorted and consistent with
  its FDEs.  What can go wrong between threads is the lifetime only.\<close>

theorem concurrent_lookups_correct:
  assumes "lookup_run oc md threads s" and "module_wf h md" and "table_consistent oc md"
  shows "(\<forall>t a. rs_call s t \<in> {Parsed a, Returned a, Handed a} \<longrightarrow>
      (\<exists>d. rs_details s a = Some d \<and> parse_function_details oc md (rs_ip s t) = Ok d)) \<and>
    (\<forall>k a. bt_get k (rs_cache s) = Some a \<longrightarrow>
      (\<exists>d. rs_details s a = Some d \<and> k = fd_start_ip d \<and>
        (\<forall>ip. fd_covers d ip \<longrightarrow> parse_function_details oc md ip = Ok d)))"
proof -
  note inv = shared_run [OF assms]
  show ?thesis
    using shared_invD(2,4) [OF inv]
    by (fastforce simp: call_sound_def answer_sound_def entry_sound_def split: lookup_call.splits)
qed

theorem concurrent_lookups_correct_witness:
  "\<exists>d. rs_details (goto 0 (Parsed 0) (arc_new sample_details (goto 0 (Missed 0x1008)
        (enter_call 0 0x1008 race_start)))) 0 = Some d \<and>
    parse_function_details True (sample_module 0) (rs_ip (goto 0 (Parsed 0) (arc_new sample_details
        (goto 0 (Missed 0x1008) (enter_call 0 0x1008 race_start)))) 0) = Ok d"
proof -
  let ?run = "lookup_run True (sample_module 0) {0, 1}"
  let ?s1 = "enter_call 0 0x1008 race_start" and ?d = sample_details
  let ?s2 = "goto 0 (Missed 0x1008) ?s1"
  let ?s3 = "goto 0 (Parsed 0) (arc_new ?d ?s2)"
  have parse: "parse_function_details True (sample_module 0) 0x1008 = Ok ?d" by (rule sample_parse) simp_all
  have nxt: "rs_next ?s2 = 0" by (simp add: race_defs race_start_def)
  have "?run ?s1"
    by (rule lookup_run.step [OF lookup_run.start _ lookup_step.enter [of _ 0]])
      (simp_all add: race_start_def)
  then have "?run ?s2"
    by (rule lookup_run.step [OF _ _ lookup_step.miss_empty [of _ 0]])
      (simp_all add: race_defs race_start_def)
  then have "?run ?s3"
    using lookup_run.step [of True "sample_module 0" "{0, 1}" ?s2 0 ?s3]
      lookup_step.parse_ok [of ?s2 0 "0x1008" True "sample_module 0" ?d] parse nxt by simp
  from conjunct1 [OF concurrent_lookups_correct [OF this sample_module_wf [of 0 "[Unlocked []]"]
        sample_consistent], rule_format, of 0 0]
  show ?thesis by simp
qed

text \<open>C15: Refinement.  From any state any threads can reach, a call that runs undisturbed does
  exactly what the sequential \<open>get_or_parse_function_details\<close> does: with the cache of addresses
  read as a cache of details, it returns the same details and leaves the same cache, or fails
  with the same error and leaves the cache alone.\<close>

theorem lookup_refines_sequential:
  assumes "lookup_run oc md threads s0" and "module_wf h md" and "table_consistent oc md"
    and "solo_call oc md t ip s0 s"
    and "h ! md_function_cache md = Unlocked (abs_cache s0)"
  shows "(\<forall>a. rs_call s t = Returned a \<longrightarrow> (\<exists>d. rs_details s a = Some d \<and>
      get_or_parse_function_details oc h md ip =
        (Ok d, h[md_function_cache md := Unlocked (abs_cache s)]))) \<and>
    (rs_call s t = Outside \<longrightarrow>
      (\<exists>e. get_or_parse_function_details oc h md ip = (Err e, h) \<and> abs_cache s = abs_cache s0))"
proof -
  have p: "solo_progress oc md t ip s0 s"
    using solo_progress_call [OF assms(4) shared_run [OF assms(1-3)] assms(2,3)] by simp
  have i: "md_function_cache md < length h" using assms(2) by (simp add: module_wf_def)
  then have lk: "lock_cache h (md_function_cache md) = Some (abs_cache s0)"
    using assms(5) by (simp add: lock_cache_def)
  have same: "h[md_function_cache md := Unlocked (abs_cache s0)] = h"
    using assms(5) by (metis list_update_id)
  show ?thesis
    using p lk same
    by (auto simp: solo_progress_def get_or_parse_function_details_def split: option.splits)
qed

theorem lookup_refines_sequential_witness:
  "\<exists>d. get_or_parse_function_details True [Unlocked []] (sample_module 0) 0x1008 =
      (Ok d, [Unlocked []][md_function_cache (sample_module 0) :=
        Unlocked (abs_cache (goto 0 (Returned 0) (cache_insert 0x1000 0 (goto 0 (Parsed 0)
          (arc_new sample_details (goto 0 (Missed 0x1008) (enter_call 0 0x1008 race_start)))))))])"
proof -
  let ?solo = "solo_call True (sample_module 0) 0 0x1008 race_start"
  let ?s1 = "enter_call 0 0x1008 race_start" and ?d = sample_details
  let ?s2 = "goto 0 (Missed 0x1008) ?s1"
  let ?s3 = "goto 0 (Parsed 0) (arc_new ?d ?s2)"
  let ?s4 = "goto 0 (Returned 0) (cache_insert 0x1000 0 ?s3)"
  have parse: "parse_function_details True (sample_module 0) 0x1008 = Ok ?d" by (rule sample_parse) simp_all
  have start: "fd_start_ip ?d = 0x1000" by (simp add: sample_details_def)
  have nxt: "rs_next ?s2 = 0" by (simp add: race_defs race_start_def)
  have "?solo ?s1" by (rule solo_call.entry) (simp add: race_start_def)
  then have "?solo ?s2"
    by (rule solo_call.inside [OF _ _ lookup_step.miss_empty]) (auto simp: race_start_def race_defs)
  then have "?solo ?s3"
    using solo_call.inside [of True "sample_module 0" 0 "0x1008" race_start ?s2 ?s3]
      lookup_step.parse_ok [of ?s2 0 "0x1008" True "sample_module 0" ?d] parse nxt by auto
  then have "?solo ?s4"
    using solo_call.inside [of True "sample_module 0" 0 "0x1008" race_start ?s3 ?s4]
      lookup_step.store [of ?s3 0 0 ?d True "sample_module 0"] nxt start by auto
  moreover have "[Unlocked []] ! md_function_cache (sample_module 0) = Unlocked (abs_cache race_start)"
    by (simp add: abs_cache_def race_start_def sample_module_def)
  moreover have "rs_call ?s4 0 = Returned 0" by simp
  moreover have "module_wf [Unlocked []] (sample_module 0)" by (simp add: sample_module_wf)
  ultimately show ?thesis
    using lookup_refines_sequential [of True "sample_module 0" "{0}" race_start "[Unlocked []]" 0
        "0x1008" ?s4, OF lookup_run.start _ sample_consistent] by blast
qed

end
