(* ===== verification/Dwarf_Roundtrip.thy ===== *)
theory Dwarf_Roundtrip
  imports Dwarf_Entries
begin

unbundle bit_operations_syntax

text \<open>
  The entry parsers of \<open>dwarf.rs\<close> against a writer of \<open>.eh_frame\<close> entries: whatever CIE or
  FDE a compiler describes (32- or 64-bit DWARF, CIE versions 1, 3 and 4, every augmentation
  letter, every pointer format and application the parser knows), the parser gives back its
  fields and the exact range of its instructions, wherever the entry stands in the section.

  A field is a codec: a reader with the encoder it inverts.  The contract is a locale; each
  reader of the cursor interprets it, and an entry is the concatenation of its fields.
\<close>

section \<open>Codecs\<close>

text \<open>The cursor \<open>n\<close> bytes further.\<close>

definition skip :: "cursor \<Rightarrow> nat \<Rightarrow> cursor" where
  "skip c n = c\<lparr>cur_pos := cur_pos c + n\<rparr>"

lemma skip_simps [simp]:
  "skip (skip c m) n = skip c (m + n)" "skip c 0 = c"
  "cur_bytes (skip c n) = cur_bytes c" "cur_pos (skip c n) = cur_pos c + n"
  "cur_avma_base (skip c n) = cur_avma_base c"
  by (simp_all add: skip_def add.assoc)

lemma current_avma_skip [simp]: "current_avma (skip c n) = current_avma c + word_of_nat n"
  by (simp add: current_avma_def add.assoc)

lemma stands_before_ok: "stands_before c bs \<Longrightarrow> cursor_ok c"
  by (simp add: stands_before_def)

lemma stands_before_appendD:
  assumes "stands_before c (xs @ ys)"
  shows "stands_before c xs" and "stands_before (skip c (length xs)) ys"
proof -
  let ?rest = "drop (cur_pos c) (cur_bytes c)"
  from assms have ok: "cursor_ok c" and tk: "take (length xs + length ys) ?rest = xs @ ys"
    by (simp_all add: stands_before_def)
  have "take (length xs) ?rest = take (length xs) (take (length xs + length ys) ?rest)" by simp
  then have x: "take (length xs) ?rest = xs" unfolding tk by simp
  then show "stands_before c xs" using ok by (simp add: stands_before_def)
  have "length (take (length xs) ?rest) = length xs" using x by simp
  then have le: "cur_pos c + length xs \<le> length (cur_bytes c)"
    using ok by (simp add: cursor_ok_def) linarith
  have "take (length ys) (drop (length xs) ?rest) = drop (length xs) (take (length xs + length ys) ?rest)"
    by (simp add: drop_take)
  also have "\<dots> = ys" unfolding tk by simp
  finally show "stands_before (skip c (length xs)) ys"
    using ok le by (simp add: stands_before_def cursor_ok_def add.commute)
qed

text \<open>
  \<open>enc at v\<close> is what a writer emits for \<open>v\<close> at the address \<open>at\<close>, \<open>ok at v\<close> that it can.
\<close>

locale field_codec =
  fixes rd :: "bool \<Rightarrow> 'a reader" and enc :: "u64 \<Rightarrow> 'a \<Rightarrow> bytes" and ok :: "u64 \<Rightarrow> 'a \<Rightarrow> bool"
  assumes decodes: "stands_before c (enc (current_avma c) v) \<Longrightarrow> ok (current_avma c) v \<Longrightarrow>
    rd oc c = Ok (v, skip c (length (enc (current_avma c) v)))"
begin

lemma decodes_first:
  assumes "stands_before c (enc (current_avma c) v @ rest)" and "ok (current_avma c) v"
  shows "rd oc c = Ok (v, skip c (length (enc (current_avma c) v)))"
    and "stands_before (skip c (length (enc (current_avma c) v))) rest"
  using decodes [OF stands_before_appendD(1) [OF assms(1)] assms(2)]
    stands_before_appendD(2) [OF assms(1)] by simp_all

end

section \<open>Fixed-width and LEB128 fields\<close>

lemma read_slice_stands:
  assumes "stands_before c bs" and "length bs = n" and "n \<le> 8"
  shows "read_slice oc n c = Ok (bs, skip c n)"
proof -
  have "length (take n (drop (cur_pos c) (cur_bytes c))) = n"
    using assms(1,2) by (simp add: stands_before_def)
  moreover have "cur_pos c \<le> length (cur_bytes c)"
    using assms(1) by (simp add: stands_before_def cursor_ok_def)
  ultimately have "cur_pos c + n \<le> length (cur_bytes c)" by simp
  with assms show ?thesis by (simp add: stands_before_def read_slice_eq skip_def)
qed

lemma le_roundtrip:
  "u16_from_le (to_le 2 (unat (h :: u16))) = h" "u32_from_le (to_le 4 (unat (w :: u32))) = w"
  "u64_from_le (to_le 8 (unat (d :: u64))) = d"
proof -
  have "unat h < 65536" "unat w < 4294967296"
    using unsigned_less [of h, where ?'a = nat] unsigned_less [of w, where ?'a = nat] by simp_all
  then show "u16_from_le (to_le 2 (unat h)) = h" "u32_from_le (to_le 4 (unat w)) = w"
    "u64_from_le (to_le 8 (unat d)) = d"
    by (simp_all add: u16_from_le_def u32_from_le_def u64_from_le_def le_nat_to_le)
qed

interpretation u8c: field_codec read_u8 "\<lambda>_ v. [v]" "\<lambda>_ _. True"
  by unfold_locales (simp add: stands_before_Cons(1) skip_def)

interpretation u16c: field_codec read_u16 "\<lambda>_ v. to_le 2 (unat v)" "\<lambda>_ _. True"
  by unfold_locales (simp add: read_u16_def read_slice_stands le_roundtrip)

interpretation u32c: field_codec read_u32 "\<lambda>_ v. to_le 4 (unat v)" "\<lambda>_ _. True"
  by unfold_locales (simp add: read_u32_def read_slice_stands le_roundtrip)

interpretation u64c: field_codec read_u64 "\<lambda>_ v. to_le 8 (unat v)" "\<lambda>_ _. True"
  by unfold_locales (simp add: read_u64_def read_slice_stands le_roundtrip)

interpretation ulebc: field_codec read_uleb128 "\<lambda>_ v. uleb_encode (unat v)" "\<lambda>_ _. True"
proof
  fix c :: cursor and v :: u64 and oc
  assume s: "stands_before c (uleb_encode (unat v))"
  have "unat v < 128 ^ Suc 9" by (rule less_trans [OF unat_u64_less]) simp
  from length_uleb_encode [OF this] s uleb_encode_block [of "unat v"]
  show "read_uleb128 oc c = Ok (v, skip c (length (uleb_encode (unat v))))"
    using uleb128_loop_block [of "uleb_encode (unat v)" c 0 0 oc]
    by (simp add: read_uleb128_def skip_def)
qed

interpretation slebc: field_codec read_sleb128 "\<lambda>_ v. sleb_encode (sint v)" "\<lambda>_ _. True"
proof
  fix c :: cursor and v :: i64 and oc
  assume s: "stands_before c (sleb_encode (sint v))"
  have "- (64 * 128 ^ 9) \<le> sint v" and "sint v < 64 * 128 ^ 9"
    using sint_ge [of v] sint_lt [of v] by simp_all
  from length_sleb_encode [OF this] s sleb_encode_block [of "sint v"]
  show "read_sleb128 oc c = Ok (v, skip c (length (sleb_encode (sint v))))"
    using sleb128_loop_block [of "sleb_encode (sint v)" c 0 0 oc]
    by (simp add: read_sleb128_def skip_def)
qed

section \<open>Encoded pointers\<close>

text \<open>The bytes of a raw value in a pointer format, and the values the format can hold.\<close>

definition encode_format :: "u8 \<Rightarrow> u64 \<Rightarrow> bytes" where
  "encode_format fmt raw =
     (if fmt = DW_EH_PE_UDATA2 \<or> fmt = DW_EH_PE_SDATA2 then to_le 2 (unat (ucast raw :: u16))
      else if fmt = DW_EH_PE_UDATA4 \<or> fmt = DW_EH_PE_SDATA4 then to_le 4 (unat (ucast raw :: u32))
      else if fmt = DW_EH_PE_ULEB128 then uleb_encode (unat raw)
      else if fmt = DW_EH_PE_SLEB128 then sleb_encode (sint raw)
      else to_le 8 (unat raw))"

definition format_fits :: "u8 \<Rightarrow> u64 \<Rightarrow> bool" where
  "format_fits fmt raw =
     (if fmt = DW_EH_PE_UDATA2 then ucast (ucast raw :: u16) = raw
      else if fmt = DW_EH_PE_SDATA2 then scast (ucast raw :: u16) = raw
      else if fmt = DW_EH_PE_UDATA4 then ucast (ucast raw :: u32) = raw
      else if fmt = DW_EH_PE_SDATA4 then scast (ucast raw :: u32) = raw
      else fmt \<in> {DW_EH_PE_ABSPTR, DW_EH_PE_UDATA8, DW_EH_PE_SDATA8, DW_EH_PE_ULEB128,
        DW_EH_PE_SLEB128})"

interpretation fmtc: field_codec "\<lambda>oc. read_format oc e fmt" "\<lambda>_. encode_format fmt"
  "\<lambda>_. format_fits fmt" for e fmt
proof
  fix c :: cursor and v :: u64 and oc
  assume "stands_before c (encode_format fmt v)" and "format_fits fmt v"
  then show "read_format oc e fmt c = Ok (v, skip c (length (encode_format fmt v)))"
    by (auto simp: read_format_def encode_format_def format_fits_def eh_pe_defs
        u16c.decodes u32c.decodes u64c.decodes ulebc.decodes slebc.decodes split: if_splits)
qed

text \<open>What a pointer encoding is relative to; \<open>at\<close> is the address of the pointer itself.\<close>

definition pointer_base :: "u8 \<Rightarrow> u64 \<Rightarrow> u64 \<Rightarrow> u64 \<Rightarrow> u64 \<Rightarrow> u64 option" where
  "pointer_base e text_base data_base func_base at =
     (let app = e AND DW_EH_PE_APP_MASK in
      if app = 0 then Some 0
      else if app = DW_EH_PE_PCREL then Some at
      else if app = DW_EH_PE_TEXTREL then Some text_base
      else if app = DW_EH_PE_DATAREL then Some data_base
      else if app = DW_EH_PE_FUNCREL then Some func_base
      else None)"

definition base_or_zero :: "u64 option \<Rightarrow> u64" where
  "base_or_zero b = (case b of Some v \<Rightarrow> v | None \<Rightarrow> 0)"

text \<open>The null pointer is written as zero whatever the base.\<close>

definition raw_pointer :: "u64 \<Rightarrow> u64 \<Rightarrow> u64" where
  "raw_pointer base v = (if v = 0 then 0 else v - base)"

definition encode_pointer :: "u8 \<Rightarrow> u64 \<Rightarrow> u64 \<Rightarrow> u64 \<Rightarrow> u64 \<Rightarrow> u64 \<Rightarrow> bytes" where
  "encode_pointer e tb db fb at v =
     encode_format (e AND DW_EH_PE_FORMAT_MASK)
       (raw_pointer (base_or_zero (pointer_base e tb db fb at)) v)"

text \<open>
  A pointer that can be written: the encoding is one the reader supports, the offset from the
  base fits, and it is zero for the null pointer only.
\<close>

definition pointer_fits :: "u8 \<Rightarrow> u64 \<Rightarrow> u64 \<Rightarrow> u64 \<Rightarrow> u64 \<Rightarrow> u64 \<Rightarrow> bool" where
  "pointer_fits e tb db fb at v =
     (e \<noteq> DW_EH_PE_OMIT \<and> e AND DW_EH_PE_INDIRECT = 0 \<and>
      (case pointer_base e tb db fb at of
         None \<Rightarrow> False
       | Some b \<Rightarrow> format_fits (e AND DW_EH_PE_FORMAT_MASK) (raw_pointer b v) \<and>
           (v = b \<longrightarrow> v = 0)))"

lemma direct_masks:
  "(e AND - 129) AND 0x0f = (e AND 0x0f :: u8)" "(e AND - 129) AND 0x70 = (e AND 0x70 :: u8)"
  by (simp_all add: and.assoc)

interpretation ptrc: field_codec "\<lambda>oc. read_encoded oc e tb db fb" "encode_pointer e tb db fb"
  "pointer_fits e tb db fb" for e tb db fb
proof
  fix c :: cursor and v :: u64 and oc
  assume s: "stands_before c (encode_pointer e tb db fb (current_avma c) v)"
    and fits: "pointer_fits e tb db fb (current_avma c) v"
  then obtain b where b: "pointer_base e tb db fb (current_avma c) = Some b"
    and e: "e \<noteq> DW_EH_PE_OMIT" "e AND DW_EH_PE_INDIRECT = 0" "v = b \<longrightarrow> v = 0"
    and f: "format_fits (e AND DW_EH_PE_FORMAT_MASK) (raw_pointer b v)"
    by (auto simp: pointer_fits_def split: option.splits)
  let ?bs = "encode_format (e AND DW_EH_PE_FORMAT_MASK) (raw_pointer b v)"
  have enc: "encode_pointer e tb db fb (current_avma c) v = ?bs"
    using b by (simp add: encode_pointer_def base_or_zero_def)
  have "read_format oc e (e AND DW_EH_PE_FORMAT_MASK) c = Ok (raw_pointer b v, skip c (length ?bs))"
    using fmtc.decodes [OF _ f] s enc by simp
  then show "read_encoded oc e tb db fb c =
      Ok (v, skip c (length (encode_pointer e tb db fb (current_avma c) v)))"
    using b e unfolding enc
    by (auto simp: read_encoded_def read_encoded_impl_def Let_def pointer_base_def direct_masks
        raw_pointer_def eh_pe_defs simp del: and_then_Ok_iff split: if_splits)
qed

text \<open>
  The personality pointer of a CIE: an indirect one is read past and reported as absent, since
  the parser does not read the memory it points at.
\<close>

definition personality_fits :: "u8 \<Rightarrow> u64 \<Rightarrow> u64 \<Rightarrow> bool" where
  "personality_fits e at v =
     (if e AND DW_EH_PE_INDIRECT = 0 then pointer_fits e 0 0 0 at v
      else e \<noteq> DW_EH_PE_OMIT \<and>
        format_fits (e AND DW_EH_PE_FORMAT_MASK)
          (raw_pointer (base_or_zero (pointer_base e 0 0 0 at)) v))"

definition personality_value :: "u8 \<Rightarrow> u64 \<Rightarrow> u64" where
  "personality_value e v = (if e AND DW_EH_PE_INDIRECT = 0 then v else 0)"

lemma read_encoded_personality_decodes:
  assumes s: "stands_before c (encode_pointer e 0 0 0 (current_avma c) v)"
    and fits: "personality_fits e (current_avma c) v"
  shows "read_encoded_personality oc e 0 0 0 c =
    Ok (personality_value e v, skip c (length (encode_pointer e 0 0 0 (current_avma c) v)))"
proof (cases "e AND DW_EH_PE_INDIRECT = 0")
  case True
  then have "read_encoded_personality oc e 0 0 0 c = read_encoded oc e 0 0 0 c"
    by (simp add: read_encoded_personality_def read_encoded_def read_encoded_impl_def Let_def)
  with True ptrc.decodes [OF s] fits show ?thesis
    by (simp add: personality_fits_def personality_value_def)
next
  case False
  then have f: "format_fits (e AND DW_EH_PE_FORMAT_MASK)
      (raw_pointer (base_or_zero (pointer_base e 0 0 0 (current_avma c))) v)" "e \<noteq> DW_EH_PE_OMIT"
    using fits by (simp_all add: personality_fits_def)
  note fmt = fmtc.decodes [OF s [unfolded encode_pointer_def] f(1), of oc e]
  from False fmt f(2) show ?thesis
    by (simp add: read_encoded_personality_def read_encoded_impl_def Let_def personality_value_def
        encode_pointer_def direct_masks DW_EH_PE_FORMAT_MASK_def DW_EH_PE_INDIRECT_def
        del: and_then_Ok_iff)
qed

section \<open>Augmentations\<close>

datatype aug_item =
    Aug_R u8
  | Aug_L u8
  | Aug_P u8 u64
  | Aug_S
  | Aug_B
  | Aug_G

primrec aug_char :: "aug_item \<Rightarrow> u8" where
  "aug_char (Aug_R e) = 0x52"
| "aug_char (Aug_L e) = 0x4c"
| "aug_char (Aug_P e v) = 0x50"
| "aug_char Aug_S = 0x53"
| "aug_char Aug_B = 0x42"
| "aug_char Aug_G = 0x47"

primrec encode_aug_item :: "u64 \<Rightarrow> aug_item \<Rightarrow> bytes" where
  "encode_aug_item at (Aug_R e) = [e]"
| "encode_aug_item at (Aug_L e) = [e]"
| "encode_aug_item at (Aug_P e v) = e # encode_pointer e 0 0 0 (at + 1) v"
| "encode_aug_item at Aug_S = []"
| "encode_aug_item at Aug_B = []"
| "encode_aug_item at Aug_G = []"

primrec aug_item_fits :: "u64 \<Rightarrow> aug_item \<Rightarrow> bool" where
  "aug_item_fits at (Aug_R e) = True"
| "aug_item_fits at (Aug_L e) = True"
| "aug_item_fits at (Aug_P e v) = personality_fits e (at + 1) v"
| "aug_item_fits at Aug_S = True"
| "aug_item_fits at Aug_B = True"
| "aug_item_fits at Aug_G = True"

primrec aug_apply :: "aug_item \<Rightarrow> aug_state \<Rightarrow> aug_state" where
  "aug_apply (Aug_R e) st = st\<lparr>aug_fde_encoding := e\<rparr>"
| "aug_apply (Aug_L e) st = st\<lparr>aug_lsda_encoding := e\<rparr>"
| "aug_apply (Aug_P e v) st = st\<lparr>aug_personality := personality_value e v\<rparr>"
| "aug_apply Aug_S st = st\<lparr>aug_signal_frame := True\<rparr>"
| "aug_apply Aug_B st = st"
| "aug_apply Aug_G st = st"

primrec encode_augs :: "u64 \<Rightarrow> aug_item list \<Rightarrow> bytes" where
  "encode_augs at [] = []"
| "encode_augs at (i # items) =
     encode_aug_item at i @ encode_augs (at + word_of_nat (length (encode_aug_item at i))) items"

primrec augs_fit :: "u64 \<Rightarrow> aug_item list \<Rightarrow> bool" where
  "augs_fit at [] = True"
| "augs_fit at (i # items) =
     (aug_item_fits at i \<and> augs_fit (at + word_of_nat (length (encode_aug_item at i))) items)"

lemma aug_step_decodes:
  assumes "stands_before c (encode_aug_item (current_avma c) i)"
    and "aug_item_fits (current_avma c) i"
  shows "aug_step oc (aug_char i) st c =
    Ok (aug_apply i st, skip c (length (encode_aug_item (current_avma c) i)))"
proof (cases i)
  case (Aug_P e v)
  with assms(1) have s: "stands_before c ([e] @ encode_pointer e 0 0 0 (current_avma c + 1) v)"
    by simp
  from u8c.decodes_first [OF s] have "read_u8 oc c = Ok (e, skip c 1)"
    and "stands_before (skip c 1) (encode_pointer e 0 0 0 (current_avma c + 1) v)" by simp_all
  with Aug_P assms(2) read_encoded_personality_decodes [of "skip c 1" e v oc] show ?thesis
    by (simp add: aug_step_def del: and_then_Ok_iff)
qed (use assms u8c.decodes in \<open>simp_all add: aug_step_def del: and_then_Ok_iff\<close>)

lemma aug_loop_decodes:
  assumes "stands_before c (encode_augs (current_avma c) items)" and "augs_fit (current_avma c) items"
  shows "aug_loop oc (map aug_char items) st c =
    Ok (fold aug_apply items st, skip c (length (encode_augs (current_avma c) items)))"
  using assms
proof (induction items arbitrary: c st)
  case Nil
  then show ?case by simp
next
  case (Cons i items)
  let ?n = "length (encode_aug_item (current_avma c) i)"
  from stands_before_appendD [OF Cons.prems(1) [simplified]] Cons.prems(2)
  have "aug_step oc (aug_char i) st c = Ok (aug_apply i st, skip c ?n)"
    and "stands_before (skip c ?n) (encode_augs (current_avma (skip c ?n)) items)"
    and "augs_fit (current_avma (skip c ?n)) items"
    by (simp_all add: aug_step_decodes)
  with Cons.IH [of "skip c ?n" "aug_apply i st"] show ?case by (simp del: and_then_Ok_iff)
qed

section \<open>Entry headers\<close>

definition encode_length :: "bool \<Rightarrow> nat \<Rightarrow> bytes" where
  "encode_length d64 n =
     (if d64 then to_le 4 0xffffffff @ to_le 8 n else to_le 4 n)"

definition length_fits :: "bool \<Rightarrow> nat \<Rightarrow> bool" where
  "length_fits d64 n = (if d64 then n < usize_limit else n < 0xffffffff)"

definition encode_id :: "bool \<Rightarrow> u64 \<Rightarrow> bytes" where
  "encode_id d64 v = to_le (if d64 then 8 else 4) (unat v)"

definition id_fits :: "bool \<Rightarrow> u64 \<Rightarrow> bool" where
  "id_fits d64 v = (d64 \<or> unat v < 4294967296)"

lemma to_le_word:
  "n < 4294967296 \<Longrightarrow> to_le 4 n = to_le 4 (unat (word_of_nat n :: u32))"
  "n < usize_limit \<Longrightarrow> to_le 8 n = to_le 8 (unat (word_of_nat n :: u64))"
  by (simp_all add: unat_of_nat)

lemma read_entry_length_decodes:
  assumes s: "stands_before c (encode_length d64 (length rest) @ rest)"
    and fits: "length_fits d64 (length rest)"
  shows "read_entry_length oc c =
      Ok ((d64, cur_pos c + length (encode_length d64 (length rest)) + length rest),
          skip c (length (encode_length d64 (length rest))))"
    and "stands_before (skip c (length (encode_length d64 (length rest)))) rest"
proof -
  let ?n = "length (encode_length d64 (length rest))"
  note st = stands_before_appendD [OF s]
  show "stands_before (skip c ?n) rest" by (rule st(2))
  have "cur_pos (skip c (?n + length rest)) \<le> length (cur_bytes c)"
    using stands_before_appendD(2) [of "skip c ?n" rest "[]"] st(2)
    by (simp add: stands_before_def cursor_ok_def)
  moreover have "slice_ok (cur_bytes c)" using s by (simp add: stands_before_def cursor_ok_def)
  ultimately have small: "cur_pos c + ?n + length rest < usize_limit" by (simp add: slice_ok_def)
  show "read_entry_length oc c = Ok ((d64, cur_pos c + ?n + length rest), skip c ?n)"
  proof (cases d64)
    case True
    have "stands_before c (to_le 4 (unat (0xffffffff :: u32)) @ to_le 8 (unat (word_of_nat (length rest) :: u64)))"
      using st(1) True fits by (simp add: encode_length_def length_fits_def)
    from u32c.decodes_first [OF this] have "read_u32 oc c = Ok (0xffffffff, skip c 4)"
      and "read_u64 oc (skip c 4) = Ok (word_of_nat (length rest), skip c 12)"
      using u64c.decodes [of "skip c 4" "word_of_nat (length rest)" oc] by simp_all
    with small True fits show ?thesis
      by (simp add: read_entry_length_def checked_add_usize_def encode_length_def length_fits_def
          del: and_then_Ok_iff)
  next
    case False
    have n: "length rest < 0xffffffff" using fits False by (simp add: length_fits_def)
    then have u: "unat (word_of_nat (length rest) :: u32) = length rest" by (simp add: unat_of_nat)
    have "(word_of_nat (length rest) :: u32) \<noteq> 0xffffffff"
    proof
      assume "(word_of_nat (length rest) :: u32) = 0xffffffff"
      then have "unat (word_of_nat (length rest) :: u32) = 0xffffffff" by simp
      with n u show False by simp
    qed
    moreover have "stands_before c (to_le 4 (unat (word_of_nat (length rest) :: u32)))"
      using st(1) False u by (simp add: encode_length_def)
    ultimately show ?thesis
      using u32c.decodes [of c "word_of_nat (length rest)" oc] small False u
      by (simp add: read_entry_length_def checked_add_usize_def encode_length_def
          del: and_then_Ok_iff)
  qed
qed

interpretation idc: field_codec "\<lambda>oc. read_entry_id oc d64" "\<lambda>_. encode_id d64" "\<lambda>_. id_fits d64"
  for d64
proof
  fix c :: cursor and v :: u64 and oc
  assume s: "stands_before c (encode_id d64 v)" and f: "id_fits d64 v"
  show "read_entry_id oc d64 c = Ok (v, skip c (length (encode_id d64 v)))"
  proof (cases d64)
    case True
    with s u64c.decodes [of c v oc] show ?thesis by (simp add: encode_id_def read_entry_id_def)
  next
    case False
    with f have "unat v < 4294967296" by (simp add: id_fits_def)
    then have u: "unat (ucast v :: u32) = unat v" and w: "ucast (ucast v :: u32) = v"
      by (simp_all add: unsigned_ucast_eq unsigned_take_bit_eq take_bit_nat_eq_self word_unat_eq_iff)
    from s False u have "stands_before c (to_le 4 (unat (ucast v :: u32)))"
      by (simp add: encode_id_def)
    from u32c.decodes [OF this] False w show ?thesis
      by (simp add: encode_id_def read_entry_id_def del: and_then_Ok_iff)
  qed
qed

lemma instr_range_decodes:
  assumes "stands_before c instrs"
  shows "instr_range oc c (cur_pos c + length instrs) = Ok (cur_pos c, length instrs)"
proof -
  have "cur_pos (skip c (length instrs)) \<le> length (cur_bytes c)"
    using stands_before_appendD(2) [of c instrs "[]"] assms
    by (simp add: stands_before_def cursor_ok_def)
  then show ?thesis by (simp add: instr_range_def Let_def)
qed

section \<open>CIEs\<close>

text \<open>
  What a compiler says about a CIE.  The augmentation is absent or sized (\<open>z\<close>), with the
  length the writer declares and the items; the parser does not rely on that length.
\<close>

record cie_source =
  cs_dwarf64 :: bool
  cs_version :: u8
  cs_aug :: "(u64 \<times> aug_item list) option"
  cs_code_align :: u64
  cs_data_align :: i64
  cs_ret_addr_column :: u64
  cs_instructions :: bytes

definition aug_string :: "cie_source \<Rightarrow> bytes" where
  "aug_string cs = (case cs_aug cs of None \<Rightarrow> [] | Some (n, items) \<Rightarrow> 0x7a # map aug_char items)"

definition encode_ret :: "u8 \<Rightarrow> u64 \<Rightarrow> bytes" where
  "encode_ret version v = (if version = 1 then [ucast v] else uleb_encode (unat v))"

definition encode_address_size :: "u8 \<Rightarrow> bytes" where
  "encode_address_size version = (if version = 4 then [8, 0] else [])"

definition encode_aug_data :: "u64 \<Rightarrow> (u64 \<times> aug_item list) option \<Rightarrow> bytes" where
  "encode_aug_data at aug =
     (case aug of None \<Rightarrow> []
      | Some (n, items) \<Rightarrow>
          uleb_encode (unat n) @ encode_augs (at + word_of_nat (length (uleb_encode (unat n)))) items)"

definition aug_data_fits :: "u64 \<Rightarrow> (u64 \<times> aug_item list) option \<Rightarrow> bool" where
  "aug_data_fits at aug =
     (case aug of None \<Rightarrow> True
      | Some (n, items) \<Rightarrow> augs_fit (at + word_of_nat (length (uleb_encode (unat n)))) items)"

text \<open>The fields between the id and the augmentation data.\<close>

definition cie_fields :: "cie_source \<Rightarrow> bytes" where
  "cie_fields cs =
     [cs_version cs] @ aug_string cs @ [0] @ encode_address_size (cs_version cs) @
     uleb_encode (unat (cs_code_align cs)) @ sleb_encode (sint (cs_data_align cs)) @
     encode_ret (cs_version cs) (cs_ret_addr_column cs)"

definition header_width :: "bool \<Rightarrow> nat" where
  "header_width d64 = (if d64 then 20 else 8)"

definition cie_aug_at :: "u64 \<Rightarrow> cie_source \<Rightarrow> u64" where
  "cie_aug_at at cs = at + word_of_nat (header_width (cs_dwarf64 cs) + length (cie_fields cs))"

definition cie_body :: "u64 \<Rightarrow> cie_source \<Rightarrow> bytes" where
  "cie_body at cs =
     encode_id (cs_dwarf64 cs) 0 @ cie_fields cs @ encode_aug_data (cie_aug_at at cs) (cs_aug cs) @
     cs_instructions cs"

definition encode_cie :: "u64 \<Rightarrow> cie_source \<Rightarrow> bytes" where
  "encode_cie at cs = encode_length (cs_dwarf64 cs) (length (cie_body at cs)) @ cie_body at cs"

definition cie_source_fits :: "u64 \<Rightarrow> cie_source \<Rightarrow> bool" where
  "cie_source_fits at cs \<longleftrightarrow>
     length_fits (cs_dwarf64 cs) (length (cie_body at cs)) \<and> cs_version cs \<in> {1, 3, 4} \<and>
     (cs_version cs = 1 \<longrightarrow> unat (cs_ret_addr_column cs) < 256) \<and>
     aug_data_fits (cie_aug_at at cs) (cs_aug cs)"

definition aug_result :: "cie_source \<Rightarrow> aug_state" where
  "aug_result cs =
     (case cs_aug cs of None \<Rightarrow> aug_init | Some (n, items) \<Rightarrow> fold aug_apply items aug_init)"

text \<open>The CIE a parser must report for a source written at offset \<open>off\<close>.\<close>

definition cie_of :: "u64 \<Rightarrow> usize \<Rightarrow> cie_source \<Rightarrow> parsed_cie" where
  "cie_of at off cs =
     \<lparr>cie_code_align = cs_code_align cs, cie_data_align = cs_data_align cs,
      cie_ret_addr_column = cs_ret_addr_column cs,
      cie_fde_encoding = aug_fde_encoding (aug_result cs),
      cie_lsda_encoding = aug_lsda_encoding (aug_result cs),
      cie_personality = aug_personality (aug_result cs), cie_has_z = (cs_aug cs \<noteq> None),
      cie_signal_frame = aug_signal_frame (aug_result cs),
      cie_instr_offset_in_eh_frame =
        off + (length (encode_cie at cs) - length (cs_instructions cs)),
      cie_instr_len = length (cs_instructions cs)\<rparr>"

lemma position_append:
  "\<forall>b \<in> set s. \<not> P b \<Longrightarrow> P z \<Longrightarrow> position P (s @ z # rest) = Some (length s)"
  by (induction s) auto

lemma read_aug_string_decodes:
  assumes s: "stands_before c (s @ [0] @ rest)" and nz: "0 \<notin> set s"
  shows "read_aug_string oc c = Ok (s, skip c (length s + 1))"
    and "stands_before (skip c (length s + 1)) rest"
proof -
  have st: "stands_before c ((s @ [0]) @ rest)" using s by simp
  from stands_before_appendD(2) [OF st] show "stands_before (skip c (length s + 1)) rest" by simp
  have "take (length (s @ [0])) (drop (cur_pos c) (cur_bytes c)) = s @ [0]"
    using stands_before_appendD(1) [OF st] by (simp only: stands_before_def)
  then obtain more where d: "drop (cur_pos c) (cur_bytes c) = s @ 0 # more"
    by (metis append_assoc append_Cons append_Nil append_take_drop_id)
  have "position (\<lambda>b. b = 0) (drop (cur_pos c) (cur_bytes c)) = Some (length s)"
    unfolding d using nz by (intro position_append) auto
  then show "read_aug_string oc c = Ok (s, skip c (length s + 1))"
    using stands_before_ok [OF s] d by (simp add: read_aug_string_eq skip_def)
qed

lemma aug_string_nonzero: "0 \<notin> set (aug_string cs)"
proof -
  have "aug_char i \<noteq> 0" for i by (cases i) simp_all
  then show ?thesis by (auto simp: aug_string_def split: option.split)
qed

interpretation retc: field_codec "\<lambda>oc. read_ret_addr_column oc version" "\<lambda>_. encode_ret version"
  "\<lambda>_ v. version = 1 \<longrightarrow> unat v < 256" for version
proof
  fix c :: cursor and v :: u64 and oc
  assume s: "stands_before c (encode_ret version v)" and f: "version = 1 \<longrightarrow> unat v < 256"
  show "read_ret_addr_column oc version c = Ok (v, skip c (length (encode_ret version v)))"
  proof (cases "version = 1")
    case True
    with f have "ucast (ucast v :: u8) = v"
      by (simp add: word_unat_eq_iff unsigned_ucast_eq unsigned_take_bit_eq take_bit_nat_eq_self)
    with True s u8c.decodes [of c "ucast v" oc] show ?thesis
      by (simp add: read_ret_addr_column_def encode_ret_def del: and_then_Ok_iff)
  qed (use s ulebc.decodes [of c v oc] in \<open>simp add: read_ret_addr_column_def encode_ret_def\<close>)
qed

lemma check_address_size_decodes:
  assumes "stands_before c (encode_address_size version)"
  shows "check_address_size oc version c =
    Ok ((), skip c (length (encode_address_size version)))"
proof (cases "version = 4")
  case True
  with assms have s: "stands_before c ([8] @ [0])" by (simp add: encode_address_size_def)
  have "read_u8 oc c = Ok (8, skip c 1)" "stands_before (skip c 1) [0]"
    using u8c.decodes_first [OF s] by simp_all
  with True u8c.decodes [of "skip c 1" 0 oc] show ?thesis
    by (simp add: check_address_size_def encode_address_size_def del: and_then_Ok_iff)
qed (simp add: check_address_size_def encode_address_size_def)

lemma parse_augmentation_decodes:
  assumes "stands_before c (encode_aug_data (current_avma c) (cs_aug cs))"
    and "aug_data_fits (current_avma c) (cs_aug cs)"
  shows "parse_augmentation oc start (aug_string cs) c =
    Ok ((cs_aug cs \<noteq> None, aug_result cs),
        skip c (length (encode_aug_data (current_avma c) (cs_aug cs))))"
proof (cases "cs_aug cs")
  case None
  then show ?thesis by (simp add: parse_augmentation_def aug_string_def aug_result_def encode_aug_data_def)
next
  case (Some a)
  obtain n items where a: "a = (n, items)" by (cases a)
  let ?l = "length (uleb_encode (unat n))"
  have s: "stands_before c (uleb_encode (unat n) @ encode_augs (current_avma (skip c ?l)) items)"
    and f: "augs_fit (current_avma (skip c ?l)) items"
    using assms Some a by (simp_all add: encode_aug_data_def aug_data_fits_def)
  have "read_uleb128 oc c = Ok (n, skip c ?l)"
    and "stands_before (skip c ?l) (encode_augs (current_avma (skip c ?l)) items)"
    using ulebc.decodes_first [OF s] by simp_all
  with aug_loop_decodes [OF _ f, of oc aug_init] Some a show ?thesis
    by (simp add: parse_augmentation_def aug_string_def aug_result_def encode_aug_data_def
        del: and_then_Ok_iff)
qed

lemma length_encode_header:
  "length (encode_length d64 n) + length (encode_id d64 v) = header_width d64"
  by (simp add: encode_length_def encode_id_def header_width_def)

text \<open>The fields between the id and the augmentation data, read in the order of the parser.\<close>

lemma cie_fields_decode:
  assumes s: "stands_before c (cie_fields cs @ rest)"
    and ret: "cs_version cs = 1 \<longrightarrow> unat (cs_ret_addr_column cs) < 256"
  obtains c1 c2 c3 c4 c5 where "read_u8 oc c = Ok (cs_version cs, c1)"
    and "read_aug_string oc c1 = Ok (aug_string cs, c2)"
    and "check_address_size oc (cs_version cs) c2 = Ok ((), c3)"
    and "read_uleb128 oc c3 = Ok (cs_code_align cs, c4)"
    and "read_sleb128 oc c4 = Ok (cs_data_align cs, c5)"
    and "read_ret_addr_column oc (cs_version cs) c5 =
      Ok (cs_ret_addr_column cs, skip c (length (cie_fields cs)))"
    and "stands_before (skip c (length (cie_fields cs))) rest"
proof -
  let ?v = "cs_version cs" and ?u = "uleb_encode (unat (cs_code_align cs))"
  let ?i = "sleb_encode (sint (cs_data_align cs))" and ?r = "encode_ret ?v (cs_ret_addr_column cs)"
  let ?a = "encode_address_size ?v"
  let ?s = "aug_string cs"
  have "stands_before c ([?v] @ (?s @ [0] @ (?a @ ?u @ ?i @ ?r @ rest)))"
    using s by (simp add: cie_fields_def)
  note 1 = u8c.decodes_first [OF this TrueI]
  note 2 = read_aug_string_decodes [OF 1(2) aug_string_nonzero]
  note 3 = stands_before_appendD [OF 2(2)]
  note 4 = ulebc.decodes_first [OF 3(2) TrueI]
  note 5 = slebc.decodes_first [OF 4(2) TrueI]
  note 6 = retc.decodes_first [OF 5(2) ret]
  show ?thesis
    by (rule that [OF 1(1) 2(1) check_address_size_decodes [OF 3(1)] 4(1) 5(1)])
      (use 6 in \<open>simp_all add: cie_fields_def add.assoc\<close>)
qed

lemma parse_cie_decodes:
  assumes s: "stands_before (entry_cursor bs off base) (encode_cie (base + word_of_nat off) cs)"
    and fits: "cie_source_fits (base + word_of_nat off) cs"
  shows "parse_cie oc bs off base = Ok (cie_of (base + word_of_nat off) off cs)"
proof -
  let ?c = "entry_cursor bs off base" and ?at = "base + word_of_nat off"
  let ?d = "cs_dwarf64 cs" and ?body = "cie_body ?at cs" and ?instrs = "cs_instructions cs"
  let ?aug = "encode_aug_data (cie_aug_at ?at cs) (cs_aug cs)"
  let ?h = "length (encode_length ?d (length ?body))" and ?w = "header_width ?d"
  have fit: "length_fits ?d (length ?body)" "cs_version cs \<in> {1, 3, 4}"
    "cs_version cs = 1 \<longrightarrow> unat (cs_ret_addr_column cs) < 256" "aug_data_fits (cie_aug_at ?at cs) (cs_aug cs)"
    using fits by (simp_all add: cie_source_fits_def)
  have len: "length (encode_id ?d 0) + ?h = ?w"
    using length_encode_header [of ?d "length ?body" 0] by (simp add: add.commute)
  note L = read_entry_length_decodes [OF s [unfolded encode_cie_def] fit(1)]
  have "stands_before (skip ?c ?h) (encode_id ?d 0 @ cie_fields cs @ ?aug @ ?instrs)"
    using L(2) by (simp add: cie_body_def)
  note I = idc.decodes_first [OF this]
  have "stands_before (skip ?c ?w) (cie_fields cs @ ?aug @ ?instrs)"
    using I(2) len by (simp add: id_fits_def add.commute)
  from cie_fields_decode [OF this fit(3), of oc] obtain c1 c2 c3 c4 c5 where
    f: "read_u8 oc (skip ?c ?w) = Ok (cs_version cs, c1)"
      "read_aug_string oc c1 = Ok (aug_string cs, c2)"
      "check_address_size oc (cs_version cs) c2 = Ok ((), c3)"
      "read_uleb128 oc c3 = Ok (cs_code_align cs, c4)" "read_sleb128 oc c4 = Ok (cs_data_align cs, c5)"
      "read_ret_addr_column oc (cs_version cs) c5 =
        Ok (cs_ret_addr_column cs, skip ?c (?w + length (cie_fields cs)))"
      "stands_before (skip ?c (?w + length (cie_fields cs))) (?aug @ ?instrs)"
    by (metis skip_simps(1))
  let ?c6 = "skip ?c (?w + length (cie_fields cs))"
  have at: "current_avma ?c6 = cie_aug_at ?at cs"
    by (simp add: cie_aug_at_def current_avma_def add.assoc)
  note A = stands_before_appendD [OF f(7)]
  have aug: "parse_augmentation oc (cur_pos c1) (aug_string cs) ?c6 =
      Ok ((cs_aug cs \<noteq> None, aug_result cs), skip ?c6 (length ?aug))"
    using parse_augmentation_decodes [of ?c6 cs] A(1) fit(4) unfolding at by blast
  have total: "?h + length ?body = ?w + length (cie_fields cs) + length ?aug + length ?instrs"
    using len by (simp add: cie_body_def)
  have rng: "instr_range oc (skip ?c6 (length ?aug)) (off + ?h + length ?body) =
      Ok (off + (?w + length (cie_fields cs) + length ?aug), length ?instrs)"
    using instr_range_decodes [OF A(2), of oc] total by (simp add: add.assoc)
  have "read_entry_id oc ?d (skip ?c ?h) = Ok (0, skip ?c ?w)"
    using I(1) len by (simp add: id_fits_def add.commute)
  with L(1) f aug rng fit(2) total show ?thesis
    by (auto simp: parse_cie_def cie_of_def encode_cie_def Let_def simp del: and_then_Ok_iff)
qed

section \<open>FDEs\<close>

text \<open>
  What a compiler says about a function: its address and size, the pointer back to its CIE,
  and, when the CIE's augmentation is sized, the language-specific data with whatever else the
  writer put into the augmentation data.
\<close>

record fde_source =
  fs_dwarf64 :: bool
  fs_cie_ptr :: u64
  fs_pc :: u64
  fs_range :: u64
  fs_aug_len :: u64
  fs_lsda :: u64
  fs_aug_rest :: bytes
  fs_instructions :: bytes

definition encode_pc :: "fde_parse_config \<Rightarrow> u64 \<Rightarrow> u64 \<Rightarrow> bytes" where
  "encode_pc cfg = encode_pointer (cfg_fde_encoding cfg) (cfg_text_base cfg) (cfg_data_base cfg) 0"

definition encode_range :: "fde_parse_config \<Rightarrow> u64 \<Rightarrow> u64 \<Rightarrow> bytes" where
  "encode_range cfg = encode_pointer (cfg_fde_encoding cfg AND DW_EH_PE_FORMAT_MASK) 0 0 0"

definition encode_lsda :: "fde_parse_config \<Rightarrow> u64 \<Rightarrow> u64 \<Rightarrow> u64 \<Rightarrow> bytes" where
  "encode_lsda cfg pc at v =
     (if cfg_lsda_encoding cfg \<noteq> DW_EH_PE_OMIT then
        encode_pointer (cfg_lsda_encoding cfg) (cfg_text_base cfg) (cfg_data_base cfg) pc at v
      else [])"

definition lsda_fits :: "fde_parse_config \<Rightarrow> u64 \<Rightarrow> u64 \<Rightarrow> u64 \<Rightarrow> bool" where
  "lsda_fits cfg pc at v =
     (if cfg_lsda_encoding cfg \<noteq> DW_EH_PE_OMIT then
        pointer_fits (cfg_lsda_encoding cfg) (cfg_text_base cfg) (cfg_data_base cfg) pc at v
      else v = 0)"

interpretation lsdac: field_codec "\<lambda>oc. read_lsda oc cfg pc" "encode_lsda cfg pc" "lsda_fits cfg pc"
  for cfg pc
  by unfold_locales (auto simp: read_lsda_def encode_lsda_def lsda_fits_def ptrc.decodes split: if_splits)

definition lsda_at :: "u64 \<Rightarrow> fde_source \<Rightarrow> u64" where
  "lsda_at at fs = at + word_of_nat (length (uleb_encode (unat (fs_aug_len fs))))"

definition encode_fde_aug :: "fde_parse_config \<Rightarrow> u64 \<Rightarrow> fde_source \<Rightarrow> bytes" where
  "encode_fde_aug cfg at fs =
     (if cfg_has_z cfg then
        uleb_encode (unat (fs_aug_len fs)) @ encode_lsda cfg (fs_pc fs) (lsda_at at fs) (fs_lsda fs) @
        fs_aug_rest fs
      else [])"

definition fde_aug_fits :: "fde_parse_config \<Rightarrow> u64 \<Rightarrow> fde_source \<Rightarrow> bool" where
  "fde_aug_fits cfg at fs =
     (if cfg_has_z cfg then
        lsda_fits cfg (fs_pc fs) (lsda_at at fs) (fs_lsda fs) \<and>
        unat (fs_aug_len fs) =
          length (encode_lsda cfg (fs_pc fs) (lsda_at at fs) (fs_lsda fs)) + length (fs_aug_rest fs)
      else fs_lsda fs = 0)"

text \<open>Where the fields of an FDE at address \<open>at\<close> stand.\<close>

definition fde_pc_at :: "u64 \<Rightarrow> fde_source \<Rightarrow> u64" where
  "fde_pc_at at fs = at + word_of_nat (header_width (fs_dwarf64 fs))"

definition fde_range_at :: "fde_parse_config \<Rightarrow> u64 \<Rightarrow> fde_source \<Rightarrow> u64" where
  "fde_range_at cfg at fs =
     fde_pc_at at fs + word_of_nat (length (encode_pc cfg (fde_pc_at at fs) (fs_pc fs)))"

definition fde_aug_at :: "fde_parse_config \<Rightarrow> u64 \<Rightarrow> fde_source \<Rightarrow> u64" where
  "fde_aug_at cfg at fs =
     fde_range_at cfg at fs +
       word_of_nat (length (encode_range cfg (fde_range_at cfg at fs) (fs_range fs)))"

definition fde_body :: "fde_parse_config \<Rightarrow> u64 \<Rightarrow> fde_source \<Rightarrow> bytes" where
  "fde_body cfg at fs =
     encode_id (fs_dwarf64 fs) (fs_cie_ptr fs) @ encode_pc cfg (fde_pc_at at fs) (fs_pc fs) @
     encode_range cfg (fde_range_at cfg at fs) (fs_range fs) @
     encode_fde_aug cfg (fde_aug_at cfg at fs) fs @ fs_instructions fs"

definition encode_fde :: "fde_parse_config \<Rightarrow> u64 \<Rightarrow> fde_source \<Rightarrow> bytes" where
  "encode_fde cfg at fs =
     encode_length (fs_dwarf64 fs) (length (fde_body cfg at fs)) @ fde_body cfg at fs"

definition fde_source_fits :: "fde_parse_config \<Rightarrow> u64 \<Rightarrow> fde_source \<Rightarrow> bool" where
  "fde_source_fits cfg at fs \<longleftrightarrow>
     length_fits (fs_dwarf64 fs) (length (fde_body cfg at fs)) \<and>
     fs_cie_ptr fs \<noteq> 0 \<and> id_fits (fs_dwarf64 fs) (fs_cie_ptr fs) \<and>
     pointer_fits (cfg_fde_encoding cfg) (cfg_text_base cfg) (cfg_data_base cfg) 0 (fde_pc_at at fs)
       (fs_pc fs) \<and>
     pointer_fits (cfg_fde_encoding cfg AND DW_EH_PE_FORMAT_MASK) 0 0 0 (fde_range_at cfg at fs)
       (fs_range fs) \<and>
     fde_aug_fits cfg (fde_aug_at cfg at fs) fs"

text \<open>The FDE a parser must report for a source written at offset \<open>off\<close>.\<close>

definition fde_of :: "fde_parse_config \<Rightarrow> u64 \<Rightarrow> usize \<Rightarrow> fde_source \<Rightarrow> parsed_fde" where
  "fde_of cfg at off fs =
     \<lparr>fde_initial_pc = fs_pc fs, fde_address_range = fs_range fs,
      fde_instr_offset_in_eh_frame =
        off + (length (encode_fde cfg at fs) - length (fs_instructions fs)),
      fde_instr_len = length (fs_instructions fs), fde_lsda = fs_lsda fs\<rparr>"

lemma read_fde_augmentation_decodes:
  assumes s: "stands_before c (encode_fde_aug cfg (current_avma c) fs @ rest)"
    and fits: "fde_aug_fits cfg (current_avma c) fs"
    and e: "e = cur_pos c + length (encode_fde_aug cfg (current_avma c) fs) + length rest"
  shows "read_fde_augmentation oc cfg e (fs_pc fs) c =
    Ok (fs_lsda fs, skip c (length (encode_fde_aug cfg (current_avma c) fs)))"
proof (cases "cfg_has_z cfg")
  case False
  with fits show ?thesis by (simp add: read_fde_augmentation_def encode_fde_aug_def fde_aug_fits_def)
next
  case True
  let ?u = "uleb_encode (unat (fs_aug_len fs))"
  let ?c1 = "skip c (length ?u)"
  let ?l = "encode_lsda cfg (fs_pc fs) (current_avma ?c1) (fs_lsda fs)"
  have l: "lsda_at (current_avma c) fs = current_avma ?c1" by (simp add: lsda_at_def)
  have s': "stands_before c (?u @ ?l @ fs_aug_rest fs @ rest)"
    using s True l by (simp add: encode_fde_aug_def)
  have f: "lsda_fits cfg (fs_pc fs) (current_avma ?c1) (fs_lsda fs)"
    "unat (fs_aug_len fs) = length ?l + length (fs_aug_rest fs)"
    using fits True l by (simp_all add: fde_aug_fits_def)
  note 1 = ulebc.decodes_first [OF s' TrueI]
  note 2 = lsdac.decodes_first [OF 1(2) f(1)]
  have "cur_pos (skip c (length (?u @ ?l @ fs_aug_rest fs))) \<le> length (cur_bytes c)"
    using stands_before_appendD(2) [of c "?u @ ?l @ fs_aug_rest fs" rest] s'
    by (simp add: stands_before_def cursor_ok_def)
  moreover have "slice_ok (cur_bytes c)" using s by (simp add: stands_before_def cursor_ok_def)
  ultimately have small: "cur_pos c + length ?u + unat (fs_aug_len fs) < usize_limit"
    using f(2) by (simp add: slice_ok_def)
  have e': "e = cur_pos c + length ?u + unat (fs_aug_len fs) + length rest"
    using e True f(2) l by (simp add: encode_fde_aug_def)
  have "length (encode_fde_aug cfg (current_avma c) fs) = length ?u + unat (fs_aug_len fs)"
    using True f(2) l by (simp add: encode_fde_aug_def)
  with True 1(1) 2(1) small e' f(2) show ?thesis
    by (simp add: read_fde_augmentation_def checked_add_usize_def Let_def skip_def
        del: and_then_Ok_iff)
qed

text \<open>The two pointers and the augmentation data, read in the order of the parser.\<close>

lemma fde_fields_decode:
  assumes at: "fde_pc_at at fs = current_avma c"
    and s: "stands_before c (f @ instrs)" and e: "e = cur_pos c + length f + length instrs"
    and f: "f = encode_pc cfg (fde_pc_at at fs) (fs_pc fs) @
      encode_range cfg (fde_range_at cfg at fs) (fs_range fs) @
      encode_fde_aug cfg (fde_aug_at cfg at fs) fs" (is "f = ?pc @ ?rg @ ?aug")
    and fits: "fde_source_fits cfg at fs"
  obtains c1 c2 where
    "read_encoded oc (cfg_fde_encoding cfg) (cfg_text_base cfg) (cfg_data_base cfg) 0 c = Ok (fs_pc fs, c1)"
    and "read_encoded oc (cfg_fde_encoding cfg AND DW_EH_PE_FORMAT_MASK) 0 0 0 c1 = Ok (fs_range fs, c2)"
    and "read_fde_augmentation oc cfg e (fs_pc fs) c2 =
      Ok (fs_lsda fs, skip c (length f))"
    and "stands_before (skip c (length f)) instrs"
proof -
  have fit: "pointer_fits (cfg_fde_encoding cfg) (cfg_text_base cfg) (cfg_data_base cfg) 0
      (current_avma c) (fs_pc fs)"
    "pointer_fits (cfg_fde_encoding cfg AND DW_EH_PE_FORMAT_MASK) 0 0 0 (fde_range_at cfg at fs)
       (fs_range fs)"
    "fde_aug_fits cfg (fde_aug_at cfg at fs) fs"
    using fits at by (simp_all add: fde_source_fits_def)
  have s': "stands_before c (?pc @ ?rg @ ?aug @ instrs)" using s f by simp
  note P = ptrc.decodes_first [OF s' [unfolded at encode_pc_def] fit(1)]
  let ?c1 = "skip c (length ?pc)"
  have at2: "fde_range_at cfg at fs = current_avma ?c1" by (simp add: fde_range_at_def at)
  have P': "stands_before ?c1 (?rg @ ?aug @ instrs)" using P(2) by (simp add: encode_pc_def at)
  note R = ptrc.decodes_first [OF P' [unfolded at2 encode_range_def] fit(2) [unfolded at2]]
  let ?c2 = "skip c (length ?pc + length ?rg)"
  have at3: "fde_aug_at cfg at fs = current_avma ?c2"
    by (simp add: fde_aug_at_def fde_range_at_def at add.assoc)
  have R': "stands_before ?c2 (?aug @ instrs)" using R(2) by (simp add: encode_range_def at2)
  have "read_fde_augmentation oc cfg e (fs_pc fs) ?c2 = Ok (fs_lsda fs, skip ?c2 (length ?aug))"
    using read_fde_augmentation_decodes [OF R' [unfolded at3] fit(3) [unfolded at3], of e oc] e f
    unfolding at3 by (simp add: add.assoc)
  then show ?thesis
    using P(1) R(1) stands_before_appendD(2) [OF R'] f
    by (intro that [of ?c1 ?c2]) (simp_all add: encode_pc_def encode_range_def at at2 add.assoc)
qed

lemma parse_fde_decodes:
  assumes s: "stands_before (entry_cursor bs off base) (encode_fde cfg (base + word_of_nat off) fs)"
    and fits: "fde_source_fits cfg (base + word_of_nat off) fs"
  shows "parse_fde oc bs off base cfg = Ok (fde_of cfg (base + word_of_nat off) off fs)"
proof -
  let ?c = "entry_cursor bs off base" and ?at = "base + word_of_nat off"
  let ?d = "fs_dwarf64 fs" and ?body = "fde_body cfg ?at fs" and ?instrs = "fs_instructions fs"
  let ?f = "encode_pc cfg (fde_pc_at ?at fs) (fs_pc fs) @
    encode_range cfg (fde_range_at cfg ?at fs) (fs_range fs) @
    encode_fde_aug cfg (fde_aug_at cfg ?at fs) fs"
  let ?h = "length (encode_length ?d (length ?body))" and ?w = "header_width ?d"
  have fit: "length_fits ?d (length ?body)" "fs_cie_ptr fs \<noteq> 0" "id_fits ?d (fs_cie_ptr fs)"
    using fits by (simp_all add: fde_source_fits_def)
  have len: "?h + length (encode_id ?d (fs_cie_ptr fs)) = ?w" by (rule length_encode_header)
  note L = read_entry_length_decodes [OF s [unfolded encode_fde_def] fit(1)]
  have "stands_before (skip ?c ?h) (encode_id ?d (fs_cie_ptr fs) @ ?f @ ?instrs)"
    using L(2) by (simp add: fde_body_def)
  from idc.decodes_first [OF this fit(3)]
  have I: "read_entry_id oc ?d (skip ?c ?h) = Ok (fs_cie_ptr fs, skip ?c ?w)"
    and I': "stands_before (skip ?c ?w) (?f @ ?instrs)"
    using len by simp_all
  have total: "?h + length ?body = ?w + length ?f + length ?instrs"
    using len by (simp add: fde_body_def)
  obtain c1 c2 where f:
    "read_encoded oc (cfg_fde_encoding cfg) (cfg_text_base cfg) (cfg_data_base cfg) 0 (skip ?c ?w) =
      Ok (fs_pc fs, c1)"
    "read_encoded oc (cfg_fde_encoding cfg AND DW_EH_PE_FORMAT_MASK) 0 0 0 c1 = Ok (fs_range fs, c2)"
    "read_fde_augmentation oc cfg (off + ?h + length ?body) (fs_pc fs) c2 =
      Ok (fs_lsda fs, skip ?c (?w + length ?f))"
    "stands_before (skip ?c (?w + length ?f)) ?instrs"
  proof (rule fde_fields_decode [of ?at fs "skip ?c ?w" ?f ?instrs "off + ?h + length ?body" cfg oc])
    show "fde_pc_at ?at fs = current_avma (skip ?c ?w)"
      by (simp add: fde_pc_at_def current_avma_def)
  qed (use I' fits total that in \<open>simp_all\<close>)
  have "instr_range oc (skip ?c (?w + length ?f)) (off + ?h + length ?body) =
      Ok (off + (?w + length ?f), length ?instrs)"
    using instr_range_decodes [OF f(4), of oc] total by (simp add: add.assoc)
  with L(1) I f fit(2) total show ?thesis
    by (simp add: parse_fde_def fde_of_def encode_fde_def Let_def del: and_then_Ok_iff)
qed

section \<open>Entries in place\<close>

lemma stands_before_between:
  assumes "slice_ok (pre @ bs @ post)"
  shows "stands_before (entry_cursor (pre @ bs @ post) (length pre) base) bs"
  using assms by (simp add: stands_before_def cursor_ok_def)

lemma instructions_between:
  assumes "bs = front @ instrs"
  shows "take (length instrs) (drop (length pre + (length bs - length instrs)) (pre @ bs @ post)) =
    instrs"
  using assms by simp

section \<open>A C++ CIE and one of its FDEs\<close>

text \<open>Augmentation \<open>zPLR\<close> with an indirect personality, as compilers emit for C++ on x86_64.\<close>

definition cxx_cie :: cie_source where
  "cxx_cie = \<lparr>cs_dwarf64 = False, cs_version = 1,
     cs_aug = Some (7, [Aug_P 0x9b 0x4008, Aug_L 0x1b, Aug_R 0x1b]), cs_code_align = 1,
     cs_data_align = - 8, cs_ret_addr_column = 16,
     cs_instructions = [0x0c, 7, 8, 0x90, 1, 0, 0]\<rparr>"

definition cxx_fde :: fde_source where
  "cxx_fde = \<lparr>fs_dwarf64 = False, fs_cie_ptr = 36, fs_pc = 0x1000, fs_range = 0x2a,
     fs_aug_len = 4, fs_lsda = 0x2040, fs_aug_rest = [],
     fs_instructions = [0x41, 0x0e, 0x10, 0x86, 2, 0, 0]\<rparr>"

definition cxx_config :: fde_parse_config where
  "cxx_config = \<lparr>cfg_fde_encoding = 0x1b, cfg_lsda_encoding = 0x1b, cfg_has_z = True,
     cfg_text_base = 0x1000, cfg_data_base = 0x3000\<rparr>"

lemmas field_eval =
  encode_pointer_def pointer_fits_def personality_fits_def personality_value_def pointer_base_def
  base_or_zero_def raw_pointer_def encode_format_def format_fits_def eh_pe_defs Let_def
  uleb_encode.simps sleb_encode.simps encode_length_def length_fits_def encode_id_def id_fits_def
  header_width_def

lemmas cie_eval =
  field_eval cie_source_fits_def encode_cie_def cie_body_def cie_aug_at_def cie_fields_def
  aug_string_def encode_ret_def encode_address_size_def encode_aug_data_def aug_data_fits_def
  cie_of_def aug_result_def aug_init_def

lemmas fde_eval =
  field_eval fde_source_fits_def encode_fde_def fde_body_def fde_pc_at_def fde_range_at_def
  fde_aug_at_def encode_pc_def encode_range_def encode_lsda_def lsda_fits_def lsda_at_def
  encode_fde_aug_def fde_aug_fits_def fde_of_def

lemma cxx_cie_fits: "cie_source_fits 0x3001 cxx_cie"
  by (simp add: cxx_cie_def cie_eval)

lemma cxx_fde_fits: "fde_source_fits cxx_config 0x3020 cxx_fde"
  by (simp add: cxx_fde_def cxx_config_def fde_eval)

section \<open>Properties\<close>

text \<open>C9: Round trip of CIEs.  Wherever a CIE that a writer emitted stands in a section (32- or
  64-bit length, version 1, 3 or 4, no augmentation or a sized one with any of the letters
  \<open>R\<close>, \<open>L\<close>, \<open>P\<close>, \<open>S\<close>, \<open>B\<close>, \<open>G\<close> in any order), \<open>parse_cie\<close> gives back every field it was
  written from, in both build profiles; an indirect personality is reported as absent, and the
  reported range holds exactly the CIE's instructions.\<close>

theorem parse_cie_roundtrip:
  assumes "slice_ok (pre @ encode_cie at cs @ post)" and "cie_source_fits at cs"
    and "at = base + word_of_nat (length pre)"
  shows "parse_cie oc (pre @ encode_cie at cs @ post) (length pre) base =
      Ok (cie_of at (length pre) cs) \<and>
    take (cie_instr_len (cie_of at (length pre) cs))
      (drop (cie_instr_offset_in_eh_frame (cie_of at (length pre) cs))
        (pre @ encode_cie at cs @ post)) = cs_instructions cs"
proof -
  have "encode_cie at cs = (encode_length (cs_dwarf64 cs) (length (cie_body at cs)) @
      encode_id (cs_dwarf64 cs) 0 @ cie_fields cs @ encode_aug_data (cie_aug_at at cs) (cs_aug cs)) @
      cs_instructions cs"
    by (simp add: encode_cie_def cie_body_def)
  from instructions_between [OF this, of pre post] show ?thesis
    using parse_cie_decodes [OF stands_before_between] assms by (simp add: cie_of_def)
qed

theorem parse_cie_roundtrip_witness:
  "parse_cie True ([9] @ encode_cie 0x3001 cxx_cie @ [7]) 1 0x3000 =
     Ok \<lparr>cie_code_align = 1, cie_data_align = - 8, cie_ret_addr_column = 16,
         cie_fde_encoding = 0x1b, cie_lsda_encoding = 0x1b, cie_personality = 0,
         cie_has_z = True, cie_signal_frame = False, cie_instr_offset_in_eh_frame = 26,
         cie_instr_len = 7\<rparr>"
proof -
  have s: "slice_ok ([9] @ encode_cie 0x3001 cxx_cie @ [7])"
    by (simp add: slice_ok_def cxx_cie_def cie_eval)
  have c: "cie_of 0x3001 1 cxx_cie = \<lparr>cie_code_align = 1, cie_data_align = - 8,
      cie_ret_addr_column = 16, cie_fde_encoding = 0x1b, cie_lsda_encoding = 0x1b,
      cie_personality = 0, cie_has_z = True, cie_signal_frame = False,
      cie_instr_offset_in_eh_frame = 26, cie_instr_len = 7\<rparr>"
    by (simp add: cxx_cie_def cie_eval)
  show ?thesis
    using parse_cie_roundtrip [OF s cxx_cie_fits, of "0x3000" True] c by simp
qed

text \<open>C10: Round trip of FDEs.  Wherever an FDE that a writer emitted stands in a section, for
  every pointer format (absolute, 2, 4 and 8 bytes signed or unsigned, LEB128) and every
  application (absolute, relative to itself, to the text, the data or the function), with or
  without augmentation data, \<open>parse_fde\<close> gives back the function's address, size and
  language-specific data in both build profiles, and the reported range holds exactly the
  FDE's instructions.\<close>

theorem parse_fde_roundtrip:
  assumes "slice_ok (pre @ encode_fde cfg at fs @ post)" and "fde_source_fits cfg at fs"
    and "at = base + word_of_nat (length pre)"
  shows "parse_fde oc (pre @ encode_fde cfg at fs @ post) (length pre) base cfg =
      Ok (fde_of cfg at (length pre) fs) \<and>
    take (fde_instr_len (fde_of cfg at (length pre) fs))
      (drop (fde_instr_offset_in_eh_frame (fde_of cfg at (length pre) fs))
        (pre @ encode_fde cfg at fs @ post)) = fs_instructions fs"
proof -
  have "encode_fde cfg at fs = (encode_length (fs_dwarf64 fs) (length (fde_body cfg at fs)) @
      encode_id (fs_dwarf64 fs) (fs_cie_ptr fs) @ encode_pc cfg (fde_pc_at at fs) (fs_pc fs) @
      encode_range cfg (fde_range_at cfg at fs) (fs_range fs) @
      encode_fde_aug cfg (fde_aug_at cfg at fs) fs) @ fs_instructions fs"
    by (simp add: encode_fde_def fde_body_def)
  from instructions_between [OF this, of pre post] show ?thesis
    using parse_fde_decodes [OF stands_before_between] assms by (simp add: fde_of_def)
qed

theorem parse_fde_roundtrip_witness:
  "parse_fde True (replicate 32 0 @ encode_fde cxx_config 0x3020 cxx_fde @ [7]) 32 0x3000 cxx_config =
     Ok \<lparr>fde_initial_pc = 0x1000, fde_address_range = 0x2a, fde_instr_offset_in_eh_frame = 53,
         fde_instr_len = 7, fde_lsda = 0x2040\<rparr>"
proof -
  have s: "slice_ok (replicate 32 0 @ encode_fde cxx_config 0x3020 cxx_fde @ [7])"
    by (simp add: slice_ok_def cxx_fde_def cxx_config_def fde_eval)
  have f: "fde_of cxx_config 0x3020 32 cxx_fde = \<lparr>fde_initial_pc = 0x1000,
      fde_address_range = 0x2a, fde_instr_offset_in_eh_frame = 53, fde_instr_len = 7,
      fde_lsda = 0x2040\<rparr>"
    by (simp add: cxx_fde_def cxx_config_def fde_eval)
  show ?thesis
    using parse_fde_roundtrip [OF s cxx_fde_fits, of "0x3000" True] f by simp
qed

end
