(* ===== verification/Eh_Frame_Image.thy ===== *)
theory Eh_Frame_Image
  imports Callbacks Dwarf_Roundtrip
begin

text \<open>
  The unwind tables a linker writes, against the lookup of \<open>callbacks.rs\<close>.  An image is a list
  of CIEs, each followed by its FDEs, laid out as an \<open>.eh_frame\<close> section, with the
  \<open>.eh_frame_hdr\<close> search table sorted by function address.  The theory composes the round
  trips of the entry parsers and of the header with the module constructor and the search:
  looking up an address in the loaded image finds the function that contains it, with the
  fields it was written from, and reports a miss for every other address.
\<close>

section \<open>Layout\<close>

type_synonym eh_unit = "cie_source \<times> fde_source list"

text \<open>An FDE in place; its CIE pointer counts back from the pointer's own offset.\<close>

record placed_fde =
  pl_cie_offset :: usize
  pl_cie :: cie_source
  pl_fde_offset :: usize
  pl_fde :: fde_source

definition cie_ptr_pos :: "fde_source \<Rightarrow> nat" where
  "cie_ptr_pos fs = (if fs_dwarf64 fs then 12 else 4)"

definition link_fde :: "usize \<Rightarrow> usize \<Rightarrow> fde_source \<Rightarrow> fde_source" where
  "link_fde cie_offset fde_offset fs =
     fs\<lparr>fs_cie_ptr := word_of_nat (fde_offset + cie_ptr_pos fs - cie_offset)\<rparr>"

definition unit_config :: "u64 \<Rightarrow> u64 \<Rightarrow> cie_source \<Rightarrow> fde_parse_config" where
  "unit_config tb db cs =
     \<lparr>cfg_fde_encoding = aug_fde_encoding (aug_result cs),
      cfg_lsda_encoding = aug_lsda_encoding (aug_result cs), cfg_has_z = (cs_aug cs \<noteq> None),
      cfg_text_base = tb, cfg_data_base = db\<rparr>"

primrec encode_fdes :: "fde_parse_config \<Rightarrow> u64 \<Rightarrow> usize \<Rightarrow> usize \<Rightarrow> fde_source list \<Rightarrow> bytes" where
  "encode_fdes cfg base coff off [] = []"
| "encode_fdes cfg base coff off (fs # fss) =
     (let bs = encode_fde cfg (base + word_of_nat off) (link_fde coff off fs) in
      bs @ encode_fdes cfg base coff (off + length bs) fss)"

primrec place_fdes ::
    "fde_parse_config \<Rightarrow> u64 \<Rightarrow> cie_source \<Rightarrow> usize \<Rightarrow> usize \<Rightarrow> fde_source list \<Rightarrow> placed_fde list" where
  "place_fdes cfg base cs coff off [] = []"
| "place_fdes cfg base cs coff off (fs # fss) =
     \<lparr>pl_cie_offset = coff, pl_cie = cs, pl_fde_offset = off, pl_fde = link_fde coff off fs\<rparr> #
     place_fdes cfg base cs coff
       (off + length (encode_fde cfg (base + word_of_nat off) (link_fde coff off fs))) fss"

definition encode_unit :: "u64 \<Rightarrow> u64 \<Rightarrow> u64 \<Rightarrow> usize \<Rightarrow> eh_unit \<Rightarrow> bytes" where
  "encode_unit tb db base off u =
     (let c = encode_cie (base + word_of_nat off) (fst u) in
      c @ encode_fdes (unit_config tb db (fst u)) base off (off + length c) (snd u))"

definition place_unit :: "u64 \<Rightarrow> u64 \<Rightarrow> u64 \<Rightarrow> usize \<Rightarrow> eh_unit \<Rightarrow> placed_fde list" where
  "place_unit tb db base off u =
     place_fdes (unit_config tb db (fst u)) base (fst u) off
       (off + length (encode_cie (base + word_of_nat off) (fst u))) (snd u)"

primrec encode_units :: "u64 \<Rightarrow> u64 \<Rightarrow> u64 \<Rightarrow> usize \<Rightarrow> eh_unit list \<Rightarrow> bytes" where
  "encode_units tb db base off [] = []"
| "encode_units tb db base off (u # us) =
     encode_unit tb db base off u @
     encode_units tb db base (off + length (encode_unit tb db base off u)) us"

primrec place_units :: "u64 \<Rightarrow> u64 \<Rightarrow> u64 \<Rightarrow> usize \<Rightarrow> eh_unit list \<Rightarrow> placed_fde list" where
  "place_units tb db base off [] = []"
| "place_units tb db base off (u # us) =
     place_unit tb db base off u @
     place_units tb db base (off + length (encode_unit tb db base off u)) us"

section \<open>The image\<close>

record eh_image =
  im_eh_avma :: u64
  im_hdr_avma :: u64
  im_text_base :: u64
  im_units :: "eh_unit list"

definition image_eh_frame :: "eh_image \<Rightarrow> bytes" where
  "image_eh_frame im =
     encode_units (im_text_base im) (im_hdr_avma im) (im_eh_avma im) 0 (im_units im)"

abbreviation pl_pc :: "placed_fde \<Rightarrow> u64" where
  "pl_pc p \<equiv> fs_pc (pl_fde p)"

abbreviation pl_end :: "placed_fde \<Rightarrow> u64" where
  "pl_end p \<equiv> fs_pc (pl_fde p) + fs_range (pl_fde p)"

text \<open>The functions of the image in address order, the order of the search table.\<close>

definition image_functions :: "eh_image \<Rightarrow> placed_fde list" where
  "image_functions im =
     sort_key pl_pc (place_units (im_text_base im) (im_hdr_avma im) (im_eh_avma im) 0 (im_units im))"

definition image_fde_avma :: "eh_image \<Rightarrow> placed_fde \<Rightarrow> u64" where
  "image_fde_avma im p = im_eh_avma im + word_of_nat (pl_fde_offset p)"

definition image_row :: "eh_image \<Rightarrow> placed_fde \<Rightarrow> u32 \<times> u32" where
  "image_row im p =
     (ucast (pl_pc p - im_hdr_avma im), ucast (image_fde_avma im p - im_hdr_avma im))"

definition image_hdr :: "eh_image \<Rightarrow> bytes" where
  "image_hdr im =
     encode_hdr (ucast (im_eh_avma im - (im_hdr_avma im + 4))) (map (image_row im) (image_functions im))"

text \<open>A function the linker can describe: its entries and its row of the table fit.\<close>

definition placed_fits :: "eh_image \<Rightarrow> placed_fde \<Rightarrow> bool" where
  "placed_fits im p \<longleftrightarrow>
     cie_source_fits (im_eh_avma im + word_of_nat (pl_cie_offset p)) (pl_cie p) \<and>
     fde_source_fits (unit_config (im_text_base im) (im_hdr_avma im) (pl_cie p)) (image_fde_avma im p)
       (pl_fde p) \<and>
     scast (fst (image_row im p)) = pl_pc p - im_hdr_avma im \<and>
     scast (snd (image_row im p)) = image_fde_avma im p - im_hdr_avma im \<and>
     unat (pl_pc p) + unat (fs_range (pl_fde p)) < usize_limit"

text \<open>A well-formed image: everything fits and no two functions overlap.\<close>

definition image_ok :: "eh_image \<Rightarrow> bool" where
  "image_ok im \<longleftrightarrow>
     slice_ok (image_eh_frame im) \<and>
     unat (im_eh_avma im) + length (image_eh_frame im) < usize_limit \<and>
     length (image_functions im) < 4294967296 \<and>
     (\<forall>p \<in> set (image_functions im). placed_fits im p) \<and>
     sorted_wrt (\<lambda>p q. pl_end p \<le> pl_pc q) (image_functions im)"

section \<open>What a lookup must return\<close>

definition image_details :: "eh_image \<Rightarrow> placed_fde \<Rightarrow> function_details" where
  "image_details im p =
     \<lparr>fd_start_ip = pl_pc p, fd_end_ip = pl_end p,
      fd_cie_info = build_dwarf_cie_info
        (cie_of (im_eh_avma im + word_of_nat (pl_cie_offset p)) (pl_cie_offset p) (pl_cie p))
        (fde_of (unit_config (im_text_base im) (im_hdr_avma im) (pl_cie p)) (image_fde_avma im p)
          (pl_fde_offset p) (pl_fde p)) (im_eh_avma im),
      fd_lsda = fs_lsda (pl_fde p), fd_handler = aug_personality (aug_result (pl_cie p)),
      fd_signal_frame = aug_signal_frame (aug_result (pl_cie p))\<rparr>"

definition image_lookup ::
    "eh_image \<Rightarrow> string \<Rightarrow> u64 \<Rightarrow> (function_details, unwind_info_error) outcome" where
  "image_lookup im name ip =
     (case find (\<lambda>p. pl_pc p \<le> ip \<and> ip < pl_end p) (image_functions im) of
        None \<Rightarrow> Err (EhFrameHeaderLookupMiss name ip)
      | Some p \<Rightarrow> Ok (image_details im p))"

section \<open>Every entry stands where it was placed\<close>

lemma place_fdes_stand:
  assumes "p \<in> set (place_fdes cfg base cs coff off fss)" and "length pre = off"
    and "slice_ok (pre @ encode_fdes cfg base coff off fss @ post)"
  shows "stands_before (entry_cursor (pre @ encode_fdes cfg base coff off fss @ post) (pl_fde_offset p) base)
      (encode_fde cfg (base + word_of_nat (pl_fde_offset p)) (pl_fde p)) \<and>
    pl_cie p = cs \<and> pl_cie_offset p = coff \<and> off \<le> pl_fde_offset p \<and>
    (\<exists>fs. pl_fde p = link_fde coff (pl_fde_offset p) fs)"
  using assms
proof (induction fss arbitrary: pre off)
  case Nil
  then show ?case by simp
next
  case (Cons fs fss)
  let ?bs = "encode_fde cfg (base + word_of_nat off) (link_fde coff off fs)"
  let ?rest = "encode_fdes cfg base coff (off + length ?bs) fss"
  have split: "pre @ encode_fdes cfg base coff off (fs # fss) @ post = pre @ ?bs @ (?rest @ post)"
    "pre @ encode_fdes cfg base coff off (fs # fss) @ post = (pre @ ?bs) @ ?rest @ post"
    by (simp_all add: Let_def)
  show ?case
  proof (cases "p \<in> set (place_fdes cfg base cs coff (off + length ?bs) fss)")
    case True
    from Cons.IH [OF True, of "pre @ ?bs"] Cons.prems(2,3) show ?thesis
      unfolding split(2) by simp
  next
    case False
    with Cons.prems(1) have p: "pl_fde_offset p = off" "pl_fde p = link_fde coff off fs"
      "pl_cie p = cs" "pl_cie_offset p = coff" by simp_all
    have "stands_before (entry_cursor (pre @ ?bs @ (?rest @ post)) (length pre) base) ?bs"
      using Cons.prems(3) unfolding split(1) by (rule stands_before_between)
    with p Cons.prems(2) show ?thesis unfolding split(1) by auto
  qed
qed

text \<open>What the layout promises of a placed FDE over the bytes of the section.\<close>

definition well_placed :: "u64 \<Rightarrow> u64 \<Rightarrow> u64 \<Rightarrow> bytes \<Rightarrow> placed_fde \<Rightarrow> bool" where
  "well_placed tb db base bs p \<longleftrightarrow>
     stands_before (entry_cursor bs (pl_cie_offset p) base)
       (encode_cie (base + word_of_nat (pl_cie_offset p)) (pl_cie p)) \<and>
     stands_before (entry_cursor bs (pl_fde_offset p) base)
       (encode_fde (unit_config tb db (pl_cie p)) (base + word_of_nat (pl_fde_offset p)) (pl_fde p)) \<and>
     pl_cie_offset p \<le> pl_fde_offset p \<and>
     (\<exists>fs. pl_fde p = link_fde (pl_cie_offset p) (pl_fde_offset p) fs)"

lemma place_unit_well:
  assumes p: "p \<in> set (place_unit tb db base off u)" and off: "length pre = off"
    and ok: "slice_ok (pre @ encode_unit tb db base off u @ post)"
  shows "well_placed tb db base (pre @ encode_unit tb db base off u @ post) p"
proof -
  let ?c = "encode_cie (base + word_of_nat off) (fst u)" and ?cfg = "unit_config tb db (fst u)"
  let ?f = "encode_fdes ?cfg base off (off + length ?c) (snd u)"
  have split: "pre @ encode_unit tb db base off u @ post = pre @ ?c @ (?f @ post)"
    "pre @ encode_unit tb db base off u @ post = (pre @ ?c) @ ?f @ post"
    by (simp_all add: encode_unit_def Let_def)
  have len: "length (pre @ ?c) = off + length ?c" using off by simp
  note F = place_fdes_stand [OF p [unfolded place_unit_def] len ok [unfolded split(2)]]
  have "stands_before (entry_cursor (pre @ ?c @ (?f @ post)) (length pre) base) ?c"
    using ok unfolding split(1) by (rule stands_before_between)
  then show ?thesis
    using F off unfolding well_placed_def split(2) by auto
qed

lemma place_units_well:
  assumes "p \<in> set (place_units tb db base off us)" and "length pre = off"
    and "slice_ok (pre @ encode_units tb db base off us @ post)"
  shows "well_placed tb db base (pre @ encode_units tb db base off us @ post) p"
  using assms
proof (induction us arbitrary: pre off)
  case Nil
  then show ?case by simp
next
  case (Cons u us)
  let ?u = "encode_unit tb db base off u"
  let ?rest = "encode_units tb db base (off + length ?u) us"
  have split: "pre @ encode_units tb db base off (u # us) @ post = pre @ ?u @ (?rest @ post)"
    "pre @ encode_units tb db base off (u # us) @ post = (pre @ ?u) @ ?rest @ post" by simp_all
  show ?case
  proof (cases "p \<in> set (place_unit tb db base off u)")
    case True
    from place_unit_well [OF True Cons.prems(2)] Cons.prems(3) show ?thesis
      unfolding split(1) by blast
  next
    case False
    with Cons.prems(1) have "p \<in> set (place_units tb db base (off + length ?u) us)" by simp
    from Cons.IH [OF this, of "pre @ ?u"] Cons.prems(2,3) show ?thesis
      unfolding split(2) by simp
  qed
qed

lemma image_functions_well:
  assumes "slice_ok (image_eh_frame im)" and "p \<in> set (image_functions im)"
  shows "well_placed (im_text_base im) (im_hdr_avma im) (im_eh_avma im) (image_eh_frame im) p"
  using place_units_well [of p _ _ _ 0 "im_units im" "[]" "[]"] assms
  by (simp add: image_eh_frame_def image_functions_def)

section \<open>The CIE pointer leads back\<close>

lemma stands_slice:
  assumes "stands_before (entry_cursor bs off base) (xs @ ys)"
  shows "slice_range bs off (off + length xs) = Some xs"
proof -
  note s = stands_before_appendD [OF assms]
  from s(1) have "take (length xs) (drop off bs) = xs" by (simp add: stands_before_def)
  moreover from s(2) have "off + length xs \<le> length bs" by (simp add: stands_before_def cursor_ok_def)
  ultimately show ?thesis by (simp add: slice_range_def)
qed

lemma stands_inside:
  "stands_before (entry_cursor bs off base) xs \<Longrightarrow> xs \<noteq> [] \<Longrightarrow> off < length bs"
  by (cases "off < length bs") (simp_all add: stands_before_def)

lemma encode_fde_not_Nil: "encode_fde cfg at fs \<noteq> []"
proof -
  have "length (encode_length d n) > 0" for d n
    by (simp add: encode_length_def del: length_greater_0_conv)
  then show ?thesis by (auto simp: encode_fde_def)
qed

lemma stands_slice_after:
  assumes "stands_before (entry_cursor bs off base) (xs @ ys @ zs)"
  shows "slice_range bs (off + length xs) (off + length xs + length ys) = Some ys"
  using stands_slice [of bs "off + length xs" base ys zs] stands_before_appendD(2) [OF assms]
  by (simp add: skip_def)

lemma cie_offset_of_linked:
  assumes s: "stands_before (entry_cursor bs off base) (encode_fde cfg at (link_fde coff off fs))"
    and fits: "fde_source_fits cfg at (link_fde coff off fs)" and le: "coff \<le> off"
  shows "cie_offset_of oc name bs off = Ok coff"
proof -
  let ?fs = "link_fde coff off fs" and ?d = "fs_dwarf64 (link_fde coff off fs)"
  let ?n = "length (fde_body cfg at ?fs)"
  obtain more where body: "fde_body cfg at ?fs = encode_id ?d (fs_cie_ptr ?fs) @ more"
    by (simp add: fde_body_def)
  have off: "off \<le> length bs" "length bs < 9223372036854775808"
    using s by (simp_all add: stands_before_def cursor_ok_def slice_ok_def)
  then have ptr: "unat (fs_cie_ptr ?fs) = off + cie_ptr_pos fs - coff"
    by (simp add: link_fde_def cie_ptr_pos_def)
  have pos: "cie_ptr_pos fs = (if ?d then 12 else 4)" by (simp add: cie_ptr_pos_def link_fde_def)
  have fit: "length_fits ?d ?n" "id_fits ?d (fs_cie_ptr ?fs)"
    using fits by (simp_all add: fde_source_fits_def)
  show ?thesis
  proof (cases ?d)
    case True
    have s': "stands_before (entry_cursor bs off base)
        (to_le 4 0xffffffff @ to_le 8 ?n @ to_le 8 (unat (fs_cie_ptr ?fs)) @ more)"
      using s True body by (simp add: encode_fde_def encode_length_def encode_id_def)
    have "slice_range bs off (off + 4) = Some (to_le 4 0xffffffff)"
      using stands_slice [OF s'] by simp
    moreover have "slice_range bs (off + 12) (20 + off) = Some (to_le 8 (unat (fs_cie_ptr ?fs)))"
      using stands_slice_after [of bs off base "to_le 4 0xffffffff @ to_le 8 ?n"
          "to_le 8 (unat (fs_cie_ptr ?fs))" more] s' by (simp add: add.commute)
    moreover have "u32_from_le (to_le 4 0xffffffff) = 0xffffffff"
      by (simp add: u32_from_le_def le_nat_to_le)
    moreover have "unat (u64_from_le (to_le 8 (off + 12 - coff))) = off + 12 - coff"
      using le_roundtrip(3) [of "fs_cie_ptr ?fs"] ptr pos True by simp
    ultimately show ?thesis
      using off le ptr pos True
      by (simp add: cie_offset_of_def checked_sub_usize_def Let_def del: and_then_Ok_iff)
  next
    case False
    have n: "?n < 0xffffffff" and p: "unat (fs_cie_ptr ?fs) < 4294967296"
      using fit False by (simp_all add: length_fits_def id_fits_def)
    have s': "stands_before (entry_cursor bs off base)
        (to_le 4 ?n @ to_le 4 (unat (fs_cie_ptr ?fs)) @ more)"
      using s False body by (simp add: encode_fde_def encode_length_def encode_id_def)
    have "slice_range bs off (off + 4) = Some (to_le 4 ?n)"
      using stands_slice [OF s'] by simp
    moreover have "slice_range bs (off + 4) (8 + off) = Some (to_le 4 (unat (fs_cie_ptr ?fs)))"
      using stands_slice_after [OF s'] by (simp add: add.commute)
    moreover have "u32_from_le (to_le 4 ?n) \<noteq> 0xffffffff"
    proof
      assume "u32_from_le (to_le 4 ?n) = 0xffffffff"
      then have "unat (u32_from_le (to_le 4 ?n)) = 0xffffffff" by simp
      with n show False by (simp add: u32_from_le_def le_nat_to_le unat_of_nat)
    qed
    moreover have "unat (ucast (u32_from_le (to_le 4 (unat (fs_cie_ptr ?fs)))) :: u64) =
        unat (fs_cie_ptr ?fs)"
      using p by (simp add: u32_from_le_def le_nat_to_le unsigned_ucast_eq unsigned_take_bit_eq
          unat_of_nat take_bit_nat_eq_self)
    ultimately show ?thesis
      using off le ptr pos False
      by (simp add: cie_offset_of_def checked_sub_usize_def Let_def del: and_then_Ok_iff)
  qed
qed

section \<open>A module that mirrors an image\<close>

definition mirrors :: "module_data \<Rightarrow> eh_image \<Rightarrow> bool" where
  "mirrors md im \<longleftrightarrow>
     md_eh_frame_local_ptr md = Ptr (image_eh_frame im) 0 \<and>
     md_eh_frame_local_len md = length (image_eh_frame im) \<and>
     md_eh_frame_hdr_local_ptr md = Ptr (image_hdr im) 0 \<and>
     md_eh_frame_hdr_local_len md = length (image_hdr im) \<and>
     md_eh_frame_avma md = im_eh_avma im \<and> md_text_base md = im_text_base im \<and>
     md_data_base md = im_hdr_avma im \<and>
     md_table md = \<lparr>tbl_table_data_offset = 12,
       tbl_entry_count = word_of_nat (length (image_functions im)),
       tbl_eh_frame_hdr_avma = im_hdr_avma im\<rparr>"

lemma mirrors_entries:
  assumes "mirrors md im" and "image_ok im"
  shows "module_entries md = map (\<lambda>p. (pl_pc p, image_fde_avma im p)) (image_functions im)"
proof -
  let ?rows = "map (image_row im) (image_functions im)"
  have "length ?rows < 4294967296" using assms(2) by (simp add: image_ok_def)
  note e = table_entries_encode_hdr [OF this refl, of "im_hdr_avma im"
      "ucast (im_eh_avma im - (im_hdr_avma im + 4))" "[]"]
  have "module_entries md =
      map (\<lambda>(pc, fde). (im_hdr_avma im + scast pc, im_hdr_avma im + scast fde)) ?rows"
    using e assms(1) by (simp add: module_entries_def mirrors_def image_hdr_def)
  also have "\<dots> = map (\<lambda>p. (pl_pc p, image_fde_avma im p)) (image_functions im)"
    using assms(2) by (auto simp: image_ok_def placed_fits_def split_beta)
  finally show ?thesis .
qed

lemma mirrors_lookup:
  assumes "mirrors md im" and "image_ok im"
  shows "module_lookup oc md ip =
    Ok (last_not_above ip (map (\<lambda>p. (pl_pc p, image_fde_avma im p)) (image_functions im)))"
proof -
  have len: "length (image_hdr im) = 12 + 8 * length (image_functions im)"
    by (simp add: image_hdr_def encode_hdr_def)
  have n: "length (image_functions im) < 4294967296" using assms(2) by (simp add: image_ok_def)
  have fits: "table_fits (md_table md) (image_hdr im)" and ok: "slice_ok (image_hdr im)"
    using assms(1) n by (simp_all add: mirrors_def table_fits_def slice_ok_def len)
  have e: "table_entries (md_table md) (image_hdr im) = module_entries md"
    using assms(1) by (simp add: module_entries_def mirrors_def)
  have "sorted (map fst (module_entries md))"
    unfolding mirrors_entries [OF assms] by (simp add: image_functions_def comp_def)
  with lookup_sorted [OF fits ok, of oc ip] show ?thesis
    using assms(1) unfolding e mirrors_entries [OF assms]
    by (simp add: module_lookup_def mirrors_def)
qed

text \<open>The FDE of a placed function is found, parsed and reported as it was written.\<close>

lemma image_entry:
  assumes ok: "image_ok im" and p: "p \<in> set (image_functions im)"
  shows "pl_fde_offset p < length (image_eh_frame im)"
    and "im_eh_avma im \<le> image_fde_avma im p"
    and "unat (image_fde_avma im p - im_eh_avma im) = pl_fde_offset p"
    and "cie_offset_of oc name (image_eh_frame im) (pl_fde_offset p) = Ok (pl_cie_offset p)"
    and "parse_cie oc (image_eh_frame im) (pl_cie_offset p) (im_eh_avma im) =
      Ok (cie_of (im_eh_avma im + word_of_nat (pl_cie_offset p)) (pl_cie_offset p) (pl_cie p))"
    and "parse_fde oc (image_eh_frame im) (pl_fde_offset p) (im_eh_avma im)
        (unit_config (im_text_base im) (im_hdr_avma im) (pl_cie p)) =
      Ok (fde_of (unit_config (im_text_base im) (im_hdr_avma im) (pl_cie p)) (image_fde_avma im p)
        (pl_fde_offset p) (pl_fde p))"
    and "checked_add_u64 (pl_pc p) (fs_range (pl_fde p)) = Some (pl_end p)"
proof -
  let ?eh = "image_eh_frame im" and ?b = "im_eh_avma im" and ?off = "pl_fde_offset p"
  let ?cfg = "unit_config (im_text_base im) (im_hdr_avma im) (pl_cie p)"
  have fits: "cie_source_fits (?b + word_of_nat (pl_cie_offset p)) (pl_cie p)"
    "fde_source_fits ?cfg (?b + word_of_nat ?off) (pl_fde p)"
    "unat (pl_pc p) + unat (fs_range (pl_fde p)) < usize_limit"
    and lim: "unat ?b + length ?eh < usize_limit"
    using ok p by (auto simp: image_ok_def placed_fits_def image_fde_avma_def)
  have "slice_ok ?eh" using ok by (simp add: image_ok_def)
  from image_functions_well [OF this p] obtain fs where
    w: "stands_before (entry_cursor ?eh (pl_cie_offset p) ?b)
        (encode_cie (?b + word_of_nat (pl_cie_offset p)) (pl_cie p))"
      "stands_before (entry_cursor ?eh ?off ?b) (encode_fde ?cfg (?b + word_of_nat ?off) (pl_fde p))"
      "pl_cie_offset p \<le> ?off" "pl_fde p = link_fde (pl_cie_offset p) ?off fs"
    by (auto simp: well_placed_def)
  show "cie_offset_of oc name ?eh ?off = Ok (pl_cie_offset p)"
    using cie_offset_of_linked w fits(2) by metis
  show off: "?off < length ?eh" by (rule stands_inside [OF w(2) encode_fde_not_Nil])
  show "?b \<le> image_fde_avma im p" "unat (image_fde_avma im p - ?b) = ?off"
    using off lim by (simp_all add: image_fde_avma_def word_le_nat_alt unat_word_ariths)
  show "checked_add_u64 (pl_pc p) (fs_range (pl_fde p)) = Some (pl_end p)"
    using fits(3) by (simp add: checked_add_u64_def)
  show "parse_cie oc ?eh (pl_cie_offset p) ?b =
      Ok (cie_of (?b + word_of_nat (pl_cie_offset p)) (pl_cie_offset p) (pl_cie p))"
    by (rule parse_cie_decodes [OF w(1) fits(1)])
  show "parse_fde oc ?eh ?off ?b ?cfg = Ok (fde_of ?cfg (image_fde_avma im p) ?off (pl_fde p))"
    using parse_fde_decodes [OF w(2) fits(2)] by (simp add: image_fde_avma_def)
qed

lemma mirrors_config:
  assumes "mirrors md im"
  shows "fde_config md (cie_of at off (pl_cie p)) =
    unit_config (im_text_base im) (im_hdr_avma im) (pl_cie p)"
  using assms by (simp add: mirrors_def cie_of_def unit_config_def)

lemma mirrors_parse:
  assumes m: "mirrors md im" and ok: "image_ok im" and p: "p \<in> set (image_functions im)"
    and l: "module_lookup oc md ip = Ok (Some (pc, image_fde_avma im p))"
  shows "parse_function_details oc md ip =
    (if pl_pc p \<le> ip \<and> ip < pl_end p then Ok (image_details im p)
     else Err (EhFrameHeaderLookupMiss (md_name md) ip))"
proof -
  note e = image_entry [OF ok p]
  have "eh_frame_table_lookup oc (md_table md) (image_hdr im) ip =
      Ok (Some (pc, image_fde_avma im p))"
    using l m by (simp add: module_lookup_def mirrors_def)
  moreover have "checked_sub_u64 (image_fde_avma im p) (im_eh_avma im) =
      Some (image_fde_avma im p - im_eh_avma im)"
    using e(2) by (simp add: checked_sub_u64_def)
  ultimately show ?thesis
    using m e(1,3,7) e(4-6) [of oc] mirrors_config [OF m]
    by (auto simp: parse_function_details_def mirrors_def Let_def cie_of_def unit_config_def
        fde_of_def image_details_def not_le not_less simp del: and_then_Ok_iff)
qed

lemma mirrors_describes:
  assumes m: "mirrors md im" and ok: "image_ok im" and p: "p \<in> set (image_functions im)"
    and d: "describes oc md (image_fde_avma im p) d"
  shows "d = image_details im p"
proof -
  note e = image_entry [OF ok p]
  show ?thesis
    using d m e(1,3,7) e(4-6) [of oc] mirrors_config [OF m]
    by (auto simp: describes_def mirrors_def cie_of_def unit_config_def fde_of_def
        image_details_def)
qed

section \<open>Lookups in a mirrored image\<close>

lemma last_not_above_None:
  "last_not_above ip es = None \<longleftrightarrow> (\<forall>e \<in> set es. \<not> fst e \<le> ip)"
  by (auto simp: last_not_above_def filter_empty_conv)

lemma covering_unique:
  assumes "sorted_wrt (\<lambda>p q. pl_end p \<le> pl_pc q) ps" and "r < length ps" and "j < length ps"
    and "pl_pc (ps ! r) \<le> ip" and "\<And>k. r < k \<Longrightarrow> k < length ps \<Longrightarrow> ip < pl_pc (ps ! k)"
    and "pl_pc (ps ! j) \<le> ip" and "ip < pl_end (ps ! j)"
  shows "j = r"
proof (rule linorder_cases [of j r])
  assume "j < r"
  then have "pl_end (ps ! j) \<le> pl_pc (ps ! r)" 
    using sorted_wrt_nth_less [OF assms(1)] assms(2) by blast
  with assms(4,7) show ?thesis by (meson leD order_trans)
next
  assume "r < j"
  with assms(3,5,6) show ?thesis by (meson leD)
qed

lemma find_covering:
  assumes "sorted_wrt (\<lambda>p q. pl_end p \<le> pl_pc q) ps" and "r < length ps"
    and "pl_pc (ps ! r) \<le> ip" and "\<And>k. r < k \<Longrightarrow> k < length ps \<Longrightarrow> ip < pl_pc (ps ! k)"
  shows "find (\<lambda>p. pl_pc p \<le> ip \<and> ip < pl_end p) ps =
    (if ip < pl_end (ps ! r) then Some (ps ! r) else None)"
proof (cases "find (\<lambda>p. pl_pc p \<le> ip \<and> ip < pl_end p) ps")
  case None
  then show ?thesis using assms(2,3) by (auto simp: find_None_iff)
next
  case (Some q)
  then obtain j where "j < length ps" "pl_pc (ps ! j) \<le> ip" "ip < pl_end (ps ! j)" "q = ps ! j"
    by (auto simp: find_Some_iff)
  with covering_unique [OF assms(1,2) _ assms(3,4)] Some show ?thesis by auto
qed

lemma mirrors_lookup_correct:
  assumes m: "mirrors md im" and ok: "image_ok im"
  shows "parse_function_details oc md ip = image_lookup im (md_name md) ip"
proof -
  let ?es = "map (\<lambda>p. (pl_pc p, image_fde_avma im p)) (image_functions im)"
  note lk = mirrors_lookup [OF m ok, of oc ip]
  show ?thesis
  proof (cases "last_not_above ip ?es")
    case None
    then have "find (\<lambda>p. pl_pc p \<le> ip \<and> ip < pl_end p) (image_functions im) = None"
      by (auto simp: last_not_above_None find_None_iff)
    with lk None m show ?thesis
      by (simp add: parse_function_details_def module_lookup_def image_lookup_def mirrors_def)
  next
    case (Some e)
    from last_not_above_SomeD [OF Some] obtain r where
      r': "r < length ?es" "e = ?es ! r" "fst e \<le> ip"
        "\<And>j. r < j \<Longrightarrow> j < length ?es \<Longrightarrow> ip < fst (?es ! j)" by blast
    then have r: "r < length (image_functions im)" by simp
    let ?p = "image_functions im ! r"
    have "find (\<lambda>p. pl_pc p \<le> ip \<and> ip < pl_end p) (image_functions im) =
        (if ip < pl_end ?p then Some ?p else None)"
      using ok r r' by (intro find_covering) (simp_all add: image_ok_def)
    moreover have "module_lookup oc md ip = Ok (Some (pl_pc ?p, image_fde_avma im ?p))"
      using lk Some r r'(2) by simp
    ultimately show ?thesis
      using mirrors_parse [OF m ok nth_mem [OF r]] r r'(2,3) by (simp add: image_lookup_def)
  qed
qed

lemma mirrors_consistent:
  assumes m: "mirrors md im" and ok: "image_ok im"
  shows "table_consistent oc md"
proof -
  let ?ps = "image_functions im"
  have srt: "sorted_wrt (\<lambda>p q. pl_end p \<le> pl_pc q) ?ps" using ok by (simp add: image_ok_def)
  have "fst (module_entries md ! i) \<le> fd_start_ip d \<and>
      (\<forall>j < length ?ps. i < j \<longrightarrow> fd_end_ip d \<le> fst (module_entries md ! j))"
    if "i < length ?ps" and "describes oc md (snd (module_entries md ! i)) d" for i d
  proof -
    have "d = image_details im (?ps ! i)"
      using mirrors_describes [OF m ok nth_mem [OF that(1)]] that
      by (simp add: mirrors_entries [OF m ok])
    with that(1) sorted_wrt_nth_less [OF srt] show ?thesis
      by (simp add: mirrors_entries [OF m ok] image_details_def)
  qed
  moreover have "sorted (map fst (module_entries md))"
    by (simp add: mirrors_entries [OF m ok] image_functions_def comp_def)
  ultimately show ?thesis by (simp add: table_consistent_def mirrors_entries [OF m ok])
qed

section \<open>Loading an image\<close>

text \<open>The sections of an image whose link-time addresses are \<open>slide\<close> below the run-time ones.\<close>

definition image_sections :: "u64 \<Rightarrow> u64 \<Rightarrow> eh_image \<Rightarrow> bytes dwarf_module_sections" where
  "image_sections base_svma slide im =
     \<lparr>dms_base_svma = base_svma, dms_text_svma = Some (im_text_base im - slide, im_text_base im - slide),
      dms_text = None,
      dms_eh_frame_svma = Some (im_eh_avma im - slide,
        im_eh_avma im - slide + word_of_nat (length (image_eh_frame im))),
      dms_eh_frame = Some (image_eh_frame im),
      dms_eh_frame_hdr_svma = Some (im_hdr_avma im - slide,
        im_hdr_avma im - slide + word_of_nat (length (image_hdr im))),
      dms_eh_frame_hdr = Some (image_hdr im)\<rparr>"

lemma image_hdr_slice_ok: "image_ok im \<Longrightarrow> slice_ok (image_hdr im)"
  by (simp add: image_ok_def slice_ok_def image_hdr_def encode_hdr_def)

lemma image_hdr_parses:
  assumes "image_ok im"
  shows "eh_frame_table_parse oc (image_hdr im) (im_hdr_avma im) =
    Ok \<lparr>tbl_table_data_offset = 12, tbl_entry_count = word_of_nat (length (image_functions im)),
        tbl_eh_frame_hdr_avma = im_hdr_avma im\<rparr>"
  using parse_encode_hdr [of "map (image_row im) (image_functions im)" _ "[]" oc] assms
    image_hdr_slice_ok [OF assms]
  by (simp add: image_ok_def image_hdr_def)

lemma load_image:
  assumes ok: "image_ok im" and range: "\<not> range_is_empty r"
  obtains md where
    "from_dwarf_sections oc Ok name r b (image_sections sv (b - sv) im) h = Ok (md, h @ [Unlocked []])"
    and "mirrors md im" and "md_name md = name" and "module_wf (h @ [Unlocked []]) md"
    and "md_function_cache md = length h" and "md_avma_start md = fst r" and "md_avma_end md = snd r"
proof -
  let ?parts = "\<lparr>mp_name = name, mp_avma_range = r, mp_base_avma = b, mp_base_svma = sv,
    mp_text_svma = dms_text_svma (image_sections sv (b - sv) im),
    mp_eh_frame_svma = dms_eh_frame_svma (image_sections sv (b - sv) im),
    mp_eh_frame = Some (image_eh_frame im),
    mp_eh_frame_hdr_svma = dms_eh_frame_hdr_svma (image_sections sv (b - sv) im),
    mp_eh_frame_hdr = Some (image_hdr im)\<rparr>"
  have "derefs Ok (mp_eh_frame_hdr ?parts)" "derefs Ok (mp_eh_frame ?parts)"
    using ok image_hdr_slice_ok [OF ok] by (simp_all add: image_ok_def)
  from from_parts_wf [OF this, of oc h] obtain md where
    md: "from_parts oc Ok ?parts h = Ok (md, h @ [Unlocked []])" "module_wf (h @ [Unlocked []]) md"
      "md_function_cache md = length h" by blast
  have "validate_module_parts oc Ok ?parts = Ok ()"
    using range image_hdr_parses [OF ok, of oc]
    by (simp add: validate_module_parts_def image_sections_def Let_def)
  with md(1) have load:
    "from_dwarf_sections oc Ok name r b (image_sections sv (b - sv) im) h = Ok (md, h @ [Unlocked []])"
    by (simp add: from_dwarf_sections_def image_sections_def Let_def)
  have "mirrors md im" "md_name md = name" "md_avma_start md = fst r" "md_avma_end md = snd r"
    using md(1) image_hdr_parses [OF ok, of oc]
    by (auto simp: from_parts_def hdr_part_of_def eh_frame_part_of_def image_sections_def Let_def
        mirrors_def)
  with load md(2,3) that show ?thesis by blast
qed

text \<open>A run of lookups through the function cache, as successive steps make them.\<close>

primrec lookups ::
    "bool \<Rightarrow> cache_heap \<Rightarrow> module_data \<Rightarrow> u64 list \<Rightarrow>
     (function_details, unwind_info_error) outcome list" where
  "lookups oc h md [] = []"
| "lookups oc h md (ip # ips) =
     (case get_or_parse_function_details oc h md ip of (r, h') \<Rightarrow> r # lookups oc h' md ips)"

lemma lookups_eq:
  assumes "table_consistent oc md" and "module_wf h md"
    and "lock_cache h (md_function_cache md) = Some cache" and "cache_sound oc md cache"
  shows "lookups oc h md ips = map (parse_function_details oc md) ips"
  using assms(2-)
proof (induction ips arbitrary: h cache)
  case Nil
  then show ?case by simp
next
  case (Cons ip ips)
  obtain r h' where g: "get_or_parse_function_details oc h md ip = (r, h')" by fastforce
  have "r = parse_function_details oc md ip"
    using get_or_parse_eq [OF Cons.prems(2,3), of ip] g by simp
  moreover obtain cache' where "lock_cache h' (md_function_cache md) = Some cache'"
    "cache_sound oc md cache'"
    using cache_after_lookup [OF Cons.prems(1) assms(1) Cons.prems(2,3) g] by metis
  moreover have "module_wf h' md"
    using Cons.prems(1,2) g get_or_parse_function_details_def
    by (auto simp: module_wf_def lock_cache_Some get_or_parse_function_details_def
        split: option.splits outcome.splits)
  ultimately show ?case using Cons.IH g by simp
qed

text \<open>What the cache holds after a run of lookups: what it held, and what they found.\<close>

primrec heap_after :: "bool \<Rightarrow> cache_heap \<Rightarrow> module_data \<Rightarrow> u64 list \<Rightarrow> cache_heap" where
  "heap_after oc h md [] = h"
| "heap_after oc h md (ip # ips) = heap_after oc (snd (get_or_parse_function_details oc h md ip)) md ips"

lemma cache_holds_after_lookup:
  assumes wf: "module_wf h md" and tc: "table_consistent oc md"
    and lk: "lock_cache h (md_function_cache md) = Some cache" and cs: "cache_sound oc md cache"
  obtains cache' where
    "lock_cache (snd (get_or_parse_function_details oc h md ip)) (md_function_cache md) = Some cache'"
    and "cache_sound oc md cache'"
    and "\<And>d. bt_get (fd_start_ip d) cache' = Some d \<longleftrightarrow>
      bt_get (fd_start_ip d) cache = Some d \<or> parse_function_details oc md ip = Ok d"
proof (cases "cache_hit cache ip")
  case (Some e)
  have "bt_wf cache" using cs by (simp add: cache_sound_def)
  from this Some obtain k where "bt_get k cache = Some e" by (rule cache_hit_Some)
  with cs have "bt_get (fd_start_ip e) cache = Some e" by (auto simp: cache_sound_def)
  with Some lk cs cache_sound_hit [OF cs Some] show ?thesis
    by (intro that [of cache]) (auto simp: get_or_parse_function_details_def)
next
  case None
  show ?thesis
  proof (cases "parse_function_details oc md ip")
    case (Ok e)
    let ?cache' = "bt_insert (fd_start_ip e) e cache"
    have bt: "bt_wf cache" using cs by (simp add: cache_sound_def)
    note cs' = cache_sound_insert [OF wf tc cs Ok]
    have same: "parse_function_details oc md (fd_start_ip d) = Ok d"
      if "cache_sound oc md c" "bt_get (fd_start_ip d) c = Some d" for c d
    proof -
      from that have "fd_start_ip d < fd_end_ip d" "\<forall>ip. fd_covers d ip \<longrightarrow> parse_function_details oc md ip = Ok d"
        unfolding cache_sound_def by blast+
      then show ?thesis by (simp add: fd_covers_def)
    qed
    have e: "parse_function_details oc md (fd_start_ip e) = Ok e"
      by (rule same [OF cs']) (simp add: bt_get_insert [OF bt])
    have "d = e" if "bt_get (fd_start_ip d) cache = Some d" "fd_start_ip d = fd_start_ip e" for d
      using same [OF cs that(1), unfolded that(2)] e by simp
    then have "bt_get (fd_start_ip d) ?cache' = Some d \<longleftrightarrow> bt_get (fd_start_ip d) cache = Some d \<or> e = d" for d
      by (auto simp: bt_get_insert [OF bt])
    moreover have "md_function_cache md < length h" using lk by (simp add: lock_cache_Some)
    then have "lock_cache (snd (get_or_parse_function_details oc h md ip)) (md_function_cache md) = Some ?cache'"
      using None lk Ok by (simp add: get_or_parse_function_details_def) (simp add: lock_cache_def)
    ultimately show ?thesis using cs' Ok that [of ?cache'] by auto
  qed (use None lk cs that [of cache] in \<open>simp_all add: get_or_parse_function_details_def\<close>)
qed

lemma heap_after_cache:
  assumes tc: "table_consistent oc md" and "module_wf h md"
    and "lock_cache h (md_function_cache md) = Some cache" and "cache_sound oc md cache"
  obtains cache' where "lock_cache (heap_after oc h md ips) (md_function_cache md) = Some cache'"
    and "cache_sound oc md cache'"
    and "\<And>d. bt_get (fd_start_ip d) cache' = Some d \<longleftrightarrow> bt_get (fd_start_ip d) cache = Some d \<or>
      (\<exists>ip \<in> set ips. parse_function_details oc md ip = Ok d)"
  using assms(2-)
proof (induction ips arbitrary: h cache thesis)
  case (Cons ip ips)
  let ?h = "snd (get_or_parse_function_details oc h md ip)"
  from cache_holds_after_lookup [OF Cons.prems(2) tc Cons.prems(3,4), of ip] obtain c1 where
    c1: "lock_cache ?h (md_function_cache md) = Some c1" "cache_sound oc md c1"
    "\<And>d. bt_get (fd_start_ip d) c1 = Some d \<longleftrightarrow>
      bt_get (fd_start_ip d) cache = Some d \<or> parse_function_details oc md ip = Ok d" by blast
  have "length ?h = length h"
    by (simp add: get_or_parse_function_details_def split: option.split outcome.split)
  then have "module_wf ?h md" using Cons.prems(2) by (simp add: module_wf_def)
  from Cons.IH [OF _ this c1(1,2)] obtain c2 where
    "lock_cache (heap_after oc ?h md ips) (md_function_cache md) = Some c2" "cache_sound oc md c2"
    "\<And>d. bt_get (fd_start_ip d) c2 = Some d \<longleftrightarrow> bt_get (fd_start_ip d) c1 = Some d \<or>
      (\<exists>ip \<in> set ips. parse_function_details oc md ip = Ok d)" by blast
  with c1(3) show ?case by (intro Cons.prems(1) [of c2]) auto
qed auto

text \<open>A signal frame is known exactly when its function is in the cache.\<close>

lemma signal_frame_after_lookups:
  assumes "table_consistent oc md" and "module_wf h md"
    and "lock_cache h (md_function_cache md) = Some []" and "find_module ms ip = Some md"
  shows "module_set_is_signal_frame (heap_after oc h md ips) ms ip \<longleftrightarrow>
    (\<exists>d. parse_function_details oc md ip = Ok d \<and> fd_signal_frame d \<and>
       (\<exists>ip' \<in> set ips. parse_function_details oc md ip' = Ok d))"
proof -
  obtain cache where c: "lock_cache (heap_after oc h md ips) (md_function_cache md) = Some cache"
    "cache_sound oc md cache" "\<And>d. bt_get (fd_start_ip d) cache = Some d \<longleftrightarrow>
      (\<exists>ip \<in> set ips. parse_function_details oc md ip = Ok d)"
    using heap_after_cache [OF assms(1-3) sample_cache_sound, of ips] by auto
  have sig: "module_set_is_signal_frame (heap_after oc h md ips) ms ip \<longleftrightarrow>
      (\<exists>d. cache_hit cache ip = Some d \<and> fd_signal_frame d)"
    using assms(4) c(1) by (auto simp: module_set_is_signal_frame_def cache_hit_def split: option.splits)
  have "cache_hit cache ip = Some d \<longleftrightarrow> parse_function_details oc md ip = Ok d \<and>
      (\<exists>ip' \<in> set ips. parse_function_details oc md ip' = Ok d)" for d
  proof
    assume hit: "cache_hit cache ip = Some d"
    have "bt_wf cache" using c(2) by (simp add: cache_sound_def)
    from this hit obtain k where "bt_get k cache = Some d" by (rule cache_hit_Some)
    with c(2) have "bt_get (fd_start_ip d) cache = Some d" by (auto simp: cache_sound_def)
    with c(3) cache_sound_hit [OF c(2) hit] show "parse_function_details oc md ip = Ok d \<and>
      (\<exists>ip' \<in> set ips. parse_function_details oc md ip' = Ok d)" by simp
  next
    assume p: "parse_function_details oc md ip = Ok d \<and> (\<exists>ip' \<in> set ips. parse_function_details oc md ip' = Ok d)"
    then have "fd_covers d ip" by (auto simp: parse_function_details_iff)
    with c(2,3) p show "cache_hit cache ip = Some d" by (intro cache_sound_finds) auto
  qed
  with sig show ?thesis by auto
qed

lemma find_module_single:
  "find_module (module_set_add module_set_new md) ip =
     (if md_avma_start md \<le> ip \<and> ip < md_avma_end md then Some md else None)"
  by (simp add: find_module_def module_set_add_def module_set_new_def)

section \<open>A sample image\<close>

text \<open>Two functions of one C++ unit with a gap of six bytes between them.\<close>

definition sample_fde_source :: "u64 \<Rightarrow> u64 \<Rightarrow> fde_source" where
  "sample_fde_source pc len = \<lparr>fs_dwarf64 = False, fs_cie_ptr = 0, fs_pc = pc, fs_range = len,
     fs_aug_len = 4, fs_lsda = 0, fs_aug_rest = [], fs_instructions = [0x41, 0x0e, 0x10]\<rparr>"

definition sample_image :: eh_image where
  "sample_image = \<lparr>im_eh_avma = 0x3000, im_hdr_avma = 0x2f00, im_text_base = 0x1000,
     im_units = [(cxx_cie, [sample_fde_source 0x1030 0x20, sample_fde_source 0x1000 0x2a])]\<rparr>"

definition sample_placed :: "usize \<Rightarrow> u64 \<Rightarrow> u64 \<Rightarrow> placed_fde" where
  "sample_placed off pc len = \<lparr>pl_cie_offset = 0, pl_cie = cxx_cie, pl_fde_offset = off,
     pl_fde = link_fde 0 off (sample_fde_source pc len)\<rparr>"

lemma cxx_unit_config:
  "unit_config tb db cxx_cie = \<lparr>cfg_fde_encoding = 0x1b, cfg_lsda_encoding = 0x1b, cfg_has_z = True,
     cfg_text_base = tb, cfg_data_base = db\<rparr>"
  by (simp add: unit_config_def cxx_cie_def aug_result_def aug_init_def)

lemma length_cxx_cie: "length (encode_cie 0x3000 cxx_cie) = 32"
  by (simp add: cxx_cie_def cie_eval)

lemma length_sample_fde:
  "length (encode_fde (unit_config tb db cxx_cie) at (link_fde coff off (sample_fde_source pc len))) = 24"
  by (simp add: cxx_unit_config sample_fde_source_def link_fde_def fde_eval)

lemma sample_image_functions:
  "image_functions sample_image = [sample_placed 56 0x1000 0x2a, sample_placed 32 0x1030 0x20]"
  by (simp add: image_functions_def sample_image_def place_unit_def length_cxx_cie length_sample_fde
      sample_placed_def) (simp add: link_fde_def sample_fde_source_def)

lemma sample_eh_frame_length: "length (image_eh_frame sample_image) = 80"
  by (simp add: image_eh_frame_def sample_image_def encode_unit_def length_cxx_cie length_sample_fde
      Let_def)

lemma sample_placed_fits:
  "placed_fits sample_image (sample_placed 56 0x1000 0x2a)"
  "placed_fits sample_image (sample_placed 32 0x1030 0x20)"
  by (simp_all add: placed_fits_def sample_placed_def sample_image_def cxx_unit_config
      image_fde_avma_def image_row_def link_fde_def cie_ptr_pos_def sample_fde_source_def fde_eval)
    (simp_all add: cxx_cie_def cie_eval)

lemma sample_image_ok: "image_ok sample_image"
  using sample_placed_fits
  by (simp add: image_ok_def sample_image_functions slice_ok_def sample_eh_frame_length)
    (simp add: sample_image_def sample_placed_def link_fde_def sample_fde_source_def)

text \<open>The image of a signal trampoline: one function whose CIE has the augmentation \<open>zRS\<close>.\<close>

definition signal_cie :: cie_source where
  "signal_cie = \<lparr>cs_dwarf64 = False, cs_version = 1, cs_aug = Some (1, [Aug_R 0x1b, Aug_S]),
     cs_code_align = 1, cs_data_align = - 8, cs_ret_addr_column = 16,
     cs_instructions = [0x0c, 7, 8, 0x90, 1, 0]\<rparr>"

definition signal_fde :: fde_source where
  "signal_fde = \<lparr>fs_dwarf64 = False, fs_cie_ptr = 0, fs_pc = 0x1000, fs_range = 9,
     fs_aug_len = 0, fs_lsda = 0, fs_aug_rest = [], fs_instructions = [0, 0, 0]\<rparr>"

definition signal_image :: eh_image where
  "signal_image = \<lparr>im_eh_avma = 0x3000, im_hdr_avma = 0x2f00, im_text_base = 0x1000,
     im_units = [(signal_cie, [signal_fde])]\<rparr>"

definition signal_placed :: "usize \<Rightarrow> placed_fde" where
  "signal_placed off = \<lparr>pl_cie_offset = 0, pl_cie = signal_cie, pl_fde_offset = off,
     pl_fde = link_fde 0 off signal_fde\<rparr>"

lemma signal_unit_config:
  "unit_config tb db signal_cie = \<lparr>cfg_fde_encoding = 0x1b, cfg_lsda_encoding = 0xff, cfg_has_z = True,
     cfg_text_base = tb, cfg_data_base = db\<rparr>"
  by (simp add: unit_config_def signal_cie_def aug_result_def aug_init_def DW_EH_PE_OMIT_def)

lemma length_signal_cie: "length (encode_cie 0x3000 signal_cie) = 24"
  by (simp add: signal_cie_def cie_eval)

lemma length_signal_fde:
  "length (encode_fde (unit_config tb db signal_cie) at (link_fde coff off signal_fde)) = 20"
  by (simp add: signal_unit_config signal_fde_def link_fde_def fde_eval)

lemma signal_image_functions: "image_functions signal_image = [signal_placed 24]"
  by (simp add: image_functions_def signal_image_def place_unit_def length_signal_cie length_signal_fde
      signal_placed_def)

lemma signal_eh_frame_length: "length (image_eh_frame signal_image) = 44"
  by (simp add: image_eh_frame_def signal_image_def encode_unit_def length_signal_cie length_signal_fde
      Let_def)

lemma signal_placed_fits: "placed_fits signal_image (signal_placed 24)"
  by (simp add: placed_fits_def signal_placed_def signal_image_def signal_unit_config
      image_fde_avma_def image_row_def link_fde_def cie_ptr_pos_def signal_fde_def fde_eval)
    (simp add: signal_cie_def cie_eval)

lemma signal_image_ok: "image_ok signal_image"
  using signal_placed_fits
  by (simp add: image_ok_def signal_image_functions slice_ok_def signal_eh_frame_length)
    (simp add: signal_image_def)

lemma signal_image_lookup:
  "image_lookup signal_image name ip =
     (if 0x1000 \<le> ip \<and> ip < 0x1009 then Ok (image_details signal_image (signal_placed 24))
      else Err (EhFrameHeaderLookupMiss name ip))"
  by (simp add: image_lookup_def signal_image_functions)
    (simp add: signal_placed_def link_fde_def signal_fde_def)

lemma signal_image_flag: "fd_signal_frame (image_details signal_image (signal_placed 24))"
  by (simp add: image_details_def signal_placed_def signal_cie_def aug_result_def aug_init_def)

section \<open>Properties\<close>

text \<open>C2: End to end.  Load the \<open>.eh_frame\<close> and \<open>.eh_frame_hdr\<close> a linker writes for any set of
  disjoint functions (any number of CIEs, any encodings the parsers support) at any slide with
  \<open>Module::from_dwarf_sections\<close>.  Then every sequence of lookups through the function cache, in
  every build profile, finds for each address exactly the function that contains it, with the
  bounds, CIE data, language-specific data, personality and signal flag it was written with, and
  reports a miss for an address no function contains.\<close>

theorem eh_frame_image_lookup:
  assumes "image_ok im" and "fst r < snd r"
  shows "\<exists>md. from_dwarf_sections oc Ok name r b (image_sections sv (b - sv) im) h =
      Ok (md, h @ [Unlocked []]) \<and>
    (\<forall>ips. lookups oc (h @ [Unlocked []]) md ips = map (image_lookup im name) ips)"
proof -
  have "\<not> range_is_empty r" using assms(2) by (simp add: range_is_empty_def)
  from load_image [OF assms(1) this] obtain md where
    md: "from_dwarf_sections oc Ok name r b (image_sections sv (b - sv) im) h =
        Ok (md, h @ [Unlocked []])"
      "mirrors md im" "md_name md = name" "module_wf (h @ [Unlocked []]) md"
      "md_function_cache md = length h" by blast
  have "lookups oc (h @ [Unlocked []]) md ips = map (parse_function_details oc md) ips" for ips
    using lookups_eq [OF mirrors_consistent [OF md(2) assms(1)] md(4) _ sample_cache_sound] md(5)
    by (simp add: lock_cache_def)
  then show ?thesis using md(1,3) mirrors_lookup_correct [OF md(2) assms(1), of oc] by auto
qed

theorem eh_frame_image_lookup_witness:
  "\<exists>md. from_dwarf_sections True Ok ''m'' (0x1000, 0x2000) 0x400
      (image_sections 0 (0x400 - 0) sample_image) [] = Ok (md, [] @ [Unlocked []]) \<and>
    lookups True ([] @ [Unlocked []]) md [0x1008, 0x102c, 0x1030, 0xfff] =
      [Ok (image_details sample_image (sample_placed 56 0x1000 0x2a)),
       Err (EhFrameHeaderLookupMiss ''m'' 0x102c),
       Ok (image_details sample_image (sample_placed 32 0x1030 0x20)),
       Err (EhFrameHeaderLookupMiss ''m'' 0xfff)]"
proof -
  have "map (image_lookup sample_image ''m'') [0x1008, 0x102c, 0x1030, 0xfff] =
      [Ok (image_details sample_image (sample_placed 56 0x1000 0x2a)),
       Err (EhFrameHeaderLookupMiss ''m'' 0x102c),
       Ok (image_details sample_image (sample_placed 32 0x1030 0x20)),
       Err (EhFrameHeaderLookupMiss ''m'' 0xfff)]"
    by (simp add: image_lookup_def sample_image_functions)
      (simp add: sample_placed_def link_fde_def sample_fde_source_def)
  then show ?thesis
    using eh_frame_image_lookup [OF sample_image_ok, of "(0x1000, 0x2000)" True "''m''" "0x400" 0 "[]"]
    by (auto simp del: lookups.simps)
qed

text \<open>C40: When a signal frame is recognised.  Load any image a linker writes, register the module and
  look up any sequence of addresses, starting from the empty cache the constructor made.  Then
  \<open>is_signal_frame\<close> holds of an address exactly when the module contains it, the image has a
  function there whose CIE carries the signal flag, and one of the lookups was for an address of
  that same function: a signal frame nobody has looked up is taken for an ordinary one, and
  nothing else ever is taken for a signal frame.\<close>

theorem signal_frame_needs_lookup:
  assumes "image_ok im" and "fst r < snd r"
  shows "\<exists>md. from_dwarf_sections oc Ok name r b (image_sections sv (b - sv) im) h = Ok (md, h @ [Unlocked []]) \<and>
    (\<forall>ips ip. module_set_is_signal_frame (heap_after oc (h @ [Unlocked []]) md ips)
        (module_set_add module_set_new md) ip \<longleftrightarrow>
      fst r \<le> ip \<and> ip < snd r \<and>
      (\<exists>d. image_lookup im name ip = Ok d \<and> fd_signal_frame d \<and>
         (\<exists>ip' \<in> set ips. image_lookup im name ip' = Ok d)))"
proof -
  have "\<not> range_is_empty r" using assms(2) by (simp add: range_is_empty_def)
  from load_image [OF assms(1) this] obtain md where
    md: "from_dwarf_sections oc Ok name r b (image_sections sv (b - sv) im) h =
        Ok (md, h @ [Unlocked []])"
      "mirrors md im" "md_name md = name" "module_wf (h @ [Unlocked []]) md"
      "md_function_cache md = length h" "md_avma_start md = fst r" "md_avma_end md = snd r" by blast
  have "lock_cache (h @ [Unlocked []]) (md_function_cache md) = Some []"
    using md(5) by (simp add: lock_cache_def)
  note inside = signal_frame_after_lookups [OF mirrors_consistent [OF md(2) assms(1)] md(4) this,
      of "module_set_add module_set_new md", unfolded mirrors_lookup_correct [OF md(2) assms(1)] md(3)]
  have "module_set_is_signal_frame (heap_after oc (h @ [Unlocked []]) md ips) (module_set_add module_set_new md) ip \<longleftrightarrow>
      fst r \<le> ip \<and> ip < snd r \<and> (\<exists>d. image_lookup im name ip = Ok d \<and> fd_signal_frame d \<and>
         (\<exists>ip' \<in> set ips. image_lookup im name ip' = Ok d))" for ips ip
  proof (cases "fst r \<le> ip \<and> ip < snd r")
    case True
    with inside [where ip = ip and oc = oc and ips = ips] show ?thesis by (simp add: find_module_single md(6,7))
  next
    case False
    then have "find_module (module_set_add module_set_new md) ip = None"
      by (simp only: find_module_single md(6,7) if_False)
    with False show ?thesis by (auto simp: module_set_is_signal_frame_def)
  qed
  with md(1) show ?thesis by blast
qed

theorem signal_frame_needs_lookup_witness:
  "\<exists>md. from_dwarf_sections True Ok ''m'' (0x1000, 0x2000) 0x400
      (image_sections 0 (0x400 - 0) signal_image) [] = Ok (md, [] @ [Unlocked []]) \<and>
    module_set_is_signal_frame (heap_after True ([] @ [Unlocked []]) md [0x1003])
      (module_set_add module_set_new md) 0x1008 \<and>
    \<not> module_set_is_signal_frame (heap_after True ([] @ [Unlocked []]) md [])
      (module_set_add module_set_new md) 0x1008"
proof -
  from signal_frame_needs_lookup [OF signal_image_ok, of "(0x1000, 0x2000)" True "''m''" "0x400" 0 "[]"]
  obtain md where "from_dwarf_sections True Ok ''m'' (0x1000, 0x2000) 0x400
      (image_sections 0 (0x400 - 0) signal_image) [] = Ok (md, [] @ [Unlocked []])"
    and sig: "\<And>ips ip. module_set_is_signal_frame (heap_after True ([] @ [Unlocked []]) md ips)
        (module_set_add module_set_new md) ip \<longleftrightarrow> 0x1000 \<le> ip \<and> ip < 0x2000 \<and>
      (\<exists>d. image_lookup signal_image ''m'' ip = Ok d \<and> fd_signal_frame d \<and>
         (\<exists>ip' \<in> set ips. image_lookup signal_image ''m'' ip' = Ok d))" by auto
  then show ?thesis
    by (intro exI [of _ md] conjI) (simp_all only: sig, simp_all add: signal_image_lookup signal_image_flag)
qed

end
