(* ===== verification/Build_Script.thy ===== *)
theory Build_Script
  imports Rust_Prelude
begin

text \<open>
  \<open>build.rs\<close>: which libunwind the crate links and how the vendored one is built.

  The script acts on the machine it runs on, so the machine is a parameter: its environment
  variables, its file system (\<open>is_file\<close>, \<open>exists\<close>, \<open>create_dir_all\<close>) and what a command does to
  the world and whether it succeeds.  What the script prints for Cargo and the commands it
  starts, with how they ended, are a log, in order.  A panic is a value that carries what its message is made of.
  Strings are byte strings and white space is ASCII white space.
\<close>

section \<open>The machine\<close>

text \<open>An \<open>OsString\<close>: Unicode, or anything else, with its lossy rendering.\<close>

datatype os_string = Unicode string | NonUnicode string

primrec to_string_lossy :: "os_string \<Rightarrow> string" where
  "to_string_lossy (Unicode s) = s"
| "to_string_lossy (NonUnicode s) = s"

text \<open>
  \<open>bh_run dir program args\<close>: \<open>None\<close> when the program cannot be started, otherwise whether it
  succeeded.
\<close>

record 'w build_host =
  bh_var :: "string \<Rightarrow> os_string option"
  bh_is_file :: "'w \<Rightarrow> string \<Rightarrow> bool"
  bh_exists :: "'w \<Rightarrow> string \<Rightarrow> bool"
  bh_create_dir_all :: "string \<Rightarrow> 'w \<Rightarrow> bool \<times> 'w"
  bh_run :: "string option \<Rightarrow> string \<Rightarrow> string list \<Rightarrow> 'w \<Rightarrow> bool option \<times> 'w"

datatype host_arch = Host_x86_64 | Host_aarch64 | Host_other

datatype build_panic =
    VarMissing string
  | VendoredSourceMissing string
  | BuildToolMissing string
  | CompilerMissing string
  | NoCompilerFound
  | CreateDirFailed string
  | SpawnFailed string
  | CommandFailed string "string list"

datatype build_event = Printed string | Ran "string option" string "string list" "bool option"

record 'w build_state =
  bs_world :: 'w
  bs_log :: "build_event list"

type_synonym ('w, 'a) build = "'w build_state \<Rightarrow> (build_panic + 'a) \<times> 'w build_state"

definition proceed :: "'a \<Rightarrow> ('w, 'a) build" where
  "proceed x s = (Inr x, s)"

definition panic :: "build_panic \<Rightarrow> ('w, 'a) build" where
  "panic p s = (Inl p, s)"

definition then_do :: "('w, 'a) build \<Rightarrow> ('a \<Rightarrow> ('w, 'b) build) \<Rightarrow> ('w, 'b) build" where
  "then_do m f s = (case m s of (Inl p, s') \<Rightarrow> (Inl p, s') | (Inr x, s') \<Rightarrow> f x s')"

definition println :: "string \<Rightarrow> ('w, unit) build" where
  "println line s = (Inr (), s\<lparr>bs_log := bs_log s @ [Printed line]\<rparr>)"

definition run_command ::
    "'w build_host \<Rightarrow> string option \<Rightarrow> string \<Rightarrow> string list \<Rightarrow> ('w, bool option) build" where
  "run_command host dir program args s =
     (case bh_run host dir program args (bs_world s) of
        (status, w) \<Rightarrow>
          (Inr status, \<lparr>bs_world = w, bs_log = bs_log s @ [Ran dir program args status]\<rparr>))"

section \<open>The helpers\<close>

definition env_var :: "'w build_host \<Rightarrow> string \<Rightarrow> ('w, string) build" where
  "env_var host name =
     (case bh_var host name of Some (Unicode s) \<Rightarrow> proceed s | _ \<Rightarrow> panic (VarMissing name))"

definition use_system_libunwind :: "'w build_host \<Rightarrow> bool" where
  "use_system_libunwind host \<longleftrightarrow>
     bh_var host ''CARGO_FEATURE_SYSTEM_LIBUNWIND'' \<noteq> None \<or>
     bh_var host ''CARGO_FEATURE_VENDORED'' = None \<or>
     bh_var host ''LIBUNWIND_NO_VENDOR'' \<noteq> None"

definition command_succeeds :: "'w build_host \<Rightarrow> string \<Rightarrow> ('w, bool) build" where
  "command_succeeds host program =
     then_do (run_command host None program [''--version''])
       (\<lambda>status. proceed (status = Some True))"

definition require_program :: "'w build_host \<Rightarrow> string \<Rightarrow> ('w, unit) build" where
  "require_program host program =
     then_do (command_succeeds host program)
       (\<lambda>ok. if ok then proceed () else panic (BuildToolMissing program))"

definition is_space :: "char \<Rightarrow> bool" where
  "is_space c \<longleftrightarrow> of_char c \<in> {9, 10, 11, 12, 13, 32 :: nat}"

text \<open>\<open>split_whitespace().next().unwrap_or("")\<close>.\<close>

definition first_word :: "string \<Rightarrow> string" where
  "first_word s = takeWhile (\<lambda>c. \<not> is_space c) (dropWhile is_space s)"

text \<open>\<open>any\<close> stops at the first candidate that works.\<close>

primrec any_succeeds :: "'w build_host \<Rightarrow> string list \<Rightarrow> ('w, bool) build" where
  "any_succeeds host [] = proceed False"
| "any_succeeds host (c # cs) =
     then_do (command_succeeds host c) (\<lambda>ok. if ok then proceed True else any_succeeds host cs)"

definition require_c_compiler :: "'w build_host \<Rightarrow> ('w, unit) build" where
  "require_c_compiler host =
     (case bh_var host ''CC'' of
        Some cc \<Rightarrow>
          let cc = to_string_lossy cc; program = first_word cc in
          if program = [] then panic (CompilerMissing cc)
          else then_do (command_succeeds host program)
            (\<lambda>ok. if ok then proceed () else panic (CompilerMissing cc))
      | None \<Rightarrow>
          then_do (any_succeeds host [''cc'', ''gcc'', ''clang''])
            (\<lambda>ok. if ok then proceed () else panic NoCompilerFound))"

definition run_in :: "'w build_host \<Rightarrow> string \<Rightarrow> string \<Rightarrow> string list \<Rightarrow> ('w, unit) build" where
  "run_in host dir program args =
     then_do (run_command host (Some dir) program args) (\<lambda>status.
       case status of
         None \<Rightarrow> panic (SpawnFailed program)
       | Some success \<Rightarrow> if success then proceed () else panic (CommandFailed program args))"

definition num_jobs :: "'w build_host \<Rightarrow> string" where
  "num_jobs host = (case bh_var host ''NUM_JOBS'' of Some (Unicode s) \<Rightarrow> s | _ \<Rightarrow> ''4'')"

definition create_dir_all :: "'w build_host \<Rightarrow> string \<Rightarrow> string \<Rightarrow> ('w, unit) build" where
  "create_dir_all host dir what s =
     (case bh_create_dir_all host dir (bs_world s) of
        (ok, w) \<Rightarrow>
          (if ok then Inr () else Inl (CreateDirFailed what), s\<lparr>bs_world := w\<rparr>))"

section \<open>main\<close>

definition configure_args :: "string \<Rightarrow> string \<Rightarrow> string list" where
  "configure_args vendor_src install_dir =
     [path_join vendor_src ''configure'', ''--enable-static'', ''--disable-shared'',
      ''--disable-documentation'', ''--disable-coredump'', ''--disable-ptrace'',
      ''--disable-setjmp'', ''--disable-tests'', ''--disable-minidebuginfo'',
      ''--disable-zlibdebuginfo'', ''--prefix='' @ install_dir, ''CFLAGS=-fPIC -O2 -g'']"

definition configure_once :: "'w build_host \<Rightarrow> string \<Rightarrow> string \<Rightarrow> string \<Rightarrow> ('w, unit) build" where
  "configure_once host vendor_src build_dir install_dir s =
     (if \<not> bh_exists host (bs_world s) (path_join build_dir ''Makefile'') then
        run_in host build_dir ''sh'' (configure_args vendor_src install_dir) s
      else proceed () s)"

definition check_sources :: "'w build_host \<Rightarrow> string \<Rightarrow> ('w, unit) build" where
  "check_sources host vendor_src s =
     (if \<not> bh_is_file host (bs_world s) (path_join vendor_src ''configure'') then
        panic (VendoredSourceMissing vendor_src) s
      else proceed () s)"

text \<open>The statements up to \<open>make install\<close>, and the directives that follow it.\<close>

definition build_vendored :: "'w build_host \<Rightarrow> string \<Rightarrow> string \<Rightarrow> string \<Rightarrow> ('w, unit) build" where
  "build_vendored host vendor_src build_dir install_dir =
     then_do (check_sources host vendor_src) (\<lambda>_.
     then_do (require_program host ''make'') (\<lambda>_.
     then_do (require_c_compiler host) (\<lambda>_.
     then_do (create_dir_all host build_dir ''create build dir'') (\<lambda>_.
     then_do (create_dir_all host install_dir ''create install dir'') (\<lambda>_.
     then_do (configure_once host vendor_src build_dir install_dir) (\<lambda>_.
     then_do (run_in host build_dir ''make'' [''-j'', num_jobs host]) (\<lambda>_.
     run_in host build_dir ''make'' [''install''])))))))"

definition arch_link_line :: "host_arch \<Rightarrow> string list" where
  "arch_link_line arch =
     (case arch of
        Host_x86_64 \<Rightarrow> [''cargo:rustc-link-lib=static=unwind-x86_64'']
      | Host_aarch64 \<Rightarrow> [''cargo:rustc-link-lib=static=unwind-aarch64'']
      | Host_other \<Rightarrow> [])"

primrec println_all :: "string list \<Rightarrow> ('w, unit) build" where
  "println_all [] = proceed ()"
| "println_all (l # ls) = then_do (println l) (\<lambda>_. println_all ls)"

definition vendored_links :: "host_arch \<Rightarrow> string \<Rightarrow> string list" where
  "vendored_links arch install_dir =
     [''cargo:rustc-link-search=native='' @ path_join install_dir ''lib''] @ arch_link_line arch @
     [''cargo:rustc-link-lib=static=unwind'']"

definition system_links :: "string list" where
  "system_links = [''cargo:rustc-link-lib=unwind-generic'', ''cargo:rustc-link-lib=unwind'']"

definition build_main :: "host_arch \<Rightarrow> 'w build_host \<Rightarrow> ('w, unit) build" where
  "build_main arch host =
     then_do (env_var host ''CARGO_MANIFEST_DIR'') (\<lambda>manifest_dir.
     let vendor_src = path_join (path_join manifest_dir ''vendor'') ''libunwind-dist'' in
     then_do (env_var host ''OUT_DIR'') (\<lambda>out_dir.
     let build_dir = path_join out_dir ''libunwind-build'';
         install_dir = path_join out_dir ''libunwind-install'' in
     then_do (println_all [''cargo:rerun-if-changed='' @ vendor_src,
       ''cargo:rerun-if-env-changed=LIBUNWIND_NO_VENDOR'', ''cargo:rerun-if-env-changed=CC'']) (\<lambda>_.
     if use_system_libunwind host then
       then_do (println ''cargo:warning=linking system libunwind'') (\<lambda>_. println_all system_links)
     else
       then_do (build_vendored host vendor_src build_dir install_dir) (\<lambda>_.
       println_all (vendored_links arch install_dir)))))"

section \<open>What a run leaves in the log\<close>

primrec link_of :: "build_event \<Rightarrow> string list" where
  "link_of (Printed l) = (if take 16 l = ''cargo:rustc-link'' then [l] else [])"
| "link_of (Ran d p a st) = []"

text \<open>The link directives Cargo reads, and the commands run inside the build directory with their
  exit status.\<close>

definition link_lines :: "build_event list \<Rightarrow> string list" where
  "link_lines es = concat (map link_of es)"

primrec work_of :: "build_event \<Rightarrow> (string \<times> string list \<times> bool option) list" where
  "work_of (Printed l) = []"
| "work_of (Ran d p a st) = (case d of None \<Rightarrow> [] | Some _ \<Rightarrow> [(p, a, st)])"

definition build_commands :: "build_event list \<Rightarrow> (string \<times> string list \<times> bool option) list" where
  "build_commands es = concat (map work_of es)"

lemma log_simps [simp]:
  "link_lines [] = []" "build_commands [] = []"
  "link_lines (es @ fs) = link_lines es @ link_lines fs"
  "build_commands (es @ fs) = build_commands es @ build_commands fs"
  "link_lines (Printed l # es) = (if take 16 l = ''cargo:rustc-link'' then [l] else []) @ link_lines es"
  "build_commands (Printed l # es) = build_commands es"
  "link_lines (Ran d p a st # es) = link_lines es"
  "build_commands (Ran d p a st # es) =
     (case d of None \<Rightarrow> [] | Some _ \<Rightarrow> [(p, a, st)]) @ build_commands es"
  by (simp_all add: link_lines_def build_commands_def)

text \<open>
  A step that prints no link directive, whatever its outcome; and one that moreover only looks,
  and runs nothing in the build directory.
\<close>

locale quiet =
  fixes m :: "('w, 'a) build"
  assumes quiet_links: "link_lines (bs_log (snd (m s))) = link_lines (bs_log s)"
begin

lemma quiet_result: "m s = (r, s') \<Longrightarrow> link_lines (bs_log s') = link_lines (bs_log s)"
  using quiet_links [of s] by simp

end

locale probing = quiet +
  assumes probe_work: "build_commands (bs_log (snd (m s))) = build_commands (bs_log s)"
begin

lemma probe_result: "m s = (r, s') \<Longrightarrow> build_commands (bs_log s') = build_commands (bs_log s)"
  using probe_work [of s] by simp

end

lemma quiet_then: "quiet m \<Longrightarrow> (\<And>x. quiet (f x)) \<Longrightarrow> quiet (then_do m f)"
  unfolding quiet_def by (auto simp: then_do_def split: prod.split sum.split) (metis snd_conv)+

lemma probing_then: "probing m \<Longrightarrow> (\<And>x. probing (f x)) \<Longrightarrow> probing (then_do m f)"
  unfolding probing_def probing_axioms_def
  by (intro conjI quiet_then)
    (auto simp: then_do_def split: prod.split sum.split, (metis snd_conv)+)

lemma probing_if: "probing f \<Longrightarrow> probing g \<Longrightarrow> probing (if b then f else g)"
  by simp

interpretation prproceed: probing "proceed x" for x
  by unfold_locales (simp_all add: proceed_def)

interpretation prpanic: probing "panic p" for p
  by unfold_locales (simp_all add: panic_def)

interpretation prcmd: probing "run_command host None program args" for host program args
  by unfold_locales (simp_all add: run_command_def split: prod.split)

lemmas probing_intros = probing_then probing_if prproceed.probing_axioms prpanic.probing_axioms
  prcmd.probing_axioms

interpretation prsucc: probing "command_succeeds host program" for host program
  unfolding command_succeeds_def by (intro probing_intros)

interpretation prtool: probing "require_program host program" for host program
  unfolding require_program_def by (intro probing_intros prsucc.probing_axioms)

lemma probing_any: "probing (any_succeeds host cs)"
  by (induction cs) (simp_all add: probing_intros prsucc.probing_axioms)

interpretation prcc: probing "require_c_compiler host" for host
  unfolding require_c_compiler_def Let_def
  by (cases "bh_var host ''CC''") (simp_all add: probing_intros prsucc.probing_axioms probing_any)

interpretation prmkdir: probing "create_dir_all host dir what" for host dir what
  by unfold_locales (simp_all add: create_dir_all_def split: prod.split)

interpretation prsrc: probing "check_sources host vendor_src" for host vendor_src
  by unfold_locales (simp_all add: check_sources_def panic_def proceed_def)

interpretation qrun: quiet "run_in host dir program args" for host dir program args
  by unfold_locales (simp add: run_in_def then_do_def run_command_def panic_def proceed_def
      split: prod.split option.split)

interpretation qconf: quiet "configure_once host vs bd idir" for host vs bd idir
  by unfold_locales (simp add: configure_once_def qrun.quiet_links proceed_def)

lemma run_in_commands:
  "run_in host dir program args s = (Inr (), s') \<Longrightarrow>
     build_commands (bs_log s') = build_commands (bs_log s) @ [(program, args, Some True)]"
  by (auto simp: run_in_def then_do_def run_command_def panic_def proceed_def
      split: prod.splits option.splits if_splits)

lemma configure_once_commands:
  "configure_once host vs bd idir s = (Inr (), s') \<Longrightarrow>
     build_commands (bs_log s') = build_commands (bs_log s) @
       (if bh_exists host (bs_world s) (path_join bd ''Makefile'') then []
        else [(''sh'', configure_args vs idir, Some True)])"
  by (auto simp: configure_once_def proceed_def run_in_commands split: if_splits)

lemma println_all_log:
  "println_all ls s = (Inr (), s\<lparr>bs_log := bs_log s @ map Printed ls\<rparr>)"
  by (induction ls arbitrary: s) (simp_all add: proceed_def then_do_def println_def)

declare println_all.simps [simp del]

text \<open>The vendored build: no link directive, and on success these commands in this order.\<close>

definition vendored_commands :: "'w build_host \<Rightarrow> string \<Rightarrow> string \<Rightarrow> bool \<Rightarrow> (string \<times> string list \<times> bool option) list" where
  "vendored_commands host vendor_src install_dir configured =
     (if configured then [] else [(''sh'', configure_args vendor_src install_dir, Some True)]) @
     [(''make'', [''-j'', num_jobs host], Some True), (''make'', [''install''], Some True)]"

interpretation qbuild: quiet "build_vendored host vs bd idir" for host vs bd idir
  unfolding build_vendored_def
  by (intro quiet_then prsrc.quiet_axioms prtool.quiet_axioms prcc.quiet_axioms prmkdir.quiet_axioms
      qconf.quiet_axioms qrun.quiet_axioms)

lemma then_do_InrE:
  assumes "then_do m f s = (Inr y, s')"
  obtains x s1 where "m s = (Inr x, s1)" and "f x s1 = (Inr y, s')"
  using assms by (auto simp: then_do_def split: prod.splits sum.splits)

text \<open>What precedes the configuration: the checks and the two directories.\<close>

definition prepare_build :: "'w build_host \<Rightarrow> string \<Rightarrow> string \<Rightarrow> string \<Rightarrow> ('w, unit) build" where
  "prepare_build host vendor_src build_dir install_dir =
     then_do (check_sources host vendor_src) (\<lambda>_.
     then_do (require_program host ''make'') (\<lambda>_.
     then_do (require_c_compiler host) (\<lambda>_.
     then_do (create_dir_all host build_dir ''create build dir'') (\<lambda>_.
     create_dir_all host install_dir ''create install dir''))))"

lemma build_vendored_commands:
  assumes "build_vendored host vs bd idir s = (Inr (), s')"
  shows "\<exists>s0. prepare_build host vs bd idir s = (Inr (), s0) \<and> build_commands (bs_log s') =
    build_commands (bs_log s) @
    vendored_commands host vs idir (bh_exists host (bs_world s0) (path_join bd ''Makefile''))"
proof -
  obtain s1 s2 s3 s4 s5 s6 s7 where st:
    "check_sources host vs s = (Inr (), s1)" "require_program host ''make'' s1 = (Inr (), s2)"
    "require_c_compiler host s2 = (Inr (), s3)"
    "create_dir_all host bd ''create build dir'' s3 = (Inr (), s4)"
    "create_dir_all host idir ''create install dir'' s4 = (Inr (), s5)"
    "configure_once host vs bd idir s5 = (Inr (), s6)"
    "run_in host bd ''make'' [''-j'', num_jobs host] s6 = (Inr (), s7)"
    "run_in host bd ''make'' [''install''] s7 = (Inr (), s')"
    using assms unfolding build_vendored_def by (auto elim!: then_do_InrE)
  have "prepare_build host vs bd idir s = (Inr (), s5)"
    using st by (simp add: prepare_build_def then_do_def)
  then show ?thesis
    using prsrc.probe_result [OF st(1)] prtool.probe_result [OF st(2)] prcc.probe_result [OF st(3)]
      prmkdir.probe_result [OF st(4)] prmkdir.probe_result [OF st(5)]
      configure_once_commands [OF st(6)] run_in_commands [OF st(7)] run_in_commands [OF st(8)]
    by (intro exI [of _ s5]) (simp add: vendored_commands_def)
qed

section \<open>Properties\<close>

definition sample_host :: "unit build_host" where
  "sample_host = \<lparr>bh_var = (\<lambda>name.
       if name = ''CARGO_MANIFEST_DIR'' then Some (Unicode ''/crate'')
       else if name = ''OUT_DIR'' then Some (Unicode ''/out'')
       else if name = ''CARGO_FEATURE_VENDORED'' then Some (Unicode ''1'') else None),
     bh_is_file = (\<lambda>_ _. True), bh_exists = (\<lambda>_ _. False), bh_create_dir_all = (\<lambda>_ w. (True, w)),
     bh_run = (\<lambda>_ program _ w. (Some (program \<noteq> ''cc''), w))\<rparr>"

text \<open>C35: The build script links only what it built.  Under the variables Cargo sets, for every
  machine: a run that panics (a missing tool or source, a directory or command that fails) has
  printed no link directive.  A run that ends has printed, for a system libunwind, its two
  libraries without running anything, and for the vendored one the search path of the install
  directory and the static libraries, the architecture's before the generic one, after
  configuring (exactly when, with the directories made, the build directory has no \<open>Makefile\<close>),
  \<open>make\<close> and \<open>make install\<close> in this order, each of which succeeded.\<close>

theorem build_script_links:
  assumes "bh_var host ''CARGO_MANIFEST_DIR'' = Some (Unicode manifest_dir)"
    and "bh_var host ''OUT_DIR'' = Some (Unicode out_dir)"
    and "build_main arch host \<lparr>bs_world = w, bs_log = []\<rparr> = (r, s)"
    and "install_dir = path_join out_dir ''libunwind-install''"
    and "vendor_src = path_join (path_join manifest_dir ''vendor'') ''libunwind-dist''"
    and "build_dir = path_join out_dir ''libunwind-build''"
  shows "link_lines (bs_log s) =
      (if r \<noteq> Inr () then [] else if use_system_libunwind host then system_links
       else vendored_links arch install_dir) \<and>
    (use_system_libunwind host \<longrightarrow> r = Inr () \<and> bs_world s = w \<and> build_commands (bs_log s) = []) \<and>
    (r = Inr () \<longrightarrow> \<not> use_system_libunwind host \<longrightarrow>
      (\<exists>s1 s0. bs_world s1 = w \<and> prepare_build host vendor_src build_dir install_dir s1 = (Inr (), s0) \<and>
        build_commands (bs_log s) = vendored_commands host vendor_src install_dir
          (bh_exists host (bs_world s0) (path_join build_dir ''Makefile''))))"
proof -
  define s1 where "s1 = \<lparr>bs_world = w, bs_log = map Printed [''cargo:rerun-if-changed='' @ vendor_src,
    ''cargo:rerun-if-env-changed=LIBUNWIND_NO_VENDOR'', ''cargo:rerun-if-env-changed=CC'']\<rparr>"
  let ?b = "build_vendored host vendor_src build_dir install_dir"
  have log1: "link_lines (bs_log s1) = []" "build_commands (bs_log s1) = []" by (simp_all add: s1_def)
  have main: "build_main arch host \<lparr>bs_world = w, bs_log = []\<rparr> =
      (if use_system_libunwind host then
         then_do (println ''cargo:warning=linking system libunwind'') (\<lambda>_. println_all system_links) s1
       else then_do ?b (\<lambda>_. println_all (vendored_links arch install_dir)) s1)"
    using assms(1,2,4,5,6)
    by (simp add: build_main_def env_var_def proceed_def then_do_def println_all_log s1_def Let_def)
  have links: "link_lines (map Printed system_links) = system_links"
    "link_lines (map Printed (vendored_links arch install_dir)) = vendored_links arch install_dir"
    "build_commands (map Printed ls) = []" for ls
    by (simp_all add: system_links_def vendored_links_def arch_link_line_def split: host_arch.split)
      (induction ls; simp)
  show ?thesis
  proof (cases "use_system_libunwind host")
    case True
    then show ?thesis
      using main assms(3) log1 links
      by (auto simp: then_do_def println_def println_all_log s1_def)
  next
    case False
    obtain r1 s2 where b: "?b s1 = (r1, s2)" by fastforce
    show ?thesis
    proof (cases r1)
      case (Inl p)
      with b main assms(3) False qbuild.quiet_result [OF b] log1 show ?thesis
        by (auto simp: then_do_def)
    next
      case (Inr u)
      with b main assms(3) False have r: "r = Inr ()"
        and s: "s = s2\<lparr>bs_log := bs_log s2 @ map Printed (vendored_links arch install_dir)\<rparr>"
        by (simp_all add: then_do_def println_all_log)
      from build_vendored_commands [of host vendor_src build_dir install_dir s1 s2] b Inr obtain s0 where
        "prepare_build host vendor_src build_dir install_dir s1 = (Inr (), s0)"
        "build_commands (bs_log s2) = vendored_commands host vendor_src install_dir
          (bh_exists host (bs_world s0) (path_join build_dir ''Makefile''))" using log1 by auto
      moreover have "bs_world s1 = w" by (simp add: s1_def)
      ultimately have "\<exists>s1 s0. bs_world s1 = w \<and> prepare_build host vendor_src build_dir install_dir s1 = (Inr (), s0) \<and>
        build_commands (bs_log s2) = vendored_commands host vendor_src install_dir
          (bh_exists host (bs_world s0) (path_join build_dir ''Makefile''))" by blast
      then show ?thesis
        using qbuild.quiet_result [OF b] log1 links False r s by simp
    qed
  qed
qed

theorem build_script_links_witness:
  "link_lines (bs_log (snd (build_main Host_x86_64 sample_host \<lparr>bs_world = (), bs_log = []\<rparr>))) =
     [''cargo:rustc-link-search=native=/out/libunwind-install/lib'',
      ''cargo:rustc-link-lib=static=unwind-x86_64'', ''cargo:rustc-link-lib=static=unwind'']"
proof -
  have ok: "fst (build_main Host_x86_64 sample_host \<lparr>bs_world = (), bs_log = []\<rparr>) = Inr ()"
    by (simp add: build_main_def env_var_def sample_host_def proceed_def then_do_def println_all_log
        use_system_libunwind_def build_vendored_def check_sources_def require_program_def
        command_succeeds_def run_command_def require_c_compiler_def create_dir_all_def
        configure_once_def run_in_def panic_def Let_def)
  have v: "bh_var sample_host ''CARGO_MANIFEST_DIR'' = Some (Unicode ''/crate'')"
    "bh_var sample_host ''OUT_DIR'' = Some (Unicode ''/out'')" "\<not> use_system_libunwind sample_host"
    by (simp_all add: sample_host_def use_system_libunwind_def)
  show ?thesis
    using build_script_links [OF v(1,2) prod.collapse [symmetric] refl refl refl, of Host_x86_64 "()"] ok v(3)
    by (simp add: vendored_links_def arch_link_line_def path_join_def)
qed

end
