(* ===== verification/Unit_Tests.thy ===== *)
theory Unit_Tests
  imports Callbacks
begin

unbundle bit_operations_syntax

text \<open>
  The unit tests inside \<open>dwarf.rs\<close>, \<open>callbacks.rs\<close> and \<open>module.rs\<close>, run on the model.  The
  section builders are translated as written; a test is a predicate of the build profile that
  holds when none of its assertions fails, and the theorem at the end says that they all pass.
\<close>

section \<open>dwarf.rs\<close>

definition zplr_cie :: bytes where
  "zplr_cie =
     [0x15, 0, 0, 0,
      0, 0, 0, 0,
      1,
      0x7a, 0x50, 0x4c, 0x52, 0,
      1,
      0x78,
      0x10,
      7,
      0x9b,
      0, 0, 0, 0,
      DW_EH_PE_OMIT,
      DW_EH_PE_PCREL OR DW_EH_PE_SDATA4]"

definition cie_zplr_accepts_indirect_pcrel_sdata4_personality_without_deref :: "bool \<Rightarrow> bool" where
  "cie_zplr_accepts_indirect_pcrel_sdata4_personality_without_deref oc \<longleftrightarrow>
     (case parse_cie oc zplr_cie 0 0x1000 of
        Ok parsed \<Rightarrow>
          cie_personality parsed = 0 \<and> cie_lsda_encoding parsed = DW_EH_PE_OMIT \<and>
          cie_fde_encoding parsed = DW_EH_PE_PCREL OR DW_EH_PE_SDATA4 \<and> cie_instr_len parsed = 0
      | _ \<Rightarrow> False)"

text \<open>
  The cursor of this test is not returned on an error, so its last assertion (the position is
  still 0) is not expressible; the first is.
\<close>

definition normal_encoded_values_still_reject_indirect_without_deref :: "bool \<Rightarrow> bool" where
  "normal_encoded_values_still_reject_indirect_without_deref oc \<longleftrightarrow>
     (case read_encoded oc (DW_EH_PE_INDIRECT OR DW_EH_PE_PCREL OR DW_EH_PE_SDATA4) 0 0 0
        \<lparr>cur_bytes = [0, 0, 0, 0], cur_pos = 0, cur_avma_base = 0x1000\<rparr> of
        Err err \<Rightarrow> dpe_kind err =
          IndirectPointerRequiresDereference (DW_EH_PE_INDIRECT OR DW_EH_PE_PCREL OR DW_EH_PE_SDATA4)
      | _ \<Rightarrow> False)"

text \<open>The CIE and the FDE in 64-bit DWARF; the argument is the address of the function.\<close>

definition dwarf64_cie :: bytes where
  "dwarf64_cie = to_le 4 0xffffffff @ to_le 8 13 @ to_le 8 0 @ [1] @ [0] @ [1] @ [0x78] @ [16]"

definition dwarf64_eh_frame :: "nat \<Rightarrow> nat \<Rightarrow> bytes" where
  "dwarf64_eh_frame initial_pc address_range =
     (let fde_offset = length dwarf64_cie; cie_ptr_pos = fde_offset + 12 in
      dwarf64_cie @ to_le 4 0xffffffff @ to_le 8 24 @ to_le 8 cie_ptr_pos @ to_le 8 initial_pc @
      to_le 8 address_range)"

definition dwarf64_cie_and_fde_use_8_byte_id_and_pointer :: "bool \<Rightarrow> bool" where
  "dwarf64_cie_and_fde_use_8_byte_id_and_pointer oc \<longleftrightarrow>
     (let eh_frame = dwarf64_eh_frame 0x1000 0x10; fde_offset = length dwarf64_cie in
      case parse_cie oc eh_frame 0 0x3000 of
        Ok cie \<Rightarrow>
          (case parse_fde oc eh_frame fde_offset 0x3000
             \<lparr>cfg_fde_encoding = cie_fde_encoding cie, cfg_lsda_encoding = cie_lsda_encoding cie,
              cfg_has_z = cie_has_z cie, cfg_text_base = 0, cfg_data_base = 0\<rparr> of
             Ok fde \<Rightarrow>
               cie_instr_offset_in_eh_frame cie = fde_offset \<and> fde_initial_pc fde = 0x1000 \<and>
               fde_address_range fde = 0x10 \<and> fde_instr_len fde = 0
           | _ \<Rightarrow> False)
      | _ \<Rightarrow> False)"

definition fde_z_augmentation_length_past_entry_returns_error :: "bool \<Rightarrow> bool" where
  "fde_z_augmentation_length_past_entry_returns_error oc \<longleftrightarrow>
     (case parse_fde oc (to_le 4 21 @ to_le 4 4 @ to_le 8 0x1000 @ to_le 8 0x10 @ [1]) 0 0
        \<lparr>cfg_fde_encoding = DW_EH_PE_ABSPTR, cfg_lsda_encoding = DW_EH_PE_OMIT, cfg_has_z = True,
         cfg_text_base = 0, cfg_data_base = 0\<rparr> of
        Err err \<Rightarrow> dpe_kind err = Truncated 26 25
      | _ \<Rightarrow> False)"

section \<open>callbacks.rs\<close>

text \<open>\<open>((a as i64 - b as i64) as i32).to_le_bytes()\<close>.\<close>

definition rel32 :: "nat \<Rightarrow> nat \<Rightarrow> bytes" where
  "rel32 a b = to_le 4 (unat (word_of_int (int a - int b) :: u32))"

definition expect :: "('a, 'e) outcome \<Rightarrow> ('a, 'e) outcome" where
  "expect r = (case r of Err _ \<Rightarrow> Panic | _ \<Rightarrow> r)"

text \<open>The last statements the two builders share.\<close>

definition test_module ::
    "bool \<Rightarrow> string \<Rightarrow> bytes \<Rightarrow> bytes \<Rightarrow> cache_heap \<Rightarrow> (module_data \<times> cache_heap, module_error) outcome" where
  "test_module oc name eh_frame eh_frame_hdr h =
     expect (from_dwarf_sections oc Ok name (0x1000, 0x2000) 0
       \<lparr>dms_base_svma = 0, dms_text_svma = Some (0x1000, 0x2000), dms_text = None,
        dms_eh_frame_svma = Some (0x3000, 0x3000 + word_of_nat (length eh_frame)),
        dms_eh_frame = Some eh_frame,
        dms_eh_frame_hdr_svma = Some (0x4000, 0x4000 + word_of_nat (length eh_frame_hdr)),
        dms_eh_frame_hdr = Some eh_frame_hdr\<rparr> h)"

definition test_eh_frame_hdr :: "nat \<Rightarrow> nat \<Rightarrow> bytes" where
  "test_eh_frame_hdr initial_pc fde_offset =
     [1, 3, 3, 0x3b] @ to_le 4 0x3000 @ to_le 4 1 @ rel32 initial_pc 0x4000 @
     rel32 (0x3000 + fde_offset) 0x4000"

definition one_fde_module ::
    "bool \<Rightarrow> cache_heap \<Rightarrow> (module_data \<times> cache_heap, module_error) outcome" where
  "one_fde_module oc h =
     (let cie = to_le 4 9 @ to_le 4 0 @ [1] @ [0] @ [1] @ [0x78] @ [16];
          fde_offset = length cie; cie_ptr_pos = fde_offset + 4;
          eh_frame = cie @ to_le 4 20 @ to_le 4 cie_ptr_pos @ to_le 8 0x1000 @ to_le 8 0x10 in
      test_module oc ''one-fde'' eh_frame (test_eh_frame_hdr 0x1000 fde_offset) h)"

definition one_dwarf64_fde_module ::
    "bool \<Rightarrow> cache_heap \<Rightarrow> (module_data \<times> cache_heap, module_error) outcome" where
  "one_dwarf64_fde_module oc h =
     test_module oc ''one-dwarf64-fde'' (dwarf64_eh_frame 0x1100 0x20)
       (test_eh_frame_hdr 0x1100 (length dwarf64_cie)) h"

definition accepts_ip_inside_parsed_fde_range :: "bool \<Rightarrow> bool" where
  "accepts_ip_inside_parsed_fde_range oc \<longleftrightarrow>
     (case one_fde_module oc [] of
        Ok (md, h) \<Rightarrow>
          (case parse_function_details oc md 0x100f of
             Ok details \<Rightarrow> fd_start_ip details = 0x1000 \<and> fd_end_ip details = 0x1010
           | _ \<Rightarrow> False)
      | _ \<Rightarrow> False)"

definition rejects_header_lookup_hit_outside_parsed_fde_range :: "bool \<Rightarrow> bool" where
  "rejects_header_lookup_hit_outside_parsed_fde_range oc \<longleftrightarrow>
     (case one_fde_module oc [] of
        Ok (md, h) \<Rightarrow>
          (case parse_function_details oc md 0x1010 of
             Err err \<Rightarrow> err = EhFrameHeaderLookupMiss ''one-fde'' 0x1010
           | _ \<Rightarrow> False)
      | _ \<Rightarrow> False)"

definition accepts_dwarf64_fde_cie_pointer :: "bool \<Rightarrow> bool" where
  "accepts_dwarf64_fde_cie_pointer oc \<longleftrightarrow>
     (case one_dwarf64_fde_module oc [] of
        Ok (md, h) \<Rightarrow>
          (case parse_function_details oc md 0x111f of
             Ok details \<Rightarrow> fd_start_ip details = 0x1100 \<and> fd_end_ip details = 0x1120
           | _ \<Rightarrow> False)
      | _ \<Rightarrow> False)"

section \<open>module.rs\<close>

text \<open>The pointers of the module are the pointers of the caller's vectors.\<close>

definition module_keeps_caller_section_storage_without_copying :: "bool \<Rightarrow> bool" where
  "module_keeps_caller_section_storage_without_copying oc \<longleftrightarrow>
     (let eh_frame = [0x11, 0x22, 0x33, 0x44]; eh_frame_hdr = [1, 0, 0] in
      case module_new oc Ok dwarf_section_info ''zero-copy'' (0x1000, 0x2000) 0x1000
        \<lparr>dms_base_svma = 0x1000, dms_text_svma = None, dms_text = None,
         dms_eh_frame_svma = Some (0x1100, 0x1104), dms_eh_frame = Some eh_frame,
         dms_eh_frame_hdr_svma = Some (0x1200, 0x1203), dms_eh_frame_hdr = Some eh_frame_hdr\<rparr> [] of
        Ok (md, h) \<Rightarrow>
          md_eh_frame_local_ptr md = Ptr eh_frame 0 \<and> md_eh_frame_hdr_local_ptr md = Ptr eh_frame_hdr 0
      | _ \<Rightarrow> False)"

section \<open>All of them pass\<close>

lemma to_le_eval:
  "to_le 4 n = [word_of_nat (n mod 256), word_of_nat (n div 256 mod 256),
     word_of_nat (n div 65536 mod 256), word_of_nat (n div 16777216 mod 256)]"
  "to_le 8 n = [word_of_nat (n mod 256), word_of_nat (n div 256 mod 256),
     word_of_nat (n div 65536 mod 256), word_of_nat (n div 16777216 mod 256),
     word_of_nat (n div 4294967296 mod 256), word_of_nat (n div 1099511627776 mod 256),
     word_of_nat (n div 281474976710656 mod 256), word_of_nat (n div 72057594037927936 mod 256)]"
proof -
  have "(4 :: nat) = Suc (Suc (Suc (Suc 0)))" and "(8 :: nat) = Suc (Suc (Suc (Suc (Suc (Suc (Suc (Suc 0)))))))"
    by simp_all
  then show "to_le 4 n = [word_of_nat (n mod 256), word_of_nat (n div 256 mod 256),
      word_of_nat (n div 65536 mod 256), word_of_nat (n div 16777216 mod 256)]"
    "to_le 8 n = [word_of_nat (n mod 256), word_of_nat (n div 256 mod 256),
      word_of_nat (n div 65536 mod 256), word_of_nat (n div 16777216 mod 256),
      word_of_nat (n div 4294967296 mod 256), word_of_nat (n div 1099511627776 mod 256),
      word_of_nat (n div 281474976710656 mod 256), word_of_nat (n div 72057594037927936 mod 256)]"
    by (simp_all only: to_le.simps div_mult2_eq [symmetric]) simp_all
qed

lemma dwarf64_cie_bytes:
  "dwarf64_cie = [0xff, 0xff, 0xff, 0xff, 13, 0, 0, 0, 0, 0, 0, 0, 0, 0, 0, 0, 0, 0, 0, 0, 1, 0, 1, 0x78, 16]"
  by (simp add: dwarf64_cie_def to_le_eval)

lemma dwarf64_eh_frame_bytes:
  "dwarf64_eh_frame 0x1000 0x10 = dwarf64_cie @
     [0xff, 0xff, 0xff, 0xff, 24, 0, 0, 0, 0, 0, 0, 0, 37, 0, 0, 0, 0, 0, 0, 0,
      0, 0x10, 0, 0, 0, 0, 0, 0, 0x10, 0, 0, 0, 0, 0, 0, 0]"
  "dwarf64_eh_frame 0x1100 0x20 = dwarf64_cie @
     [0xff, 0xff, 0xff, 0xff, 24, 0, 0, 0, 0, 0, 0, 0, 37, 0, 0, 0, 0, 0, 0, 0,
      0, 0x11, 0, 0, 0, 0, 0, 0, 0x20, 0, 0, 0, 0, 0, 0, 0]"
  by (simp_all add: dwarf64_eh_frame_def dwarf64_cie_bytes to_le_eval Let_def)

lemma zplr_passes: "cie_zplr_accepts_indirect_pcrel_sdata4_personality_without_deref oc"
  by (simp add: cie_zplr_accepts_indirect_pcrel_sdata4_personality_without_deref_def zplr_cie_def
      parse_cie_def entry_eval)

lemma indirect_passes: "normal_encoded_values_still_reject_indirect_without_deref oc"
  by (simp add: normal_encoded_values_still_reject_indirect_without_deref_def entry_eval dwarf_error_def)

lemma dwarf64_passes: "dwarf64_cie_and_fde_use_8_byte_id_and_pointer oc"
  by (simp add: dwarf64_cie_and_fde_use_8_byte_id_and_pointer_def dwarf64_eh_frame_bytes
      dwarf64_cie_bytes parse_cie_def parse_fde_def entry_eval read_fde_augmentation_def)

lemma past_entry_passes: "fde_z_augmentation_length_past_entry_returns_error oc"
  by (simp add: fde_z_augmentation_length_past_entry_returns_error_def to_le_eval parse_fde_def
      entry_eval read_fde_augmentation_def dwarf_error_def)

lemma zero_copy_passes: "module_keeps_caller_section_storage_without_copying oc"
  by (simp add: module_keeps_caller_section_storage_without_copying_def module_new_def dwarf_parts
      from_parts_def hdr_part_of_def eh_frame_part_of_def eh_frame_table_parse_def Let_def)

text \<open>The modules of the \<open>callbacks.rs\<close> tests.\<close>

lemma test_hdr_bytes:
  "test_eh_frame_hdr 0x1000 13 = [1, 3, 3, 0x3b, 0, 0x30, 0, 0, 1, 0, 0, 0, 0, 0xd0, 0xff, 0xff,
     13, 0xf0, 0xff, 0xff]"
  "test_eh_frame_hdr 0x1100 25 = [1, 3, 3, 0x3b, 0, 0x30, 0, 0, 1, 0, 0, 0, 0, 0xd1, 0xff, 0xff,
     25, 0xf0, 0xff, 0xff]"
  by (simp_all add: test_eh_frame_hdr_def rel32_def to_le_eval)

lemma test_module_eval:
  assumes "eh_frame_table_parse oc hdr 0x4000 = Ok table"
  shows "\<exists>md. test_module oc name eh hdr h = Ok (md, h @ [Unlocked []]) \<and> md_name md = name \<and>
    md_eh_frame_local_ptr md = Ptr eh 0 \<and> md_eh_frame_local_len md = length eh \<and>
    md_eh_frame_hdr_local_ptr md = Ptr hdr 0 \<and> md_eh_frame_hdr_local_len md = length hdr \<and>
    md_eh_frame_avma md = 0x3000 \<and> md_table md = table \<and> md_text_base md = 0x1000 \<and>
    md_data_base md = 0x4000"
  using assms
  by (simp add: test_module_def expect_def from_dwarf_sections_def validate_module_parts_def
      range_is_empty_def from_parts_def hdr_part_of_def eh_frame_part_of_def Let_def)

lemmas table_eval = eh_frame_table_parse_def enc_size_def read_unsigned_def eh_pe_defs
  slice_from_def saturating_add_usize_def saturating_mul_u64_def u32_from_le_def Let_def

lemma test_hdr_parses:
  "eh_frame_table_parse oc (test_eh_frame_hdr 0x1000 13) 0x4000 =
     Ok \<lparr>tbl_table_data_offset = 12, tbl_entry_count = 1, tbl_eh_frame_hdr_avma = 0x4000\<rparr>"
  "eh_frame_table_parse oc (test_eh_frame_hdr 0x1100 25) 0x4000 =
     Ok \<lparr>tbl_table_data_offset = 12, tbl_entry_count = 1, tbl_eh_frame_hdr_avma = 0x4000\<rparr>"
  by (simp_all add: test_hdr_bytes table_eval)

lemmas lookup_eval = eh_frame_table_lookup_def search_loop.simps entry_pc_def entry_fde_def
  entry_i32_def slice_range_def slice_index_def u32_from_le_def Let_def

lemmas details_eval = parse_function_details_def cie_offset_of_def checked_sub_u64_def
  checked_sub_usize_def checked_add_u64_def parse_cie_def parse_fde_def read_fde_augmentation_def
  entry_eval

text \<open>The first function of a module with one row in its table.\<close>

lemma one_row_lookups:
  "ip \<ge> 0x1000 \<Longrightarrow> eh_frame_table_lookup oc \<lparr>tbl_table_data_offset = 12, tbl_entry_count = 1,
     tbl_eh_frame_hdr_avma = 0x4000\<rparr> (test_eh_frame_hdr 0x1000 13) ip = Ok (Some (0x1000, 0x300d))"
  "ip \<ge> 0x1100 \<Longrightarrow> eh_frame_table_lookup oc \<lparr>tbl_table_data_offset = 12, tbl_entry_count = 1,
     tbl_eh_frame_hdr_avma = 0x4000\<rparr> (test_eh_frame_hdr 0x1100 25) ip = Ok (Some (0x1100, 0x3019))"
  by (simp_all add: test_hdr_bytes lookup_eval not_less)

lemma test_hdr_lengths:
  "length (test_eh_frame_hdr 0x1000 13) = 20" "length (test_eh_frame_hdr 0x1100 25) = 20"
  by (simp_all add: test_hdr_bytes)

definition one_fde_eh_frame :: bytes where
  "one_fde_eh_frame = [9, 0, 0, 0, 0, 0, 0, 0, 1, 0, 1, 0x78, 16, 20, 0, 0, 0,
     17, 0, 0, 0, 0, 0x10, 0, 0, 0, 0, 0, 0, 0x10, 0, 0, 0, 0, 0, 0, 0]"

lemma one_fde_module_eval:
  "one_fde_module oc h = test_module oc ''one-fde'' one_fde_eh_frame (test_eh_frame_hdr 0x1000 13) h"
proof -
  have "length (to_le 4 9 @ to_le 4 0 @ [1] @ [0] @ [1] @ [0x78] @ [16 :: u8]) = 13" by simp
  then show ?thesis
    unfolding one_fde_module_def Let_def by (simp only:) (simp add: one_fde_eh_frame_def to_le_eval)
qed

lemma inside_passes: "accepts_ip_inside_parsed_fde_range oc"
proof -
  obtain md where md: "test_module oc ''one-fde'' one_fde_eh_frame (test_eh_frame_hdr 0x1000 13) [] =
      Ok (md, [] @ [Unlocked []])"
    "md_eh_frame_local_ptr md = Ptr one_fde_eh_frame 0" "md_eh_frame_local_len md = length one_fde_eh_frame"
    "md_eh_frame_hdr_local_ptr md = Ptr (test_eh_frame_hdr 0x1000 13) 0"
    "md_eh_frame_hdr_local_len md = length (test_eh_frame_hdr 0x1000 13)" "md_eh_frame_avma md = 0x3000"
    "md_table md = \<lparr>tbl_table_data_offset = 12, tbl_entry_count = 1, tbl_eh_frame_hdr_avma = 0x4000\<rparr>"
    using test_module_eval [OF test_hdr_parses(1)] by blast
  have "\<exists>d. parse_function_details oc md 0x100f = Ok d \<and> fd_start_ip d = 0x1000 \<and> fd_end_ip d = 0x1010"
    using one_row_lookups(1) [of "0x100f" oc] md(2-)
    by (simp add: details_eval test_hdr_lengths one_fde_eh_frame_def del: and_then_Ok_iff)
  with md(1) show ?thesis
    by (auto simp: accepts_ip_inside_parsed_fde_range_def one_fde_module_eval)
qed

lemma outside_passes: "rejects_header_lookup_hit_outside_parsed_fde_range oc"
proof -
  obtain md where md: "test_module oc ''one-fde'' one_fde_eh_frame (test_eh_frame_hdr 0x1000 13) [] =
      Ok (md, [] @ [Unlocked []])" "md_name md = ''one-fde''"
    "md_eh_frame_local_ptr md = Ptr one_fde_eh_frame 0" "md_eh_frame_local_len md = length one_fde_eh_frame"
    "md_eh_frame_hdr_local_ptr md = Ptr (test_eh_frame_hdr 0x1000 13) 0"
    "md_eh_frame_hdr_local_len md = length (test_eh_frame_hdr 0x1000 13)" "md_eh_frame_avma md = 0x3000"
    "md_table md = \<lparr>tbl_table_data_offset = 12, tbl_entry_count = 1, tbl_eh_frame_hdr_avma = 0x4000\<rparr>"
    using test_module_eval [OF test_hdr_parses(1)] by blast
  have "parse_function_details oc md 0x1010 = Err (EhFrameHeaderLookupMiss ''one-fde'' 0x1010)"
    using one_row_lookups(1) [of "0x1010" oc] md(2-)
    by (simp add: details_eval test_hdr_lengths one_fde_eh_frame_def del: and_then_Ok_iff)
  with md(1) show ?thesis
    by (simp add: rejects_header_lookup_hit_outside_parsed_fde_range_def one_fde_module_eval)
qed

lemma dwarf64_pointer_passes: "accepts_dwarf64_fde_cie_pointer oc"
proof -
  let ?eh = "dwarf64_eh_frame 0x1100 0x20"
  obtain md where md: "test_module oc ''one-dwarf64-fde'' ?eh (test_eh_frame_hdr 0x1100 25) [] =
      Ok (md, [] @ [Unlocked []])"
    "md_eh_frame_local_ptr md = Ptr ?eh 0" "md_eh_frame_local_len md = length ?eh"
    "md_eh_frame_hdr_local_ptr md = Ptr (test_eh_frame_hdr 0x1100 25) 0"
    "md_eh_frame_hdr_local_len md = length (test_eh_frame_hdr 0x1100 25)" "md_eh_frame_avma md = 0x3000"
    "md_table md = \<lparr>tbl_table_data_offset = 12, tbl_entry_count = 1, tbl_eh_frame_hdr_avma = 0x4000\<rparr>"
    using test_module_eval [OF test_hdr_parses(2)] by blast
  have "\<exists>d. parse_function_details oc md 0x111f = Ok d \<and> fd_start_ip d = 0x1100 \<and> fd_end_ip d = 0x1120"
    using one_row_lookups(2) [of "0x111f" oc] md(2-)
    by (simp add: details_eval test_hdr_lengths dwarf64_eh_frame_bytes dwarf64_cie_bytes
        del: and_then_Ok_iff)
  moreover have "length dwarf64_cie = 25" by (simp add: dwarf64_cie_bytes)
  ultimately show ?thesis
    using md(1) by (auto simp: accepts_dwarf64_fde_cie_pointer_def one_dwarf64_fde_module_def)
qed

text \<open>The unit tests of the crate pass on the model in every build profile.\<close>

theorem unit_tests_pass:
  "cie_zplr_accepts_indirect_pcrel_sdata4_personality_without_deref oc \<and>
   normal_encoded_values_still_reject_indirect_without_deref oc \<and>
   dwarf64_cie_and_fde_use_8_byte_id_and_pointer oc \<and>
   fde_z_augmentation_length_past_entry_returns_error oc \<and> accepts_ip_inside_parsed_fde_range oc \<and>
   rejects_header_lookup_hit_outside_parsed_fde_range oc \<and> accepts_dwarf64_fde_cie_pointer oc \<and>
   module_keeps_caller_section_storage_without_copying oc"
  by (simp add: zplr_passes indirect_passes dwarf64_passes past_entry_passes inside_passes
      outside_passes dwarf64_pointer_passes zero_copy_passes)

end
