(* ===== verification/Repository_Tests.thy ===== *)
theory Repository_Tests
  imports X86_64 Aarch64
begin

text \<open>
  The repository's integration tests, run on the model: \<open>tests/fallback.rs\<close>,
  \<open>tests/smoke.rs\<close> and \<open>tests/api_compat.rs\<close>.  Every lemma has the inputs
  and the expected values of one test, for an arbitrary build profile and, where an unwinder
  is involved, an arbitrary libunwind, so that a definition that strays from the code on these
  inputs does not check.
\<close>

section \<open>tests/fallback.rs and tests/smoke.rs\<close>

text \<open>The closure \<open>|addr| stack.get((addr / 8) as usize).copied().ok_or(())\<close>.\<close>

definition slots :: "u64 list \<Rightarrow> unit reader_fn" where
  "slots stack = (\<lambda>s addr. (if unat (addr div 8) < length stack then Some (stack ! unat (addr div 8))
     else None, s))"

definition unwind_with_stack ::
    "bool \<Rightarrow> 'c libunwind \<Rightarrow> u64 \<Rightarrow> u64 \<Rightarrow> u64 list \<Rightarrow> (u64 option, error) outcome \<times> u64 \<times> u64 \<times> u64" where
  "unwind_with_stack oc lu sp bp stack =
     (case x86_64_unwind_frame oc lu (slots stack) x86_64_unwinder_new
        (from_instruction_pointer 0x1000) (x86_64_regs_new 0x1000 sp bp, (), []) of
        (r, regs, s, h) \<Rightarrow> (r, x86_64_ip regs, x86_64_sp regs, x86_64_bp regs))"

lemmas x86_64_run_defs = unwind_with_stack_def x86_64_unwind_frame_def x86_64_unwinder_new_def
  module_set_new_def module_set_unwind_info_error_def has_unwind_info_def find_module_def
  x86_64_fallback_unwind_frame_def x86_64_regs_new_def x86_64_set_bp_def x86_64_set_sp_def
  x86_64_set_ip_def x86_64_set_def x86_64_sp_def x86_64_bp_def x86_64_ip_def x86_64_get_def
  x86_64_clear_unrestored_def from_instruction_pointer_def address_def address_for_lookup_def
  slots_def checked_add_u64_def Let_def nth_list_update

lemma x86_64_unwinds_with_frame_pointer:
  "unwind_with_stack oc lu 0x10 0x20 [0, 0, 0, 0, 0x40, 0x1234] =
     (Ok (Some 0x1234), 0x1234, 0x30, 0x40)"
  by (simp add: x86_64_run_defs)

lemma x86_64_zero_frame_pointer_ends_stack: "fst (unwind_with_stack oc lu 0x10 0 []) = Ok None"
  by (simp add: x86_64_run_defs)

lemma x86_64_backwards_frame_pointer_is_error:
  "fst (unwind_with_stack oc lu 0x30 0x10 [0, 0, 0x40, 0x1234]) =
     Err FramepointerUnwindingMovedBackwards"
  by (simp add: x86_64_run_defs)

lemma x86_64_non_increasing_saved_frame_pointer_is_error:
  "fst (unwind_with_stack oc lu 0x10 0x20 [0, 0, 0, 0, 0x20, 0x1234]) =
     Err FramepointerUnwindingMovedBackwards"
  "fst (unwind_with_stack oc lu 0x10 0x20 [0, 0, 0, 0, 0x18, 0x1234]) =
     Err FramepointerUnwindingMovedBackwards"
  by (simp_all add: x86_64_run_defs)

lemma x86_64_final_saved_frame_pointer_returns_address:
  "unwind_with_stack oc lu 0x10 0x20 [0, 0, 0, 0, 0, 0x1234] = (Ok (Some 0x1234), 0x1234, 0x30, 0)"
  by (simp add: x86_64_run_defs)

lemma x86_64_failed_stack_read_reports_address:
  "fst (unwind_with_stack oc lu 0x10 0x20 []) = Err (CouldNotReadStack 0x20)"
  by (simp add: x86_64_run_defs)

lemma x86_64_null_return_address_ends_stack:
  "fst (unwind_with_stack oc lu 0x10 0x20 [0, 0, 0, 0, 0x40, 0]) = Ok None"
  by (simp add: x86_64_run_defs)

text \<open>The aarch64 tests count the reads, so the state of the reader is the counter.\<close>

definition counting :: "(u64 \<Rightarrow> u64 option) \<Rightarrow> nat reader_fn" where
  "counting mem = (\<lambda>n addr. (mem addr, n + 1))"

lemmas aarch64_run_defs = aarch64_unwind_frame_def aarch64_unwinder_new_def
  module_set_new_def module_set_unwind_info_error_def has_unwind_info_def find_module_def
  aarch64_fallback_unwind_frame_def aarch64_regs_new_def aarch64_regs_new_with_mask_def
  aarch64_sp_def aarch64_fp_def aarch64_lr_mask_def new_no_strip_def strip_ptr_auth_def
  from_instruction_pointer_def address_def address_for_lookup_def counting_def slots_def
  checked_add_u64_def Let_def

lemma aarch64_unwinds_with_frame_pointer:
  "\<exists>regs s h. aarch64_unwind_frame oc lu (slots [0, 0, 0, 0, 0x40, 0x1234]) aarch64_unwinder_new
     (from_instruction_pointer 0x1000) (aarch64_regs_new 0x1000 0x10 0x20, (), []) =
     (Ok (Some 0x1234), regs, s, h) \<and> ar_lr regs = 0x1234 \<and> ar_sp regs = 0x30 \<and> ar_fp regs = 0x40"
  by (simp add: aarch64_run_defs)

lemma aarch64_backwards_frame_pointer_is_error_without_stack_read:
  "\<exists>regs h. aarch64_unwind_frame oc lu (counting (\<lambda>_. None)) aarch64_unwinder_new
     (from_instruction_pointer 0x1000) (aarch64_regs_new 0x1000 0x30 0x10, 0, []) =
     (Err FramepointerUnwindingMovedBackwards, regs, 0, h)"
  by (simp add: aarch64_run_defs)

lemma aarch64_non_increasing_saved_frame_pointer_is_error_before_lr_read:
  "\<exists>regs h. aarch64_unwind_frame oc lu (counting (\<lambda>a. if a = 0x20 then Some 0x20 else None))
     aarch64_unwinder_new (from_instruction_pointer 0x1000)
     (aarch64_regs_new 0x1000 0x10 0x20, 0, []) =
     (Err FramepointerUnwindingMovedBackwards, regs, 1, h)"
  by (simp add: aarch64_run_defs)

section \<open>tests/api_compat.rs\<close>

lemma frame_address_adjusts_return_addresses_for_lookup:
  "address (from_instruction_pointer 0x1000) = 0x1000"
  "address_for_lookup (from_instruction_pointer 0x1000) = 0x1000"
  "\<not> is_return_address (from_instruction_pointer 0x1000)"
  "map_option (\<lambda>f. (address f, address_for_lookup f, is_return_address f)) (from_return_address 0x2000) =
     Some (0x2000, 0x1fff, True)"
  "from_return_address 0 = None"
  by (simp_all add: from_instruction_pointer_def from_return_address_def address_def
      address_for_lookup_def is_return_address_def)

definition signal_aware_dummy :: "unit unwinder_ops" where
  "signal_aware_dummy = \<lparr>uw_unwind_frame = (\<lambda>f w. (Ok (Some 0x2000), w)),
     uw_is_signal_frame = (\<lambda>f w. f = InstructionPointer 0x1000)\<rparr>"

lemma iterator_preserves_signal_frame_instruction_pointer_semantics:
  "let (r1, it1) = iter_next signal_aware_dummy (iter_frames 0x1000 ());
       (r2, it2) = iter_next signal_aware_dummy it1 in
   r1 = Ok (Some (InstructionPointer 0x1000)) \<and> r2 = Ok (Some (InstructionPointer 0x2000))"
  by (simp add: iter_frames_def iter_next_def signal_aware_dummy_def next_frame_def Let_def)

lemma x86_64_register_api_tracks_optional_general_registers:
  "x86_64_rip (x86_64_regs_new 0x10 0x20 0x30) = 0x10"
  "x86_64_rsp (x86_64_regs_new 0x10 0x20 0x30) = 0x20"
  "x86_64_rbp (x86_64_regs_new 0x10 0x20 0x30) = 0x30"
  "x86_64_get_if_set (x86_64_regs_new 0x10 0x20 0x30) R9 = None"
  "x86_64_get_if_set (x86_64_set R9 0x90 (x86_64_regs_new 0x10 0x20 0x30)) R9 = Some 0x90"
  by (simp_all add: x86_64_rip_def x86_64_rsp_def x86_64_rbp_def x86_64_run_defs
      x86_64_get_if_set_def x86_64_valid_reg_bit_def)

lemma aarch64_pointer_auth_api_strips_configured_bits:
  "mask_bits new_24_40 = push_bit 40 1 - 1"
  "mask_bits (from_max_known_address 0x0000aaaab54f7000) = 0x0000ffffffffffff"
  "ar_lr (aarch64_regs_new_with_mask (PtrAuthMask 0x0000ffffffffffff) 0xabcd000000001234 0x20 0x30) =
     0x1234"
  by (simp_all add: new_24_40_def from_max_known_address_def leading_zeros_def bit_length.simps
      mask_eq_exp_minus_1 aarch64_regs_new_with_mask_def strip_ptr_auth_def)

lemma module_without_unwind_sections_keeps_its_metadata:
  "\<exists>md h'. fallback_only oc Ok ''empty'' (0x1000, 0x2000) 0x1000 h = Ok (md, h') \<and>
     module_get_name md = ''empty'' \<and> module_avma_range md = (0x1000, 0x2000) \<and>
     module_base_avma md = 0x1000"
  by (simp add: fallback_only_def from_parts_def hdr_part_of_def eh_frame_part_of_def Let_def
      module_get_name_def module_avma_range_def module_base_avma_def)

definition no_sections :: "bytes dwarf_module_sections" where
  "no_sections = \<lparr>dms_base_svma = 0, dms_text_svma = None, dms_text = None, dms_eh_frame_svma = None,
     dms_eh_frame = None, dms_eh_frame_hdr_svma = None, dms_eh_frame_hdr = None\<rparr>"

definition bad_sections :: "bytes dwarf_module_sections" where
  "bad_sections = \<lparr>dms_base_svma = 0, dms_text_svma = Some (0, 1), dms_text = Some [0],
     dms_eh_frame_svma = Some (0x100, 0x101), dms_eh_frame = Some [0],
     dms_eh_frame_hdr_svma = Some (0x200, 0x203), dms_eh_frame_hdr = Some [1, 0, 0]\<rparr>"

lemma strict_dwarf_constructor_reports_missing_unwind_sections:
  "from_dwarf_sections oc Ok ''empty'' (0x1000, 0x2000) 0x1000 no_sections h = Err MissingEhFrameSvma"
  by (simp add: from_dwarf_sections_def no_sections_def validate_module_parts_def range_is_empty_def)

lemma strict_dwarf_constructor_reports_malformed_eh_frame_hdr:
  "from_dwarf_sections oc Ok ''bad'' (0x1000, 0x2000) 0x1000 bad_sections h =
     Err (ModuleInvalidEhFrameHdr (FixedHeaderTruncated 3))"
  by (simp add: from_dwarf_sections_def bad_sections_def validate_module_parts_def range_is_empty_def
      eh_frame_table_parse_def Let_def)

end
