(* ===== verification/Spec2Isabelle.thy ===== *)
theory Spec2Isabelle
  imports X86_64 Aarch64 Cache_Independence Cpp_Unwind_Bench Fuzz_Entry Cache_Race Eh_Frame_Image
    Build_Script Unit_Tests Repository_Tests
begin

text \<open>
  A verification library for \<open>libunwinder\<close>, a Rust crate that unwinds the stack of another
  process with a vendored libunwind and the process's own \<open>.eh_frame\<close> sections.

  \<^bold>\<open>The program.\<close>  A user registers the modules of a process (\<open>module.rs\<close>, \<open>module_set.rs\<close>) with
  an unwinder for the architecture (\<open>x86_64.rs\<close>, \<open>aarch64.rs\<close>) and asks it for the frames of a
  stack, reading the process's memory through a closure.  \<open>UnwindIterator::next\<close> calls
  \<open>unwind_frame\<close>; for an address with unwind information that calls libunwind through
  \<open>init_and_step\<close> (\<open>address_space.rs\<close>), and libunwind calls back (\<open>callbacks.rs\<close>) for registers,
  memory and the unwind information of a function.  The last comes from a per-module cache or
  from a binary search in \<open>.eh_frame_hdr\<close> (\<open>eh_frame_table.rs\<close>) and the CIE and FDE parsers
  (\<open>dwarf.rs\<close>).  For an address without unwind information \<open>unwind_frame\<close> follows the frame
  pointer.

  \<^bold>\<open>The theories\<close>, in the order they build on each other:

  \<^item> \<open>Rust_Prelude\<close>: machine integers, results (value, error, panic, undefined behaviour), slices
    and raw pointers of the Rust language.  \<open>oc\<close> is the \<open>overflow-checks\<close> setting of the build.
  \<^item> \<open>Btree\<close>: \<open>BTreeMap\<close> with the locales \<open>ordered_map\<close> and \<open>interval_index\<close>, interpreted for the
    three maps of the crate (modules, redirects, function cache).
  \<^item> \<open>Ffi\<close> (\<open>ffi/\<close>) and \<open>Unwind_Error\<close> (\<open>error.rs\<close>): constants, and the structs shared with
    libunwind as bits in memory, written by the fields of the Rust struct and read by those of the C
    header (they agree on every field but the flags of \<open>DwarfCieInfo\<close>); every error type with its
    texts and sources.
  \<^item> \<open>Dwarf_Cursor\<close>, \<open>Dwarf_Leb128\<close>, \<open>Dwarf_Entries\<close> (\<open>dwarf.rs\<close>): the byte cursor with the locale
    \<open>safe_reader\<close>, LEB128, and the CIE and FDE parsers.  They are safe on arbitrary bytes, exact
    on LEB128, and the ranges they hand to libunwind lie in the section.
  \<^item> \<open>Dwarf_Roundtrip\<close>: encoders for CIEs and FDEs of every format, augmentation and pointer
    encoding, built from the locale \<open>field_codec\<close> (a reader that undoes a writer); the parsers read
    every encoded entry back.
  \<^item> \<open>Eh_Frame_Table\<close> (\<open>eh_frame_table.rs\<close>): header parser and binary search; the search equals a
    linear reference search on a sorted table and ends on any table.
  \<^item> \<open>Frame_Address\<close> (\<open>frame_address.rs\<close>), \<open>Module_Sections\<close> and \<open>Module\<close> (\<open>module.rs\<close>): section
    sources with the locale \<open>section_source\<close>, and the constructors of a module with its invariant.
    Function caches live in a heap of cells, because modules are shared.
  \<^item> \<open>Module_Set\<close> (\<open>module_set.rs\<close>): the registry; module lookup is exact, local reads stay inside
    their mirrored section (and leave it exactly at the top of the address space), every operation
    keeps the invariant, and the strict constructors accept what has unwind information.
  \<^item> \<open>Callbacks\<close> (\<open>callbacks.rs\<close>, \<open>unwind_ctx.rs\<close>): the callbacks and the function cache; the cache is
    transparent, that is, a lookup through it gives what a fresh parse gives.
  \<^item> \<open>Eh_Frame_Image\<close>: the sections a linker writes for a list of functions as the specification of
    a module; from the constructor to the cache, lookups answer with exactly these functions, and
    a signal frame is recognised exactly when its function has been looked up.
  \<^item> \<open>Cache_Race\<close>: the same cache as an inductive step relation of threads with reference counts.
    The answers are right under every interleaving, a call that runs alone refines the sequential
    one, and the details stay alive for one thread, but not for two.
  \<^item> \<open>Address_Space\<close> (\<open>address_space.rs\<close>): a call into libunwind is a tree of callbacks, and the three
    entry points are a parameter \<open>lu\<close> of which nothing is assumed.  The inductive \<open>called\<close> and
    \<open>failed_at\<close> say which calls a step made and which of them failed first; the outcome of a step is
    proved to be exactly that.
  \<^item> \<open>Unwind_Iterator\<close> (the \<open>Unwinder\<close> trait and \<open>UnwindIterator\<close> of \<open>module.rs\<close>): locales
    \<open>frame_unwinder\<close> (a step is safe) and \<open>advancing_unwinder\<close> (a step lowers a measure), and the
    inductive set of reachable iterators.
  \<^item> \<open>Frame_Pointer\<close>: the linked list of frame records as the specification of the fallback, and the
    locale \<open>fp_unwinder\<close>, in which the iterator is proved to return exactly that list.
  \<^item> \<open>X86_64\<close>, \<open>Aarch64\<close>: register files, masks, the fallback and \<open>unwind_frame\<close>; each interprets the
    three locales above.
  \<^item> \<open>Cache_Independence\<close>: two walks of the same stack over different function caches, step by step,
    with the locale \<open>cache_independent\<close> interpreted for both architectures: they return the same.
  \<^item> \<open>Fuzz_Entry\<close> (\<open>lib.rs\<close>) and \<open>Cpp_Unwind_Bench\<close> (\<open>examples/cpp_unwind_bench.rs\<close>): two drivers of
    the library.
  \<^item> \<open>Build_Script\<close> (\<open>build.rs\<close>): which libunwind is linked, over a machine of files and commands; the
    locales \<open>quiet\<close> and \<open>probing\<close> say what a step may leave in the log.
  \<^item> \<open>Unit_Tests\<close> and \<open>Repository_Tests\<close>: the unit tests inside the sources as definitions that are
    proved to hold, and the inputs and expected values of the integration tests.

  This theory holds the properties that span both architectures.

  \<^bold>\<open>State and effects.\<close>  A step works on the registers, the state the reader closure captured and the
  heap of function caches, and returns them updated; an \<open>extern "C"\<close> callback returns what it wrote
  through its pointers.  A panic inside a callback aborts the process and is the result \<open>Panic\<close> of
  the step.  \<open>settles\<close> states that a result is no undefined behaviour, panics only in a build with
  overflow checks, and leaves an invariant.

  \<^bold>\<open>Fuel.\<close>  Only \<open>drain\<close>, the caller's loop over an iterator, has fuel, because unwinding with an
  arbitrary libunwind need not end.  For the fallback the fuel \<open>fp_room hi fp + 2\<close> is proved to be
  enough, with \<open>hi\<close> the top of the readable stack.  All other loops are total functions.

  \<^bold>\<open>Assumptions\<close>, each a hypothesis of the theorems that need it: modules are built by the crate's
  constructors (\<open>module_set_wf\<close>) and their images do not overlap (\<open>modules_disjoint\<close>); search tables
  are sorted and consistent with their FDEs (\<open>table_consistent\<close>), where the cache is compared with a
  fresh parse; no mirrored section ends at the top of the address space (\<open>mirrors_ok\<close>), because the
  bounds check saturates there; mirrored sections do not overlap (\<open>mirrors_disjoint\<close>), where a read is
  traced to its section; libunwind can create an address space; and, where caches are compared, if
  the registered sections describe a signal frame at all, every step of libunwind asks for the
  function of its frame (\<open>signals_asked\<close>).  The vendored \<open>unw_step\<close> does so on x86_64: it begins with
  \<open>dwarf_step\<close>, the address space has no cache of its own, and \<open>get_dyn_info_list_addr\<close> always answers
  that there is no dynamic information.  On aarch64 it steps over the kernel's signal trampoline
  without asking, so there the assumption says that no registered function is a signal frame; what
  happens otherwise is the last property of \<open>Eh_Frame_Image\<close>.

  \<^bold>\<open>Not modelled\<close>: libunwind itself, the \<open>object\<close> and \<open>memmap2\<close> crates, the operating system, the
  clock and \<open>f64\<close> arithmetic (parameters); the C++ texts of the benchmark's workloads (arguments);
  the \<open>Debug\<close> implementations and the empty per-architecture cache types; the extern declarations in
  \<open>ffi/mod.rs\<close>; the timing harness \<open>benches/unwind.rs\<close> and the tests on binary fixtures.  Of concurrency
  only the function cache is modelled: the other state a thread touches during a step is its own
  or immutable.  \<open>find_proc_info\<close> hands out a pointer to the cached \<open>DwarfCieInfo\<close>; the sequential
  model stores the record itself, and \<open>Cache_Race\<close> follows the pointer's lifetime.
\<close>

section \<open>Properties of both architectures\<close>

text \<open>C4: Frame-pointer unwinding is exact.  On code without unwind information and a memory
  that can be read, the iterator of either architecture succeeds exactly when the frame
  pointer leads a proper chain of frame records, and then returns the program counter
  followed by the chain's return addresses, with authentication bits removed on aarch64.\<close>

theorem frame_pointer_unwinding_exact:
  "(x86_64_regs_ok xregs \<and> bare (xu_modules xu) h pc \<and>
      (\<forall>ra \<in> set ras. bare (xu_modules xu) h (ra - 1)) \<longrightarrow>
      ((\<exists>n. drain (x86_64_ops oc lu (mem_reader mem) xu) n (iter_frames pc (xregs, s, h)) =
          Some (InstructionPointer pc # map ReturnAddress ras, Ok ())) \<longleftrightarrow>
       fp_chain mem id (x86_64_sp xregs) (x86_64_bp xregs) ras)) \<and>
   (bare (au_modules au) h (strip_ptr_auth (ar_lr_mask aregs) pc) \<and>
      (\<forall>ra \<in> set ras. bare (au_modules au) h (strip_ptr_auth (ar_lr_mask aregs) (ra - 1))) \<longrightarrow>
      ((\<exists>n. drain (aarch64_ops oc lu (mem_reader mem) au) n (iter_frames pc (aregs, s, h)) =
          Some (InstructionPointer pc # map ReturnAddress ras, Ok ())) \<longleftrightarrow>
       fp_chain mem (strip_ptr_auth (ar_lr_mask aregs)) (ar_sp aregs) (ar_fp aregs) ras))"
  using x86_64_fp.drain_iff_chain [of h "(xregs, s, h)" xu pc ras oc lu mem]
    aarch64_fp.drain_iff_chain [of "ar_lr_mask aregs" h "(aregs, s, h)" au pc ras oc lu mem]
  by (simp add: x86_64_fp_inv_def aarch64_fp_inv_def address_for_lookup_def)

theorem frame_pointer_unwinding_exact_witness:
  "(\<exists>n. drain (x86_64_ops True sample_lu (mem_reader sample_stack) x86_64_unwinder_new) n
      (iter_frames 0x401000 (x86_64_sample_regs, (), [])) =
      Some ([InstructionPointer 0x401000, ReturnAddress 0x401234, ReturnAddress 0x401300], Ok ())) \<and>
   (\<exists>n. drain (aarch64_ops True sample_lu (mem_reader signed_stack) aarch64_unwinder_new) n
      (iter_frames 0x401000 (aarch64_sample_regs, (), [])) =
      Some ([InstructionPointer 0x401000, ReturnAddress 0x401234, ReturnAddress 0x401300], Ok ()))"
  using frame_pointer_unwinding_exact [of x86_64_sample_regs x86_64_unwinder_new "[]" "0x401000"
      "[0x401234, 0x401300]" True sample_lu sample_stack "()" aarch64_unwinder_new aarch64_sample_regs]
    frame_pointer_unwinding_exact [of x86_64_sample_regs x86_64_unwinder_new "[]" "0x401000"
      "[0x401234, 0x401300]" True sample_lu signed_stack "()" aarch64_unwinder_new aarch64_sample_regs]
    sample_chain signed_chain bare_empty
  by (simp add: x86_64_unwinder_new_def aarch64_unwinder_new_def)

text \<open>C12: Frame-pointer unwinding ends.  On a registry without unwind information, with any
  reader that cannot read at or above the top of the stack, even one that answers differently
  every time, the loop over the frames ends after at most as many frames as there are
  addresses between the frame pointer and the top of the stack, and it ends with a value and
  never with a panic.\<close>

theorem frame_pointer_unwinding_terminates:
  "(x86_64_regs_ok xregs \<and> reads_below hi rf \<and> (\<forall>a. bare (xu_modules xu) h a) \<longrightarrow>
      (\<exists>fs r. drain (x86_64_ops oc lu rf xu) (fp_room hi (x86_64_bp xregs) + 2)
          (iter_frames pc (xregs, s, h)) = Some (fs, r) \<and> defined r \<and>
        length fs \<le> fp_room hi (x86_64_bp xregs) + 1)) \<and>
   (reads_below hi rf \<and> (\<forall>a. bare (au_modules au) h a) \<longrightarrow>
      (\<exists>fs r. drain (aarch64_ops oc lu rf au) (fp_room hi (ar_fp aregs) + 2)
          (iter_frames pc (aregs, s, h)) = Some (fs, r) \<and> defined r \<and>
        length fs \<le> fp_room hi (ar_fp aregs) + 1))"
proof (intro conjI impI)
  assume "x86_64_regs_ok xregs \<and> reads_below hi rf \<and> (\<forall>a. bare (xu_modules xu) h a)"
  then have w: "x86_64_bare_inv hi rf xu (xregs, s, h)" by (auto simp: x86_64_bare_inv_def)
  then have "iter_inv (x86_64_bare_inv hi rf xu) (iter_frames pc (xregs, s, h))"
    by (simp add: iter_inv_def iter_frames_def)
  with x86_64_bare.drain_terminates [OF w order_refl, of oc lu pc] x86_64_bare.drain_settles
  show "\<exists>fs r. drain (x86_64_ops oc lu rf xu) (fp_room hi (x86_64_bp xregs) + 2)
      (iter_frames pc (xregs, s, h)) = Some (fs, r) \<and> defined r \<and>
      length fs \<le> fp_room hi (x86_64_bp xregs) + 1"
    by (metis fst_conv panic_only_False)
next
  assume "reads_below hi rf \<and> (\<forall>a. bare (au_modules au) h a)"
  then have w: "aarch64_bare_inv hi rf au (aregs, s, h)" by (auto simp: aarch64_bare_inv_def)
  then have "iter_inv (aarch64_bare_inv hi rf au) (iter_frames pc (aregs, s, h))"
    by (simp add: iter_inv_def iter_frames_def)
  with aarch64_bare.drain_terminates [OF w order_refl, of oc lu pc] aarch64_bare.drain_settles
  show "\<exists>fs r. drain (aarch64_ops oc lu rf au) (fp_room hi (ar_fp aregs) + 2)
      (iter_frames pc (aregs, s, h)) = Some (fs, r) \<and> defined r \<and>
      length fs \<le> fp_room hi (ar_fp aregs) + 1"
    by (metis fst_conv panic_only_False)
qed

theorem frame_pointer_unwinding_terminates_witness:
  "\<exists>fs r. drain (x86_64_ops True sample_lu (mem_reader sample_stack) x86_64_unwinder_new) 50
     (iter_frames 0x401000 (x86_64_sample_regs, (), [])) = Some (fs, r) \<and> defined r \<and> length fs \<le> 49"
  using frame_pointer_unwinding_terminates [of x86_64_sample_regs "0x7030" "mem_reader sample_stack"
      x86_64_unwinder_new "[]" True sample_lu "0x401000" "()", THEN conjunct1]
  by (simp add: x86_64_unwinder_new_def fp_room_def sample_stack_below bare_empty)

text \<open>C20: What an error says is true.  A module with a broken search table fails the step at once.
  Otherwise \<open>Libunwind\<close> is reported only for code with unwind information, and names the call of
  libunwind that failed in this very step, with the status it returned; \<open>UnwindInfo\<close> carries the
  reason why the lookup of the frame's function fails; \<open>CouldNotReadStack\<close> names a word the user's
  reader refused, and that no mirrored section holds if libunwind wanted it; only a frame-pointer
  step reports that it moved backwards or that an address overflowed, only a libunwind step that
  the frame did not advance; and, as its documentation says, no step ever reports a null return
  address.\<close>

theorem unwind_error_sources:
  "(case module_set_unwind_info_error (xu_modules xu) (address_for_lookup f) of
      Some err \<Rightarrow> fst (x86_64_unwind_frame oc lu rf xu f (xregs, s, h)) = Err (UnwindInfo err)
    | None \<Rightarrow> \<forall>e. fst (x86_64_unwind_frame oc lu rf xu f (xregs, s, h)) = Err e \<longrightarrow>
        x86_64_error_ok oc lu rf xu f (xregs, s, h) e) \<and>
   (case module_set_unwind_info_error (au_modules au)
        (strip_ptr_auth (ar_lr_mask aregs) (address_for_lookup f)) of
      Some err \<Rightarrow> fst (aarch64_unwind_frame oc lu rf au f (aregs, s, h)) = Err (UnwindInfo err)
    | None \<Rightarrow> \<forall>e. fst (aarch64_unwind_frame oc lu rf au f (aregs, s, h)) = Err e \<longrightarrow>
        aarch64_error_ok oc lu rf au f (aregs, s, h) e)"
  by (auto simp: x86_64_unwind_broken aarch64_unwind_broken split: option.split
      intro: x86_64_error_source aarch64_error_source)

theorem unwind_error_sources_witness:
  "\<exists>e. fst (x86_64_unwind_frame True failing_lu (mem_reader sample_stack) \<lparr>xu_modules = sample_set\<rparr>
       (InstructionPointer 0x1008) (x86_64_sample_regs, (), [Unlocked []])) = Err (Libunwind e) \<and>
     lue_raw_status e = - 10 \<and>
     failed_at (x86_64_acc True (mem_reader sample_stack)) failing_lu x86_64_reg_ip
       [x86_64_UNW_REG_SP, UNW_X86_64_RBP]
       (x86_64_ctx \<lparr>xu_modules = sample_set\<rparr> (InstructionPointer 0x1008) x86_64_sample_regs (), [Unlocked []])
       InitRemote (- 10)"
proof -
  let ?e = "\<lparr>lue_phase = InitRemote, lue_code = NoInfo, lue_raw_status = - 10\<rparr>"
  have "find_module sample_set 0x1008 = Some (sample_module 0)" by (rule walk_modules) simp_all
  then have info: "has_unwind_info sample_set 0x1008" "module_set_unwind_info_error sample_set 0x1008 = None"
    by (simp_all add: has_unwind_info_def module_set_unwind_info_error_def)
      (simp_all add: sample_module_def sample_table_def)
  then have err: "fst (x86_64_unwind_frame True failing_lu (mem_reader sample_stack) \<lparr>xu_modules = sample_set\<rparr>
      (InstructionPointer 0x1008) (x86_64_sample_regs, (), [Unlocked []])) = Err (Libunwind ?e)"
    by (simp add: x86_64_unwind_frame_def x86_64_finish_step_def address_for_lookup_def init_and_step_def
        failing_lu_def sample_lu_def seq_then_def libunwind_failed_def libunwind_error_new_def
        from_status_def i32_abs_def code_of_abs_def unw_code_defs Let_def)
  with unwind_error_sources [where xu = "\<lparr>xu_modules = sample_set\<rparr>" and f = "InstructionPointer 0x1008"
      and oc = True and lu = failing_lu and rf = "mem_reader sample_stack"
      and xregs = x86_64_sample_regs and s = "()" and h = "[Unlocked []]", THEN conjunct1] info
  show ?thesis
    by (auto simp: address_for_lookup_def x86_64_error_ok_def error_source_ok_def Let_def)
qed

end
